theory Spec2Isabelle
  imports Main "HOL-Library.Word" "HOL-Library.List_Lexorder"
begin

unbundle bit_operations_syntax

section \<open>Byte strings, errors and hashes\<close>

type_synonym byte = "8 word"
type_synonym bytes = "byte list"

text \<open>
  The sentinel errors of package stakerdb, the errors built with \<open>fmt.Errorf\<close> (with and
  without a wrapped cause, the \<open>%w\<close> verb), the errors returned by the libraries the store
  calls, and a run-time panic (an out-of-range slice read).
\<close>

datatype error =
    ErrCorruptedTransactionsDB
  | ErrTransactionNotFound
  | ErrDuplicateTransaction
  | ErrUnbondingDataNotFound
  | ErrInvalidUnbondingDataUpdate
  | Errorf string
  | Errorf_w string error
  | LibError string
  | Panic string

text \<open>\<open>errors.Is\<close>: the error itself or one of the causes it wraps.\<close>

fun errors_Is :: "error \<Rightarrow> error \<Rightarrow> bool" where
  "errors_Is (Errorf_w msg cause) target =
     (Errorf_w msg cause = target \<or> errors_Is cause target)"
| "errors_Is err target = (err = target)"

text \<open>\<open>chainhash.Hash\<close> is the array type \<open>[32]byte\<close>.\<close>

typedef chainhash = "{bs :: byte list. length bs = 32}"
  by (rule exI [of _ "replicate 32 0"]) simp

definition CloneBytes :: "chainhash \<Rightarrow> bytes" where
  "CloneBytes h = Rep_chainhash h"

definition NewHash :: "bytes \<Rightarrow> error + chainhash" where
  "NewHash newHash =
     (if length newHash \<noteq> 32 then Inl (LibError ''invalid hash length'')
      else Inr (Abs_chainhash newHash))"

section \<open>Bitcoin transactions and the external codecs\<close>

record OutPoint =
  Hash :: chainhash
  Index :: "32 word"

record TxIn =
  PreviousOutPoint :: OutPoint
  SignatureScript :: bytes
  Witness :: "bytes list"
  Sequence :: "32 word"

record TxOut =
  Value :: "64 word"
  PkScript :: bytes

record MsgTx =
  Version :: "32 word"
  TxIn :: "TxIn list"
  TxOut :: "TxOut list"
  LockTime :: "32 word"

section \<open>The persisted messages (package proto)\<close>

record BTCConfirmationInfo =
  pb_BlockHeight :: "32 word"
  pb_BlockHash :: bytes

record CovenantSig =
  pb_CovenantSig :: bytes
  pb_CovenantSigBtcPk :: bytes

record UnbondingTxData =
  pb_UnbondingTransaction :: bytes
  pb_UnbondingTime :: "32 word"
  pb_CovenantSignatures :: "CovenantSig list"
  pb_UnbondingTxBtcConfirmationInfo :: "BTCConfirmationInfo option"

record TrackedTransaction =
  pb_TrackedTransactionIdx :: "64 word"
  pb_StakingTransaction :: bytes
  pb_StakingOutputIdx :: "32 word"
  pb_StakerAddress :: string
  pb_StakingTime :: "32 word"
  pb_StakingTxBtcConfirmationInfo :: "BTCConfirmationInfo option"
  pb_UnbondingTxData :: "UnbondingTxData option"
  pb_BabylonBTCDelegationTxHash :: string

text \<open>
  The functions of other packages that the store calls: the Bitcoin wire codec and the
  transaction hash (btcd \<open>wire\<close>, through \<open>utils.SerializeBtcTransaction\<close>), the Schnorr
  signature and x-only public key codecs (btcd \<open>schnorr\<close>), and the protobuf codec of the
  tracked-transaction message. Their code is not part of the store; they are parameters
  of the model. \<open>'sg\<close> is \<open>schnorr.Signature\<close>, \<open>'pk\<close> is \<open>btcec.PublicKey\<close>, and \<open>'m\<close>
  is the marshalled form of a message as it sits in the transactions bucket.
\<close>

record ('sg, 'pk, 'm) externals =
  SerializeBtcTransaction :: "MsgTx \<Rightarrow> error + bytes"
  Deserialize :: "bytes \<Rightarrow> error + MsgTx"
  TxHash :: "MsgTx \<Rightarrow> chainhash"
  Signature_Serialize :: "'sg \<Rightarrow> bytes"
  schnorr_SerializePubKey :: "'pk \<Rightarrow> bytes"
  schnorr_ParseSignature :: "bytes \<Rightarrow> error + 'sg"
  schnorr_ParsePubKey :: "bytes \<Rightarrow> error + 'pk"
  pm_Marshal :: "TrackedTransaction \<Rightarrow> error + 'm"
  pm_Unmarshal :: "'m \<Rightarrow> error + TrackedTransaction"

section \<open>The in-memory records\<close>

record ('sg, 'pk) PubKeySigPair =
  Signature :: 'sg
  PubKey :: 'pk

record BtcConfirmationInfo =
  Height :: "32 word"
  BlockHash :: chainhash

record ('sg, 'pk) UnbondingStoreData =
  UnbondingTx :: MsgTx
  UnbondingTime :: "16 word"
  CovenantSignatures :: "('sg, 'pk) PubKeySigPair list"
  UnbondingTxConfirmationInfo :: "BtcConfirmationInfo option"

record ('sg, 'pk) StoredTransaction =
  StoredTransactionIdx :: "64 word"
  StakingTx :: MsgTx
  StakingOutputIndex :: "32 word"
  StakingTxConfirmationInfo :: "BtcConfirmationInfo option"
  StakingTime :: "16 word"
  StakerAddress :: string
  UnbondingTxData :: "('sg, 'pk) UnbondingStoreData option"
  BabylonBTCDelegationTxHash :: string

definition StakingTxConfirmedOnBtc :: "('sg, 'pk) StoredTransaction \<Rightarrow> bool" where
  "StakingTxConfirmedOnBtc t = (StakingTxConfirmationInfo t \<noteq> None)"

definition UnbondingTxConfirmedOnBtc :: "('sg, 'pk) StoredTransaction \<Rightarrow> bool" where
  "UnbondingTxConfirmedOnBtc t =
     (case UnbondingTxData t of
        None \<Rightarrow> False
      | Some ud \<Rightarrow> UnbondingTxConfirmationInfo ud \<noteq> None)"

section \<open>Encoding and decoding of the records\<close>

definition covenantSigToProto ::
  "('sg, 'pk, 'm) externals \<Rightarrow> ('sg, 'pk) PubKeySigPair \<Rightarrow> CovenantSig" where
  "covenantSigToProto X c =
     \<lparr>pb_CovenantSig = Signature_Serialize X (Signature c),
      pb_CovenantSigBtcPk = schnorr_SerializePubKey X (PubKey c)\<rparr>"

definition covenantSigsToProto ::
  "('sg, 'pk, 'm) externals \<Rightarrow> ('sg, 'pk) PubKeySigPair list \<Rightarrow> CovenantSig list" where
  "covenantSigsToProto X c = map (covenantSigToProto X) c"

definition covenantSigFromProto ::
  "('sg, 'pk, 'm) externals \<Rightarrow> CovenantSig \<Rightarrow> error + ('sg, 'pk) PubKeySigPair" where
  "covenantSigFromProto X c =
     (case schnorr_ParseSignature X (pb_CovenantSig c) of
        Inl err \<Rightarrow> Inl err
      | Inr sg \<Rightarrow>
          (case schnorr_ParsePubKey X (pb_CovenantSigBtcPk c) of
             Inl err \<Rightarrow> Inl err
           | Inr pubKey \<Rightarrow> Inr \<lparr>Signature = sg, PubKey = pubKey\<rparr>))"

text \<open>
  \<open>math.MaxUint16\<close>, and the result of \<open>newInitialUnbondingTxData\<close>: an error when no
  unbonding transaction is given, otherwise the message with the serialized transaction,
  no covenant signature and no confirmation.
\<close>

definition MaxUint16 :: "32 word" where
  "MaxUint16 = 65535"

definition newInitialUnbondingTxData ::
  "('sg, 'pk, 'm) externals \<Rightarrow> MsgTx option \<Rightarrow> 16 word \<Rightarrow> error + UnbondingTxData" where
  "newInitialUnbondingTxData X unbondingTx unbondingTime =
     (case unbondingTx of
        None \<Rightarrow> Inl (Errorf ''cannot create unbonding tx data without unbonding tx'')
      | Some utx \<Rightarrow>
          (case SerializeBtcTransaction X utx of
             Inl err \<Rightarrow> Inl (Errorf_w ''cannot create unbonding tx data'' err)
           | Inr serializedTx \<Rightarrow>
               Inr \<lparr>pb_UnbondingTransaction = serializedTx,
                    pb_UnbondingTime = ucast unbondingTime,
                    pb_CovenantSignatures = [],
                    pb_UnbondingTxBtcConfirmationInfo = None\<rparr>))"

definition protoBtcConfirmationInfoToBtcConfirmationInfo ::
  "BTCConfirmationInfo option \<Rightarrow> error + BtcConfirmationInfo option" where
  "protoBtcConfirmationInfoToBtcConfirmationInfo ci =
     (case ci of
        None \<Rightarrow> Inr None
      | Some c \<Rightarrow>
          (case NewHash (pb_BlockHash c) of
             Inl err \<Rightarrow> Inl err
           | Inr h \<Rightarrow> Inr (Some \<lparr>Height = pb_BlockHeight c, BlockHash = h\<rparr>)))"

text \<open>The loop over the covenant signatures: the first one that does not parse ends it.\<close>

fun covenantSigsFromProto ::
  "('sg, 'pk, 'm) externals \<Rightarrow> CovenantSig list \<Rightarrow> error + ('sg, 'pk) PubKeySigPair list" where
  "covenantSigsFromProto X [] = Inr []"
| "covenantSigsFromProto X (sg # rest) =
     (case covenantSigFromProto X sg of
        Inl err \<Rightarrow> Inl err
      | Inr covenantSig \<Rightarrow>
          (case covenantSigsFromProto X rest of
             Inl err \<Rightarrow> Inl err
           | Inr sigs \<Rightarrow> Inr (covenantSig # sigs)))"

definition protoUnbondingDataToUnbondingStoreData ::
  "('sg, 'pk, 'm) externals \<Rightarrow> UnbondingTxData \<Rightarrow> error + ('sg, 'pk) UnbondingStoreData" where
  "protoUnbondingDataToUnbondingStoreData X ud =
     (case Deserialize X (pb_UnbondingTransaction ud) of
        Inl err \<Rightarrow> Inl err
      | Inr unbondingTx \<Rightarrow>
          if pb_UnbondingTime ud > MaxUint16
          then Inl (Errorf ''unbonding time is too large. Max value is 65535'')
          else
            (case covenantSigsFromProto X (pb_CovenantSignatures ud) of
               Inl err \<Rightarrow> Inl err
             | Inr sigs \<Rightarrow>
                 (case protoBtcConfirmationInfoToBtcConfirmationInfo
                         (pb_UnbondingTxBtcConfirmationInfo ud) of
                    Inl err \<Rightarrow> Inl err
                  | Inr unbondingTxConfirmationInfo \<Rightarrow>
                      Inr \<lparr>UnbondingTx = unbondingTx,
                           UnbondingTime = ucast (pb_UnbondingTime ud),
                           CovenantSignatures = sigs,
                           UnbondingTxConfirmationInfo = unbondingTxConfirmationInfo\<rparr>)))"

definition protoTxToStoredTransaction ::
  "('sg, 'pk, 'm) externals \<Rightarrow> TrackedTransaction \<Rightarrow> error + ('sg, 'pk) StoredTransaction" where
  "protoTxToStoredTransaction X ttx =
     (case Deserialize X (pb_StakingTransaction ttx) of
        Inl err \<Rightarrow> Inl err
      | Inr stakingTx \<Rightarrow>
          (case (case pb_UnbondingTxData ttx of
                   None \<Rightarrow> Inr None
                 | Some ud \<Rightarrow>
                     (case protoUnbondingDataToUnbondingStoreData X ud of
                        Inl err \<Rightarrow> Inl err
                      | Inr unbondingData \<Rightarrow> Inr (Some unbondingData))) of
             Inl err \<Rightarrow> Inl err
           | Inr utd \<Rightarrow>
               (case protoBtcConfirmationInfoToBtcConfirmationInfo
                       (pb_StakingTxBtcConfirmationInfo ttx) of
                  Inl err \<Rightarrow> Inl err
                | Inr stakingTxConfgInfo \<Rightarrow>
                    if pb_StakingTime ttx > MaxUint16
                    then Inl (Errorf ''staking time is too large. Max value is 65535'')
                    else
                      Inr \<lparr>StoredTransactionIdx = pb_TrackedTransactionIdx ttx,
                           StakingTx = stakingTx,
                           StakingOutputIndex = pb_StakingOutputIdx ttx,
                           StakingTxConfirmationInfo = stakingTxConfgInfo,
                           StakingTime = ucast (pb_StakingTime ttx),
                           StakerAddress = pb_StakerAddress ttx,
                           UnbondingTxData = utd,
                           BabylonBTCDelegationTxHash = pb_BabylonBTCDelegationTxHash ttx\<rparr>)))"

section \<open>Keys\<close>

text \<open>\<open>binary.BigEndian.PutUint64\<close> into a fresh slice of 8 bytes.\<close>

definition uint64KeyToBytes :: "64 word \<Rightarrow> bytes" where
  "uint64KeyToBytes key =
     [ucast (drop_bit 56 key), ucast (drop_bit 48 key), ucast (drop_bit 40 key),
      ucast (drop_bit 32 key), ucast (drop_bit 24 key), ucast (drop_bit 16 key),
      ucast (drop_bit 8 key), ucast key]"

text \<open>
  \<open>binary.BigEndian.Uint64\<close>: reads the first 8 bytes, and panics (\<open>None\<close>) on a
  shorter slice.
\<close>

definition BigEndian_Uint64 :: "bytes \<Rightarrow> 64 word option" where
  "BigEndian_Uint64 b =
     (if length b < 8 then None
      else Some (ucast (b ! 7) OR push_bit 8 (ucast (b ! 6)) OR push_bit 16 (ucast (b ! 5)) OR
                 push_bit 24 (ucast (b ! 4)) OR push_bit 32 (ucast (b ! 3)) OR
                 push_bit 40 (ucast (b ! 2)) OR push_bit 48 (ucast (b ! 1)) OR
                 push_bit 56 (ucast (b ! 0))))"

text \<open>\<open>binary.Write\<close> of a \<open>uint32\<close> in big-endian order: 4 bytes.\<close>

definition BigEndian_uint32 :: "32 word \<Rightarrow> bytes" where
  "BigEndian_uint32 v =
     [ucast (drop_bit 24 v), ucast (drop_bit 16 v), ucast (drop_bit 8 v), ucast v]"

text \<open>
  The key of an outpoint in the inputs bucket: the 32 bytes of the hash, then the index.
  Writing to a \<open>bytes.Buffer\<close> does not fail, so the result is always \<open>Inr\<close>.
\<close>

definition outpointBytes :: "OutPoint \<Rightarrow> error + bytes" where
  "outpointBytes op = Inr (CloneBytes (Hash op) @ BigEndian_uint32 (Index op))"

text \<open>The key \<open>ntk\<close> of the counter in the index bucket.\<close>

definition numTxKey :: bytes where
  "numTxKey = [110, 116, 107]"

section \<open>The key-value backend\<close>

text \<open>
  A bucket holds its pairs in the byte order of the keys, which is the order a cursor
  walks them in. \<open>Put\<close> replaces the value of a key that exists and inserts a new key at
  its place; \<open>Get\<close> is \<open>None\<close> (nil) for a key that is not there. The store's keys are
  never empty and its writes go to a writable transaction, so \<open>Put\<close> does not fail.
\<close>

type_synonym 'v bucket = "(bytes \<times> 'v) list"

fun Put :: "'v bucket \<Rightarrow> bytes \<Rightarrow> 'v \<Rightarrow> 'v bucket" where
  "Put [] key v = [(key, v)]"
| "Put ((k, w) # kvs) key v =
     (if key < k then (key, v) # (k, w) # kvs
      else if key = k then (key, v) # kvs
      else (k, w) # Put kvs key v)"

definition Get :: "'v bucket \<Rightarrow> bytes \<Rightarrow> 'v option" where
  "Get b key = map_of b key"

text \<open>
  The database: the three top-level buckets, each \<open>None\<close> until it is created.
\<close>

record 'm backend =
  transactionBucket :: "'m bucket option"
  transactionIndex :: "bytes bucket option"
  inputsDataBucket :: "bytes bucket option"

definition CreateTopLevelBucket :: "'v bucket option \<Rightarrow> 'v bucket option" where
  "CreateTopLevelBucket b = (case b of None \<Rightarrow> Some [] | Some kvs \<Rightarrow> Some kvs)"

text \<open>
  \<open>kvdb.Batch\<close> runs the function in a read-write transaction: it commits what the
  function wrote when the function returns no error, and rolls everything back
  otherwise. \<open>View\<close> runs the function in a read-only transaction.
\<close>

definition Batch ::
  "'m backend \<Rightarrow> ('m backend \<Rightarrow> 'm backend \<times> error option) \<Rightarrow> 'm backend \<times> error option" where
  "Batch db f =
     (case f db of
        (tx, None) \<Rightarrow> (tx, None)
      | (tx, Some err) \<Rightarrow> (db, Some err))"

definition View :: "'m backend \<Rightarrow> ('m backend \<Rightarrow> 'r) \<Rightarrow> 'r" where
  "View db f = f db"

definition emptyBackend :: "'m backend" where
  "emptyBackend = \<lparr>transactionBucket = None, transactionIndex = None, inputsDataBucket = None\<rparr>"

definition initBuckets :: "'m backend \<Rightarrow> 'm backend \<times> error option" where
  "initBuckets db =
     Batch db (\<lambda>tx.
       (tx\<lparr>transactionBucket := CreateTopLevelBucket (transactionBucket tx),
           transactionIndex := CreateTopLevelBucket (transactionIndex tx),
           inputsDataBucket := CreateTopLevelBucket (inputsDataBucket tx)\<rparr>, None))"

definition NewTrackedTransactionStore :: "'m backend \<Rightarrow> 'm backend \<times> error option" where
  "NewTrackedTransactionStore db = initBuckets db"

section \<open>Insertion\<close>

definition nextTxKey :: "bytes bucket \<Rightarrow> error + 64 word" where
  "nextTxKey txIdxBucket =
     (case Get txIdxBucket numTxKey of
        None \<Rightarrow> Inr 1
      | Some numTxBytes \<Rightarrow>
          (case BigEndian_Uint64 numTxBytes of
             None \<Rightarrow> Inl (Panic ''index out of range'')
           | Some currKey \<Rightarrow> Inr currKey))"

definition getNumTx :: "bytes bucket \<Rightarrow> error + 64 word" where
  "getNumTx txIdxBucket =
     (case nextTxKey txIdxBucket of
        Inl err \<Rightarrow> Inl err
      | Inr k \<Rightarrow> Inr (k - 1))"

definition getTxByHash ::
  "bytes \<Rightarrow> bytes bucket \<Rightarrow> 'm bucket \<Rightarrow> error + ('m \<times> bytes)" where
  "getTxByHash txHashBytes txIndexBucket txBucket =
     (case Get txIndexBucket txHashBytes of
        None \<Rightarrow> Inl ErrTransactionNotFound
      | Some txKey \<Rightarrow>
          (case Get txBucket txKey of
             None \<Rightarrow> Inl ErrCorruptedTransactionsDB
           | Some maybeTx \<Rightarrow> Inr (maybeTx, txKey)))"

record inputData =
  inputs :: "bytes list"
  txHash :: bytes

text \<open>
  \<open>saveTrackedTransaction\<close> works on the open transaction \<open>rwTx\<close> and on the two buckets
  its caller has opened. It returns the transaction's state at the point it returns,
  with the error if there is one: the two writes that come before the check of the
  inputs bucket are part of that state.
\<close>

definition saveTrackedTransaction ::
  "('sg, 'pk, 'm) externals \<Rightarrow> 'm backend \<Rightarrow> bytes bucket \<Rightarrow> 'm bucket \<Rightarrow> bytes \<Rightarrow>
   TrackedTransaction option \<Rightarrow> inputData option \<Rightarrow> 'm backend \<times> error option" where
  "saveTrackedTransaction X rwTx txIdxBucket txBucket txHashBytes tx inpData =
     (case tx of
        None \<Rightarrow> (rwTx, Some (Errorf ''cannot save nil tracked transactions''))
      | Some tx0 \<Rightarrow>
          (case nextTxKey txIdxBucket of
             Inl err \<Rightarrow> (rwTx, Some err)
           | Inr nextKey \<Rightarrow>
               (case pm_Marshal X (tx0\<lparr>pb_TrackedTransactionIdx := nextKey\<rparr>) of
                  Inl err \<Rightarrow> (rwTx, Some err)
                | Inr marshalled \<Rightarrow>
                    let nextTxKeyBytes = uint64KeyToBytes nextKey;
                        txBucket1 = Put txBucket nextTxKeyBytes marshalled;
                        txIdxBucket1 = Put txIdxBucket txHashBytes nextTxKeyBytes;
                        rwTx1 = rwTx\<lparr>transactionBucket := Some txBucket1,
                                     transactionIndex := Some txIdxBucket1\<rparr>;
                        counter = Put txIdxBucket1 numTxKey (uint64KeyToBytes (nextKey + 1))
                    in
                      (case inpData of
                         None \<Rightarrow> (rwTx1\<lparr>transactionIndex := Some counter\<rparr>, None)
                       | Some ind \<Rightarrow>
                           (case inputsDataBucket rwTx1 of
                              None \<Rightarrow> (rwTx1, Some ErrCorruptedTransactionsDB)
                            | Some inputDataBucket \<Rightarrow>
                                (rwTx1\<lparr>inputsDataBucket :=
                                         Some (fold (\<lambda>input b. Put b input txHashBytes)
                                                 (inputs ind) inputDataBucket),
                                       transactionIndex := Some counter\<rparr>, None))))))"

definition addTransactionInternal ::
  "('sg, 'pk, 'm) externals \<Rightarrow> 'm backend \<Rightarrow> bytes \<Rightarrow> TrackedTransaction option \<Rightarrow>
   inputData option \<Rightarrow> 'm backend \<times> error option" where
  "addTransactionInternal X db txHashBytes tt inpData =
     Batch db (\<lambda>tx.
       case transactionIndex tx of
         None \<Rightarrow> (tx, Some ErrCorruptedTransactionsDB)
       | Some transactionsBucketIdxBucket \<Rightarrow>
           (case Get transactionsBucketIdxBucket txHashBytes of
              Some maybeTx \<Rightarrow> (tx, Some ErrDuplicateTransaction)
            | None \<Rightarrow>
                (case transactionBucket tx of
                   None \<Rightarrow> (tx, Some ErrCorruptedTransactionsDB)
                 | Some transactionsBucket \<Rightarrow>
                     saveTrackedTransaction X tx transactionsBucketIdxBucket
                       transactionsBucket txHashBytes tt inpData)))"

text \<open>The loop of \<open>getInputData\<close> over the inputs of the transaction.\<close>

fun outpointsBytes :: "TxIn list \<Rightarrow> error + bytes list" where
  "outpointsBytes [] = Inr []"
| "outpointsBytes (i # rest) =
     (case outpointBytes (PreviousOutPoint i) of
        Inl err \<Rightarrow> Inl err
      | Inr opBytes \<Rightarrow>
          (case outpointsBytes rest of
             Inl err \<Rightarrow> Inl err
           | Inr others \<Rightarrow> Inr (opBytes # others)))"

definition getInputData :: "('sg, 'pk, 'm) externals \<Rightarrow> MsgTx \<Rightarrow> error + inputData" where
  "getInputData X tx =
     (case outpointsBytes (TxIn tx) of
        Inl err \<Rightarrow> Inl err
      | Inr ins \<Rightarrow> Inr \<lparr>inputs = ins, txHash = CloneBytes (TxHash X tx)\<rparr>)"

text \<open>
  \<open>AddTransactionSentToBabylon\<close>. The staker address enters as the string that its
  \<open>EncodeAddress\<close> method returns; the unbonding transaction is a pointer that may be nil.
\<close>

definition AddTransactionSentToBabylon ::
  "('sg, 'pk, 'm) externals \<Rightarrow> 'm backend \<Rightarrow> MsgTx \<Rightarrow> 32 word \<Rightarrow> 16 word \<Rightarrow> string \<Rightarrow>
   MsgTx option \<Rightarrow> 16 word \<Rightarrow> string \<Rightarrow> 'm backend \<times> error option" where
  "AddTransactionSentToBabylon X db btcTx stakingOutputIndex stakingTime stakerAddress
       unbondingTx unbondingTime btcDelTxHash =
     (let txHashBytes = CloneBytes (TxHash X btcTx) in
      case SerializeBtcTransaction X btcTx of
        Inl err \<Rightarrow> (db, Some (Errorf_w ''failed to serialize Bitcoin transaction'' err))
      | Inr serializedTx \<Rightarrow>
          (case newInitialUnbondingTxData X unbondingTx unbondingTime of
             Inl err \<Rightarrow>
               (db, Some (Errorf_w ''failed to create unbonding transaction data'' err))
           | Inr update \<Rightarrow>
               let msg = \<lparr>pb_TrackedTransactionIdx = 0,
                          pb_StakingTransaction = serializedTx,
                          pb_StakingOutputIdx = stakingOutputIndex,
                          pb_StakerAddress = stakerAddress,
                          pb_StakingTime = ucast stakingTime,
                          pb_StakingTxBtcConfirmationInfo = None,
                          pb_UnbondingTxData = Some update,
                          pb_BabylonBTCDelegationTxHash = btcDelTxHash\<rparr>
               in
                 (case getInputData X btcTx of
                    Inl err \<Rightarrow> (db, Some (Errorf_w ''failed to get input data'' err))
                  | Inr ind \<Rightarrow>
                      addTransactionInternal X db txHashBytes (Some msg) (Some ind))))"

section \<open>State transitions\<close>

text \<open>
  \<open>setTxState\<close> reads the message of the transaction, applies the transition to it and
  writes it back under the same key, all in one \<open>Batch\<close>. A transition returns the
  changed message, or an error and then the message is not written.
\<close>

definition setTxState ::
  "('sg, 'pk, 'm) externals \<Rightarrow> 'm backend \<Rightarrow> chainhash \<Rightarrow>
   (TrackedTransaction \<Rightarrow> error + TrackedTransaction) \<Rightarrow> 'm backend \<times> error option" where
  "setTxState X db txHashArg stateTransitionFn =
     (let txHashBytes = CloneBytes txHashArg in
      Batch db (\<lambda>tx.
        case transactionIndex tx of
          None \<Rightarrow> (tx, Some ErrCorruptedTransactionsDB)
        | Some transactionIdxBucket \<Rightarrow>
            (case transactionBucket tx of
               None \<Rightarrow> (tx, Some ErrCorruptedTransactionsDB)
             | Some transactionsBucket \<Rightarrow>
                 (case getTxByHash txHashBytes transactionIdxBucket transactionsBucket of
                    Inl err \<Rightarrow> (tx, Some err)
                  | Inr (maybeTx, txKey) \<Rightarrow>
                      (case pm_Unmarshal X maybeTx of
                         Inl err \<Rightarrow> (tx, Some ErrCorruptedTransactionsDB)
                       | Inr storedTx \<Rightarrow>
                           (case stateTransitionFn storedTx of
                              Inl err \<Rightarrow> (tx, Some err)
                            | Inr storedTx1 \<Rightarrow>
                                (case pm_Marshal X storedTx1 of
                                   Inl err \<Rightarrow> (tx, Some err)
                                 | Inr marshalled \<Rightarrow>
                                     (tx\<lparr>transactionBucket :=
                                           Some (Put transactionsBucket txKey marshalled)\<rparr>,
                                      None))))))))"

definition setTxConfirmed ::
  "chainhash \<Rightarrow> 32 word \<Rightarrow> TrackedTransaction \<Rightarrow> error + TrackedTransaction" where
  "setTxConfirmed blockHash blockHeight tx =
     Inr (tx\<lparr>pb_StakingTxBtcConfirmationInfo :=
               Some \<lparr>pb_BlockHeight = blockHeight, pb_BlockHash = CloneBytes blockHash\<rparr>\<rparr>)"

definition SetTxConfirmed ::
  "('sg, 'pk, 'm) externals \<Rightarrow> 'm backend \<Rightarrow> chainhash \<Rightarrow> chainhash \<Rightarrow> 32 word \<Rightarrow>
   'm backend \<times> error option" where
  "SetTxConfirmed X db txHashArg blockHash blockHeight =
     setTxState X db txHashArg (setTxConfirmed blockHash blockHeight)"

definition setDelegationActiveOnBabylon ::
  "chainhash \<Rightarrow> 32 word \<Rightarrow> TrackedTransaction \<Rightarrow> error + TrackedTransaction" where
  "setDelegationActiveOnBabylon blockHash blockHeight tx =
     Inr (tx\<lparr>pb_StakingTxBtcConfirmationInfo :=
               Some \<lparr>pb_BlockHeight = blockHeight, pb_BlockHash = CloneBytes blockHash\<rparr>\<rparr>)"

definition SetDelegationActiveOnBabylonAndConfirmedOnBtc ::
  "('sg, 'pk, 'm) externals \<Rightarrow> 'm backend \<Rightarrow> chainhash \<Rightarrow> chainhash \<Rightarrow> 32 word \<Rightarrow>
   'm backend \<times> error option" where
  "SetDelegationActiveOnBabylonAndConfirmedOnBtc X db txHashArg blockHash blockHeight =
     setTxState X db txHashArg (setDelegationActiveOnBabylon blockHash blockHeight)"

definition setUnbondingSignaturesReceived ::
  "('sg, 'pk, 'm) externals \<Rightarrow> ('sg, 'pk) PubKeySigPair list \<Rightarrow> TrackedTransaction \<Rightarrow>
   error + TrackedTransaction" where
  "setUnbondingSignaturesReceived X covenantSignatures tx =
     (case pb_UnbondingTxData tx of
        None \<Rightarrow>
          Inl (Errorf_w
            ''cannot set unbonding signatures received, because unbonding tx data does not exist''
            ErrUnbondingDataNotFound)
      | Some ud \<Rightarrow>
          if length (pb_CovenantSignatures ud) > 0
          then
            Inl (Errorf_w
              ''cannot set unbonding signatures received, because unbonding signatures already exist''
              ErrInvalidUnbondingDataUpdate)
          else
            Inr (tx\<lparr>pb_UnbondingTxData :=
                      Some (ud\<lparr>pb_CovenantSignatures :=
                                 covenantSigsToProto X covenantSignatures\<rparr>)\<rparr>))"

definition SetTxUnbondingSignaturesReceived ::
  "('sg, 'pk, 'm) externals \<Rightarrow> 'm backend \<Rightarrow> chainhash \<Rightarrow> ('sg, 'pk) PubKeySigPair list \<Rightarrow>
   'm backend \<times> error option" where
  "SetTxUnbondingSignaturesReceived X db txHashArg covenantSignatures =
     setTxState X db txHashArg (setUnbondingSignaturesReceived X covenantSignatures)"

definition setUnbondingConfirmedOnBtc ::
  "chainhash \<Rightarrow> 32 word \<Rightarrow> TrackedTransaction \<Rightarrow> error + TrackedTransaction" where
  "setUnbondingConfirmedOnBtc blockHash blockHeight tx =
     (case pb_UnbondingTxData tx of
        None \<Rightarrow>
          Inl (Errorf_w
            ''cannot set unbonding confirmed on btc, because unbonding tx data does not exist''
            ErrUnbondingDataNotFound)
      | Some ud \<Rightarrow>
          Inr (tx\<lparr>pb_UnbondingTxData :=
                    Some (ud\<lparr>pb_UnbondingTxBtcConfirmationInfo :=
                               Some \<lparr>pb_BlockHeight = blockHeight,
                                     pb_BlockHash = CloneBytes blockHash\<rparr>\<rparr>)\<rparr>))"

definition SetTxUnbondingConfirmedOnBtc ::
  "('sg, 'pk, 'm) externals \<Rightarrow> 'm backend \<Rightarrow> chainhash \<Rightarrow> chainhash \<Rightarrow> 32 word \<Rightarrow>
   'm backend \<times> error option" where
  "SetTxUnbondingConfirmedOnBtc X db txHashArg blockHash blockHeight =
     setTxState X db txHashArg (setUnbondingConfirmedOnBtc blockHash blockHeight)"

section \<open>Reading\<close>

definition GetTransaction ::
  "('sg, 'pk, 'm) externals \<Rightarrow> 'm backend \<Rightarrow> chainhash \<Rightarrow> error + ('sg, 'pk) StoredTransaction" where
  "GetTransaction X db txHashArg =
     (let txHashBytes = CloneBytes txHashArg in
      View db (\<lambda>tx.
        case transactionIndex tx of
          None \<Rightarrow> Inl ErrCorruptedTransactionsDB
        | Some transactionIdxBucket \<Rightarrow>
            (case transactionBucket tx of
               None \<Rightarrow> Inl ErrCorruptedTransactionsDB
             | Some transactionsBucket \<Rightarrow>
                 (case getTxByHash txHashBytes transactionIdxBucket transactionsBucket of
                    Inl err \<Rightarrow> Inl err
                  | Inr (maybeTx, txKey) \<Rightarrow>
                      (case pm_Unmarshal X maybeTx of
                         Inl err \<Rightarrow> Inl ErrCorruptedTransactionsDB
                       | Inr storedTxProto \<Rightarrow>
                           (case protoTxToStoredTransaction X storedTxProto of
                              Inl err \<Rightarrow> Inl err
                            | Inr txFromDB \<Rightarrow> Inr txFromDB))))))"

definition OutpointUsed :: "'m backend \<Rightarrow> OutPoint \<Rightarrow> bool \<times> error option" where
  "OutpointUsed db op =
     View db (\<lambda>tx.
       case inputsDataBucket tx of
         None \<Rightarrow> (False, Some ErrCorruptedTransactionsDB)
       | Some inputsBucket \<Rightarrow>
           (case outpointBytes op of
              Inl err \<Rightarrow> (False, Some (Errorf_w ''invalid outpoint provided'' err))
            | Inr opBytes \<Rightarrow>
                (case Get inputsBucket opBytes of
                   Some res \<Rightarrow> (True, None)
                 | None \<Rightarrow> (False, None))))"

text \<open>
  \<open>ForEach\<close> walks the bucket in key order and stops at the first error. The visitor of
  \<open>ScanTrackedTransactions\<close> is a closure: its captured variables are the state \<open>'s\<close> it
  takes and returns.
\<close>

fun ForEach ::
  "'v bucket \<Rightarrow> ('s \<Rightarrow> bytes \<Rightarrow> 'v \<Rightarrow> 's \<times> error option) \<Rightarrow> 's \<Rightarrow> 's \<times> error option" where
  "ForEach [] f s = (s, None)"
| "ForEach ((k, v) # rest) f s =
     (case f s k v of
        (s1, Some err) \<Rightarrow> (s1, Some err)
      | (s1, None) \<Rightarrow> ForEach rest f s1)"

definition ScanTrackedTransactions ::
  "('sg, 'pk, 'm) externals \<Rightarrow> 'm backend \<Rightarrow>
   ('s \<Rightarrow> ('sg, 'pk) StoredTransaction \<Rightarrow> 's \<times> error option) \<Rightarrow> 's \<Rightarrow> 's \<times> error option" where
  "ScanTrackedTransactions X db scanFunc s0 =
     View db (\<lambda>tx.
       case transactionBucket tx of
         None \<Rightarrow> (s0, Some ErrCorruptedTransactionsDB)
       | Some transactionsBucket \<Rightarrow>
           ForEach transactionsBucket
             (\<lambda>s k v.
                case pm_Unmarshal X v of
                  Inl err \<Rightarrow> (s, Some ErrCorruptedTransactionsDB)
                | Inr storedTxProto \<Rightarrow>
                    (case protoTxToStoredTransaction X storedTxProto of
                       Inl err \<Rightarrow> (s, Some err)
                     | Inr txFromDB \<Rightarrow> scanFunc s txFromDB))
             s0)"

section \<open>Queries\<close>

record WithdrawableTransactionsFilter =
  currentBestBlockHeight :: "32 word"

record StoredTransactionQuery =
  IndexOffset :: "64 word"
  NumMaxTransactions :: "64 word"
  Reversed :: bool
  withdrawableTransactionsFilter :: "WithdrawableTransactionsFilter option"

definition DefaultStoredTransactionQuery :: StoredTransactionQuery where
  "DefaultStoredTransactionQuery =
     \<lparr>IndexOffset = 0, NumMaxTransactions = 50, Reversed = False,
      withdrawableTransactionsFilter = None\<rparr>"

record ('sg, 'pk) StoredTransactionQueryResult =
  Transactions :: "('sg, 'pk) StoredTransaction list"
  Total :: "64 word"

text \<open>\<open>int64\<close> arithmetic on the zero-extended heights and the lock time.\<close>

definition isTimeLockExpired :: "32 word \<Rightarrow> 16 word \<Rightarrow> 32 word \<Rightarrow> bool" where
  "isTimeLockExpired confirmationBlockHeight lockTime currentBestBlock =
     (let nexBlockHeight = (ucast currentBestBlock :: 64 word) + 1;
          pastLock = nexBlockHeight - ucast confirmationBlockHeight - ucast lockTime
      in sint pastLock \<ge> 0)"

text \<open>
  The \<open>switch\<close> of the withdrawable filter: the confirmation height and the time lock the
  filter looks at, or \<open>None\<close> in the \<open>default\<close> case. The two inner \<open>None\<close> stand for a
  nil dereference, which the case conditions exclude.
\<close>

definition withdrawableReference :: "('sg, 'pk) StoredTransaction \<Rightarrow> (32 word \<times> 16 word) option" where
  "withdrawableReference txFromDB =
     (if StakingTxConfirmedOnBtc txFromDB \<and> \<not> UnbondingTxConfirmedOnBtc txFromDB then
        (case StakingTxConfirmationInfo txFromDB of
           Some ci \<Rightarrow> Some (Height ci, StakingTime txFromDB)
         | None \<Rightarrow> None)
      else if StakingTxConfirmedOnBtc txFromDB \<and> UnbondingTxConfirmedOnBtc txFromDB then
        (case UnbondingTxData txFromDB of
           Some ud \<Rightarrow>
             (case UnbondingTxConfirmationInfo ud of
                Some ci \<Rightarrow> Some (Height ci, UnbondingTime ud)
              | None \<Rightarrow> None)
         | None \<Rightarrow> None)
      else None)"

definition withdrawable :: "('sg, 'pk) StoredTransaction \<Rightarrow> 32 word \<Rightarrow> bool" where
  "withdrawable txFromDB bestHeight =
     (case withdrawableReference txFromDB of
        None \<Rightarrow> False
      | Some (confirmationHeight, scriptTimeLock) \<Rightarrow>
          isTimeLockExpired confirmationHeight scriptTimeLock bestHeight)"

text \<open>
  The closure \<open>accumulateTransactions\<close>: the response it appends to is its state; the
  boolean says whether the record was added.
\<close>

definition accumulateTransactions ::
  "('sg, 'pk, 'm) externals \<Rightarrow> StoredTransactionQuery \<Rightarrow> ('sg, 'pk) StoredTransactionQueryResult \<Rightarrow>
   'm \<Rightarrow> error + (bool \<times> ('sg, 'pk) StoredTransactionQueryResult)" where
  "accumulateTransactions X q resp transaction =
     (case pm_Unmarshal X transaction of
        Inl err \<Rightarrow> Inl err
      | Inr protoTx \<Rightarrow>
          (case protoTxToStoredTransaction X protoTx of
             Inl err \<Rightarrow> Inl err
           | Inr txFromDB \<Rightarrow>
               (case withdrawableTransactionsFilter q of
                  Some flt \<Rightarrow>
                    if withdrawable txFromDB (currentBestBlockHeight flt)
                    then Inr (True, resp\<lparr>Transactions := Transactions resp @ [txFromDB]\<rparr>)
                    else Inr (False, resp)
                | None \<Rightarrow>
                    Inr (True, resp\<lparr>Transactions := Transactions resp @ [txFromDB]\<rparr>))))"

text \<open>
  Modelled from the spec: the paginator (\<open>newPaginator\<close> and its \<open>query\<close> method), whose
  file is not among the sources. Section 4.3: forward, the scan begins at the
  (O+1)-th smallest key; reverse, at the O-th from the largest; it advances key by key,
  a record the callback does not add is skipped without consuming the budget L, and it
  stops when L records are added or the keys are exhausted.
\<close>

record 'v paginator =
  cursor :: "'v bucket"
  reversed :: bool
  indexOffset :: "64 word"
  totalItems :: "64 word"

definition newPaginator :: "'v bucket \<Rightarrow> bool \<Rightarrow> 64 word \<Rightarrow> 64 word \<Rightarrow> 'v paginator" where
  "newPaginator c rv offset n =
     \<lparr>cursor = c, reversed = rv, indexOffset = offset, totalItems = n\<rparr>"

definition cursorStart :: "'v paginator \<Rightarrow> 'v bucket" where
  "cursorStart p =
     (if reversed p then drop (unat (indexOffset p)) (rev (cursor p))
      else drop (unat (indexOffset p)) (cursor p))"

fun query_loop ::
  "nat \<Rightarrow> 'v bucket \<Rightarrow> ('s \<Rightarrow> bytes \<Rightarrow> 'v \<Rightarrow> error + (bool \<times> 's)) \<Rightarrow> 's \<Rightarrow> 's \<times> error option" where
  "query_loop budget [] fetchAndAppend s = (s, None)"
| "query_loop budget ((k, v) # rest) fetchAndAppend s =
     (if budget = 0 then (s, None)
      else
        (case fetchAndAppend s k v of
           Inl err \<Rightarrow> (s, Some err)
         | Inr (added, s1) \<Rightarrow>
             query_loop (if added then budget - 1 else budget) rest fetchAndAppend s1))"

definition paginator_query ::
  "'v paginator \<Rightarrow> ('s \<Rightarrow> bytes \<Rightarrow> 'v \<Rightarrow> error + (bool \<times> 's)) \<Rightarrow> 's \<Rightarrow> 's \<times> error option" where
  "paginator_query p fetchAndAppend s =
     query_loop (unat (totalItems p)) (cursorStart p) fetchAndAppend s"

text \<open>
  The loop that reverses the page in place: it swaps the elements at \<open>i\<close> and
  \<open>numTx - i - 1\<close> for \<open>i\<close> below \<open>numTx / 2\<close>.
\<close>

function reverse_loop :: "nat \<Rightarrow> nat \<Rightarrow> 'a list \<Rightarrow> 'a list" where
  "reverse_loop i numTx txs =
     (if i < numTx div 2
      then reverse_loop (i + 1) numTx
             (txs[i := txs ! (numTx - i - 1), numTx - i - 1 := txs ! i])
      else txs)"
  by pat_completeness auto
termination
  by (relation "measure (\<lambda>(i, numTx, txs). numTx div 2 - i)") auto

declare reverse_loop.simps [simp del]

definition QueryStoredTransactions ::
  "('sg, 'pk, 'm) externals \<Rightarrow> 'm backend \<Rightarrow> StoredTransactionQuery \<Rightarrow>
   ('sg, 'pk) StoredTransactionQueryResult \<times> error option" where
  "QueryStoredTransactions X db q =
     (let resp0 = \<lparr>Transactions = [], Total = 0\<rparr> in
      View db (\<lambda>tx.
        case transactionBucket tx of
          None \<Rightarrow> (resp0, Some ErrCorruptedTransactionsDB)
        | Some transactionsBucket \<Rightarrow>
            (case transactionIndex tx of
               None \<Rightarrow> (resp0, Some ErrCorruptedTransactionsDB)
             | Some transactionIdxBucket \<Rightarrow>
                 (case getNumTx transactionIdxBucket of
                    Inl err \<Rightarrow> (resp0, Some err)
                  | Inr numTransactions \<Rightarrow>
                      if numTransactions = 0 then (resp0, None)
                      else
                        (case paginator_query
                                (newPaginator transactionsBucket (Reversed q) (IndexOffset q)
                                   (NumMaxTransactions q))
                                (\<lambda>resp k v. accumulateTransactions X q resp v)
                                (resp0\<lparr>Total := numTransactions\<rparr>) of
                           (resp, Some err) \<Rightarrow> (resp, Some err)
                         | (resp, None) \<Rightarrow>
                             if Reversed q
                             then (resp\<lparr>Transactions :=
                                          reverse_loop 0 (length (Transactions resp))
                                            (Transactions resp)\<rparr>, None)
                             else (resp, None))))))"

definition GetAllStoredTransactions ::
  "('sg, 'pk, 'm) externals \<Rightarrow> 'm backend \<Rightarrow> error + ('sg, 'pk) StoredTransaction list" where
  "GetAllStoredTransactions X db =
     (case QueryStoredTransactions X db
             (DefaultStoredTransactionQuery\<lparr>NumMaxTransactions := - 1\<rparr>) of
        (resp, Some err) \<Rightarrow> Inl err
      | (resp, None) \<Rightarrow> Inr (Transactions resp))"

section \<open>The encoder of a record\<close>

text \<open>
  Modelled from the spec: the encoder of a stored record, which is not among the
  sources (they build a message only at insertion and change it in the transitions).
  Section 4.2: the embedded transactions are their wire bytes, the staking and unbonding
  times are widened to 32 bits, an optional sub-record is present in the message exactly
  when it is present in the record, and a signature pair is the 64-byte signature with
  the 32-byte x-only key. The covenant signatures go through the source's
  \<open>covenantSigsToProto\<close>, and a confirmation is written as the transitions write it.
\<close>

definition btcConfirmationInfoToProto :: "BtcConfirmationInfo \<Rightarrow> BTCConfirmationInfo" where
  "btcConfirmationInfoToProto ci =
     \<lparr>pb_BlockHeight = Height ci, pb_BlockHash = CloneBytes (BlockHash ci)\<rparr>"

definition unbondingStoreDataToProto ::
  "('sg, 'pk, 'm) externals \<Rightarrow> ('sg, 'pk) UnbondingStoreData \<Rightarrow> error + UnbondingTxData" where
  "unbondingStoreDataToProto X ud =
     (case SerializeBtcTransaction X (UnbondingTx ud) of
        Inl err \<Rightarrow> Inl err
      | Inr serializedTx \<Rightarrow>
          Inr \<lparr>pb_UnbondingTransaction = serializedTx,
               pb_UnbondingTime = ucast (UnbondingTime ud),
               pb_CovenantSignatures = covenantSigsToProto X (CovenantSignatures ud),
               pb_UnbondingTxBtcConfirmationInfo =
                 map_option btcConfirmationInfoToProto (UnbondingTxConfirmationInfo ud)\<rparr>)"

definition storedTransactionToProto ::
  "('sg, 'pk, 'm) externals \<Rightarrow> ('sg, 'pk) StoredTransaction \<Rightarrow> error + TrackedTransaction" where
  "storedTransactionToProto X t =
     (case SerializeBtcTransaction X (StakingTx t) of
        Inl err \<Rightarrow> Inl err
      | Inr serializedTx \<Rightarrow>
          (case (case UnbondingTxData t of
                   None \<Rightarrow> Inr None
                 | Some ud \<Rightarrow>
                     (case unbondingStoreDataToProto X ud of
                        Inl err \<Rightarrow> Inl err
                      | Inr u \<Rightarrow> Inr (Some u))) of
             Inl err \<Rightarrow> Inl err
           | Inr utd \<Rightarrow>
               Inr \<lparr>pb_TrackedTransactionIdx = StoredTransactionIdx t,
                    pb_StakingTransaction = serializedTx,
                    pb_StakingOutputIdx = StakingOutputIndex t,
                    pb_StakerAddress = StakerAddress t,
                    pb_StakingTime = ucast (StakingTime t),
                    pb_StakingTxBtcConfirmationInfo =
                      map_option btcConfirmationInfoToProto (StakingTxConfirmationInfo t),
                    pb_UnbondingTxData = utd,
                    pb_BabylonBTCDelegationTxHash = BabylonBTCDelegationTxHash t\<rparr>))"

text \<open>The two directions on the stored form: encode and marshal, unmarshal and decode.\<close>

definition encodeRecord ::
  "('sg, 'pk, 'm) externals \<Rightarrow> ('sg, 'pk) StoredTransaction \<Rightarrow> error + 'm" where
  "encodeRecord X t =
     (case storedTransactionToProto X t of Inl err \<Rightarrow> Inl err | Inr p \<Rightarrow> pm_Marshal X p)"

definition decodeRecord ::
  "('sg, 'pk, 'm) externals \<Rightarrow> 'm \<Rightarrow> error + ('sg, 'pk) StoredTransaction" where
  "decodeRecord X m =
     (case pm_Unmarshal X m of
        Inl err \<Rightarrow> Inl err
      | Inr p \<Rightarrow> protoTxToStoredTransaction X p)"

section \<open>Sequences of calls\<close>

text \<open>The store right after \<open>NewTrackedTransactionStore\<close> on a database with no bucket.\<close>

definition newStore :: "'m backend" where
  "newStore = fst (NewTrackedTransactionStore emptyBackend)"

text \<open>
  The arguments of one \<open>AddTransactionSentToBabylon\<close>, and a run of insertions that
  stops at the first one that fails.
\<close>

record insertArgs =
  arg_btcTx :: MsgTx
  arg_stakingOutputIndex :: "32 word"
  arg_stakingTime :: "16 word"
  arg_stakerAddress :: string
  arg_unbondingTx :: "MsgTx option"
  arg_unbondingTime :: "16 word"
  arg_btcDelTxHash :: string

definition insertTx ::
  "('sg, 'pk, 'm) externals \<Rightarrow> 'm backend \<Rightarrow> insertArgs \<Rightarrow> 'm backend \<times> error option" where
  "insertTx X db a =
     AddTransactionSentToBabylon X db (arg_btcTx a) (arg_stakingOutputIndex a)
       (arg_stakingTime a) (arg_stakerAddress a) (arg_unbondingTx a) (arg_unbondingTime a)
       (arg_btcDelTxHash a)"

fun insertAll ::
  "('sg, 'pk, 'm) externals \<Rightarrow> 'm backend \<Rightarrow> insertArgs list \<Rightarrow> 'm backend \<times> error option" where
  "insertAll X db [] = (db, None)"
| "insertAll X db (a # rest) =
     (case insertTx X db a of
        (db1, Some err) \<Rightarrow> (db1, Some err)
      | (db1, None) \<Rightarrow> insertAll X db1 rest)"

text \<open>The calls that write to the store, and the state after a sequence of them.\<close>

datatype ('sg, 'pk) storeCall =
    CallInsert insertArgs
  | CallSetTxConfirmed chainhash chainhash "32 word"
  | CallSetDelegationActive chainhash chainhash "32 word"
  | CallSetUnbondingSignatures chainhash "('sg, 'pk) PubKeySigPair list"
  | CallSetUnbondingConfirmed chainhash chainhash "32 word"

fun applyCall ::
  "('sg, 'pk, 'm) externals \<Rightarrow> 'm backend \<Rightarrow> ('sg, 'pk) storeCall \<Rightarrow> 'm backend \<times> error option" where
  "applyCall X db (CallInsert a) = insertTx X db a"
| "applyCall X db (CallSetTxConfirmed h bh ht) = SetTxConfirmed X db h bh ht"
| "applyCall X db (CallSetDelegationActive h bh ht) =
     SetDelegationActiveOnBabylonAndConfirmedOnBtc X db h bh ht"
| "applyCall X db (CallSetUnbondingSignatures h sigs) =
     SetTxUnbondingSignaturesReceived X db h sigs"
| "applyCall X db (CallSetUnbondingConfirmed h bh ht) = SetTxUnbondingConfirmedOnBtc X db h bh ht"

fun applyCalls ::
  "('sg, 'pk, 'm) externals \<Rightarrow> 'm backend \<Rightarrow> ('sg, 'pk) storeCall list \<Rightarrow> 'm backend" where
  "applyCalls X db [] = db"
| "applyCalls X db (c # rest) = applyCalls X (fst (applyCall X db c)) rest"

text \<open>The staking transactions whose insertion succeeded in a sequence of calls.\<close>

fun insertedTxs ::
  "('sg, 'pk, 'm) externals \<Rightarrow> 'm backend \<Rightarrow> ('sg, 'pk) storeCall list \<Rightarrow> MsgTx list" where
  "insertedTxs X db [] = []"
| "insertedTxs X db (CallInsert a # rest) =
     (case insertTx X db a of
        (db1, None) \<Rightarrow> arg_btcTx a # insertedTxs X db1 rest
      | (db1, Some err) \<Rightarrow> insertedTxs X db1 rest)"
| "insertedTxs X db (c # rest) = insertedTxs X (fst (applyCall X db c)) rest"

text \<open>The primary record under a key, and the key the hash index gives a hash.\<close>

definition primaryRecord :: "'m backend \<Rightarrow> bytes \<Rightarrow> 'm option" where
  "primaryRecord db key =
     (case transactionBucket db of None \<Rightarrow> None | Some b \<Rightarrow> Get b key)"

definition indexedKey :: "'m backend \<Rightarrow> chainhash \<Rightarrow> bytes option" where
  "indexedKey db h =
     (case transactionIndex db of None \<Rightarrow> None | Some b \<Rightarrow> Get b (CloneBytes h))"

text \<open>
  What a state transition on the hash \<open>h\<close> may change: nothing but the primary record
  under the key that the hash index gives \<open>h\<close>.
\<close>

definition unchangedExcept :: "'m backend \<Rightarrow> chainhash \<Rightarrow> 'm backend \<Rightarrow> bool" where
  "unchangedExcept db h db1 =
     (transactionIndex db1 = transactionIndex db
      \<and> inputsDataBucket db1 = inputsDataBucket db
      \<and> (\<forall>key. indexedKey db h \<noteq> Some key \<longrightarrow> primaryRecord db1 key = primaryRecord db key))"

text \<open>Two visitors for \<open>ScanTrackedTransactions\<close>: one counts, one collects.\<close>

definition countVisitor :: "nat \<Rightarrow> ('sg, 'pk) StoredTransaction \<Rightarrow> nat \<times> error option" where
  "countVisitor n t = (n + 1, None)"

definition collectVisitor ::
  "('sg, 'pk) StoredTransaction list \<Rightarrow> ('sg, 'pk) StoredTransaction \<Rightarrow>
   ('sg, 'pk) StoredTransaction list \<times> error option" where
  "collectVisitor acc t = (acc @ [t], None)"

text \<open>The bytes of an outpoint key, and the outpoints that a list of transactions spends.\<close>

definition outpointKey :: "OutPoint \<Rightarrow> bytes" where
  "outpointKey op = CloneBytes (Hash op) @ BigEndian_uint32 (Index op)"

definition spentOutpoints :: "MsgTx list \<Rightarrow> OutPoint set" where
  "spentOutpoints txs = (\<Union>tx \<in> set txs. PreviousOutPoint ` set (TxIn tx))"

text \<open>A query without filter, and the indices of the page that a query returns.\<close>

definition pageQuery :: "64 word \<Rightarrow> 64 word \<Rightarrow> bool \<Rightarrow> StoredTransactionQuery" where
  "pageQuery offset limit rv =
     \<lparr>IndexOffset = offset, NumMaxTransactions = limit, Reversed = rv,
      withdrawableTransactionsFilter = None\<rparr>"

definition pageIndices ::
  "('sg, 'pk, 'm) externals \<Rightarrow> 'm backend \<Rightarrow> StoredTransactionQuery \<Rightarrow> nat list \<times> error option" where
  "pageIndices X db q =
     (map (\<lambda>t. unat (StoredTransactionIdx t))
        (Transactions (fst (QueryStoredTransactions X db q))),
      snd (QueryStoredTransactions X db q))"

section \<open>What the external codecs are taken to do\<close>

text \<open>
  The wire codec reads back the transaction it wrote, and the protobuf codec the
  message it marshalled.
\<close>

definition wireReadsBack :: "('sg, 'pk, 'm) externals \<Rightarrow> MsgTx \<Rightarrow> bool" where
  "wireReadsBack X tx =
     (case SerializeBtcTransaction X tx of
        Inl err \<Rightarrow> True
      | Inr b \<Rightarrow> Deserialize X b = Inr tx)"

definition argsReadBack :: "('sg, 'pk, 'm) externals \<Rightarrow> insertArgs \<Rightarrow> bool" where
  "argsReadBack X a =
     (wireReadsBack X (arg_btcTx a)
      \<and> (case arg_unbondingTx a of None \<Rightarrow> True | Some utx \<Rightarrow> wireReadsBack X utx))"

definition marshalReadsBack :: "('sg, 'pk, 'm) externals \<Rightarrow> bool" where
  "marshalReadsBack X = (\<forall>p m. pm_Marshal X p = Inr m \<longrightarrow> pm_Unmarshal X m = Inr p)"

text \<open>
  A valid record: the external codecs read back its two transactions and each of its
  covenant signatures and keys.
\<close>

definition pairReadsBack :: "('sg, 'pk, 'm) externals \<Rightarrow> ('sg, 'pk) PubKeySigPair \<Rightarrow> bool" where
  "pairReadsBack X c =
     (schnorr_ParseSignature X (Signature_Serialize X (Signature c)) = Inr (Signature c)
      \<and> schnorr_ParsePubKey X (schnorr_SerializePubKey X (PubKey c)) = Inr (PubKey c))"

definition validRecord :: "('sg, 'pk, 'm) externals \<Rightarrow> ('sg, 'pk) StoredTransaction \<Rightarrow> bool" where
  "validRecord X t =
     (wireReadsBack X (StakingTx t)
      \<and> (case UnbondingTxData t of
            None \<Rightarrow> True
          | Some ud \<Rightarrow>
              wireReadsBack X (UnbondingTx ud)
              \<and> list_all (pairReadsBack X) (CovenantSignatures ud)))"

text \<open>The decoding of a bucket entry: unmarshalling, then \<open>protoTxToStoredTransaction\<close>.\<close>

definition decodesTo ::
  "('sg, 'pk, 'm) externals \<Rightarrow> bytes \<times> 'm \<Rightarrow> ('sg, 'pk) StoredTransaction \<Rightarrow> bool" where
  "decodesTo X kv t =
     (\<exists>p. pm_Unmarshal X (snd kv) = Inr p \<and> protoTxToStoredTransaction X p = Inr t)"

section \<open>Invariants of the store\<close>

text \<open>
  The message that \<open>AddTransactionSentToBabylon\<close> builds from its arguments and the two
  serialized transactions, with the index that \<open>saveTrackedTransaction\<close> puts in it.
\<close>

definition initialMessage :: "insertArgs \<Rightarrow> bytes \<Rightarrow> bytes \<Rightarrow> 64 word \<Rightarrow> TrackedTransaction" where
  "initialMessage a sb ub n =
     \<lparr>pb_TrackedTransactionIdx = n, pb_StakingTransaction = sb,
      pb_StakingOutputIdx = arg_stakingOutputIndex a, pb_StakerAddress = arg_stakerAddress a,
      pb_StakingTime = ucast (arg_stakingTime a), pb_StakingTxBtcConfirmationInfo = None,
      pb_UnbondingTxData =
        Some \<lparr>pb_UnbondingTransaction = ub, pb_UnbondingTime = ucast (arg_unbondingTime a),
              pb_CovenantSignatures = [], pb_UnbondingTxBtcConfirmationInfo = None\<rparr>,
      pb_BabylonBTCDelegationTxHash = arg_btcDelTxHash a\<rparr>"

text \<open>
  The shape of the store after the staking transactions \<open>hs\<close> were inserted, in this
  order, into a new store: the keys of the records are the indices from 1, the record
  under the index \<open>i\<close> decodes to a record with that index and the \<open>i\<close>-th transaction,
  the hash index maps the hash of each to its index, and the counter is one more than
  their number.
\<close>

definition storeShape ::
  "('sg, 'pk, 'm) externals \<Rightarrow> 'm backend \<Rightarrow> MsgTx list \<Rightarrow> ('sg, 'pk) StoredTransaction list \<Rightarrow> bool" where
  "storeShape X db hs ts =
     (\<exists>tb ib inb.
        transactionBucket db = Some tb \<and> transactionIndex db = Some ib
        \<and> inputsDataBucket db = Some inb
        \<and> nextTxKey ib = Inr (of_nat (length hs) + 1)
        \<and> map fst tb = map (\<lambda>i. uint64KeyToBytes (of_nat (Suc i))) [0..<length hs]
        \<and> list_all2 (decodesTo X) tb ts
        \<and> map StoredTransactionIdx ts = map (\<lambda>i. of_nat (Suc i)) [0..<length hs]
        \<and> map StakingTx ts = hs
        \<and> map (\<lambda>h. Get ib (CloneBytes (TxHash X h))) hs
            = map (\<lambda>i. Some (uint64KeyToBytes (of_nat (Suc i)))) [0..<length hs])"

text \<open>
  The record that the insertion of \<open>a\<close> stores when the counter is \<open>n\<close>: the key of \<open>n\<close>
  with the marshalled message that \<open>AddTransactionSentToBabylon\<close> builds and
  \<open>saveTrackedTransaction\<close> numbers; \<open>None\<close> where the insertion fails.
\<close>

definition insertedRecord ::
  "('sg, 'pk, 'm) externals \<Rightarrow> insertArgs \<Rightarrow> 64 word \<Rightarrow> (bytes \<times> 'm) option" where
  "insertedRecord X a n =
     (case SerializeBtcTransaction X (arg_btcTx a) of
        Inl err \<Rightarrow> None
      | Inr sb \<Rightarrow>
          (case arg_unbondingTx a of
             None \<Rightarrow> None
           | Some utx \<Rightarrow>
               (case SerializeBtcTransaction X utx of
                  Inl err \<Rightarrow> None
                | Inr ub \<Rightarrow>
                    (case pm_Marshal X (initialMessage a sb ub n) of
                       Inl err \<Rightarrow> None
                     | Inr m \<Rightarrow> Some (uint64KeyToBytes n, m)))))"

text \<open>
  What the insertions \<open>as\<close>, in this order, leave in a new store, whatever the codecs
  read back: the records are those of the insertions under the indices from 1, the hash
  index maps the hash of each to its index, and the counter is one more than their
  number.
\<close>

definition indexShape ::
  "('sg, 'pk, 'm) externals \<Rightarrow> 'm backend \<Rightarrow> insertArgs list \<Rightarrow> bool" where
  "indexShape X db as =
     (\<exists>tb ib inb.
        transactionBucket db = Some tb \<and> transactionIndex db = Some ib
        \<and> inputsDataBucket db = Some inb
        \<and> nextTxKey ib = Inr (of_nat (length as) + 1)
        \<and> map fst tb = map (\<lambda>i. uint64KeyToBytes (of_nat (Suc i))) [0..<length as]
        \<and> map Some tb = map (\<lambda>i. insertedRecord X (as ! i) (of_nat (Suc i))) [0..<length as]
        \<and> map (\<lambda>a. Get ib (CloneBytes (TxHash X (arg_btcTx a)))) as
            = map (\<lambda>i. Some (uint64KeyToBytes (of_nat (Suc i)))) [0..<length as])"

text \<open>
  The records of the transactions bucket are in the order of their keys, and the key
  of each is the encoding of the index that its message holds.
\<close>

definition recordsKeyed :: "('sg, 'pk, 'm) externals \<Rightarrow> 'm bucket \<Rightarrow> bool" where
  "recordsKeyed X tb =
     (\<forall>kv \<in> set tb. \<forall>p. pm_Unmarshal X (snd kv) = Inr p
        \<longrightarrow> fst kv = uint64KeyToBytes (pb_TrackedTransactionIdx p))"

definition storeOrdered :: "('sg, 'pk, 'm) externals \<Rightarrow> 'm backend \<Rightarrow> bool" where
  "storeOrdered X db =
     (case transactionBucket db of
        None \<Rightarrow> True
      | Some tb \<Rightarrow> sorted_wrt (<) (map fst tb) \<and> recordsKeyed X tb)"

text \<open>
  The digits of a number in base 256, most significant first, on \<open>n\<close> bytes: the
  big-endian encodings are instances, and the byte order of the keys compares them as
  numbers.
\<close>

fun be_digits :: "nat \<Rightarrow> nat \<Rightarrow> bytes" where
  "be_digits 0 x = []"
| "be_digits (Suc n) x = be_digits n (x div 256) @ [of_nat x]"

section \<open>An instance of the external functions\<close>

text \<open>
  Stand-ins for the libraries, used to evaluate the store on concrete inputs: a
  transaction is written as the low byte of its lock time and read back as a
  transaction with that lock time and no input, its hash has that byte first, keys and
  signatures are their own serializations, and a message is its own marshalled form.
\<close>

definition exampleTx :: "32 word \<Rightarrow> OutPoint list \<Rightarrow> MsgTx" where
  "exampleTx n ops =
     \<lparr>Version = 2,
      TxIn = map (\<lambda>op. \<lparr>PreviousOutPoint = op, SignatureScript = [], Witness = [],
                        Sequence = 0\<rparr>) ops,
      TxOut = [], LockTime = n\<rparr>"

definition exampleHash :: "byte \<Rightarrow> chainhash" where
  "exampleHash b = Abs_chainhash (b # replicate 31 0)"

definition exampleCodec :: "(bytes, bytes, TrackedTransaction) externals" where
  "exampleCodec =
     \<lparr>SerializeBtcTransaction = (\<lambda>tx. Inr [ucast (LockTime tx)]),
      Deserialize = (\<lambda>b. case b of
                           [x] \<Rightarrow> Inr (exampleTx (ucast x) [])
                         | _ \<Rightarrow> Inl (LibError ''unexpected EOF'')),
      TxHash = (\<lambda>tx. exampleHash (ucast (LockTime tx))),
      Signature_Serialize = (\<lambda>s. s),
      schnorr_SerializePubKey = (\<lambda>k. k),
      schnorr_ParseSignature =
        (\<lambda>b. if length b = 64 then Inr b else Inl (LibError ''malformed signature'')),
      schnorr_ParsePubKey =
        (\<lambda>b. if length b = 32 then Inr b else Inl (LibError ''malformed public key'')),
      pm_Marshal = Inr,
      pm_Unmarshal = Inr\<rparr>"

text \<open>
  A wire codec that writes a transaction and does not read it back. The insertion
  calls \<open>SerializeBtcTransaction\<close> and \<open>TxHash\<close> only, so it accepts a transaction that
  \<open>Deserialize\<close> rejects.
\<close>

definition unreadableCodec :: "(bytes, bytes, TrackedTransaction) externals" where
  "unreadableCodec =
     exampleCodec\<lparr>Deserialize := (\<lambda>b. Inl (LibError ''malformed transaction''))\<rparr>"

definition exampleArgs :: "32 word \<Rightarrow> insertArgs" where
  "exampleArgs n =
     \<lparr>arg_btcTx = exampleTx n [], arg_stakingOutputIndex = 0, arg_stakingTime = 100,
      arg_stakerAddress = ''addr'', arg_unbondingTx = Some (exampleTx (n + 100) []),
      arg_unbondingTime = 10, arg_btcDelTxHash = ''ref''\<rparr>"

text \<open>The message that the insertion of \<open>exampleArgs n\<close> stores under the index \<open>i\<close>.\<close>

definition exampleMessage :: "32 word \<Rightarrow> 64 word \<Rightarrow> TrackedTransaction" where
  "exampleMessage n i =
     \<lparr>pb_TrackedTransactionIdx = i, pb_StakingTransaction = [ucast n],
      pb_StakingOutputIdx = 0, pb_StakerAddress = ''addr'', pb_StakingTime = 100,
      pb_StakingTxBtcConfirmationInfo = None,
      pb_UnbondingTxData =
        Some \<lparr>pb_UnbondingTransaction = [ucast (n + 100)], pb_UnbondingTime = 10,
              pb_CovenantSignatures = [], pb_UnbondingTxBtcConfirmationInfo = None\<rparr>,
      pb_BabylonBTCDelegationTxHash = ''ref''\<rparr>"

definition exampleStore1 :: "TrackedTransaction backend" where
  "exampleStore1 = fst (insertTx exampleCodec newStore (exampleArgs 7))"

text \<open>The store after four insertions.\<close>

definition exampleStore4 :: "TrackedTransaction backend" where
  "exampleStore4 = fst (insertAll exampleCodec newStore (map exampleArgs [1, 2, 3, 4]))"

text \<open>A confirmed message and a query with the withdrawable filter, for the examples.\<close>

definition exampleConfirmed :: TrackedTransaction where
  "exampleConfirmed =
     (exampleMessage 7 1)\<lparr>pb_StakingTime := 10,
        pb_StakingTxBtcConfirmationInfo :=
          Some \<lparr>pb_BlockHeight = 100, pb_BlockHash = replicate 32 0\<rparr>\<rparr>"

definition withdrawableQuery :: "32 word \<Rightarrow> StoredTransactionQuery" where
  "withdrawableQuery best =
     DefaultStoredTransactionQuery
       \<lparr>withdrawableTransactionsFilter := Some \<lparr>currentBestBlockHeight = best\<rparr>\<rparr>"

text \<open>A covenant signature with its key, and a store whose record has no unbonding data.\<close>

definition examplePair :: "(bytes, bytes) PubKeySigPair" where
  "examplePair = \<lparr>Signature = replicate 64 1, PubKey = replicate 32 2\<rparr>"

definition exampleStoreNoUnbonding :: "TrackedTransaction backend" where
  "exampleStoreNoUnbonding =
     exampleStore1\<lparr>transactionBucket :=
       Some [([0, 0, 0, 0, 0, 0, 0, 1], (exampleMessage 7 1)\<lparr>pb_UnbondingTxData := None\<rparr>)]\<rparr>"

text \<open>An outpoint, and an insertion whose staking transaction spends the outpoint 0.\<close>

definition exampleOutPoint :: "32 word \<Rightarrow> OutPoint" where
  "exampleOutPoint i = \<lparr>Hash = exampleHash 9, Index = i\<rparr>"

definition exampleSpend :: insertArgs where
  "exampleSpend = (exampleArgs 5)\<lparr>arg_btcTx := exampleTx 5 [exampleOutPoint 0]\<rparr>"

text \<open>A record with every optional part present, and one with none.\<close>

definition exampleFull :: "(bytes, bytes) StoredTransaction" where
  "exampleFull =
     \<lparr>StoredTransactionIdx = 1, StakingTx = exampleTx 7 [], StakingOutputIndex = 0,
      StakingTxConfirmationInfo = Some \<lparr>Height = 100, BlockHash = exampleHash 3\<rparr>,
      StakingTime = 10, StakerAddress = ''addr'',
      UnbondingTxData =
        Some \<lparr>UnbondingTx = exampleTx 8 [], UnbondingTime = 5,
              CovenantSignatures = [examplePair],
              UnbondingTxConfirmationInfo = Some \<lparr>Height = 120, BlockHash = exampleHash 4\<rparr>\<rparr>,
      BabylonBTCDelegationTxHash = ''ref''\<rparr>"

definition exampleBare :: "(bytes, bytes) StoredTransaction" where
  "exampleBare =
     \<lparr>StoredTransactionIdx = 2, StakingTx = exampleTx 9 [], StakingOutputIndex = 1,
      StakingTxConfirmationInfo = None, StakingTime = 65535, StakerAddress = ''addr'',
      UnbondingTxData = None, BabylonBTCDelegationTxHash = ''ref''\<rparr>"

section \<open>Basic facts\<close>

lemma Get_Put: "Get (Put b k v) k' = (if k' = k then Some v else Get b k')"
  unfolding Get_def by (induction b k v rule: Put.induct) auto

lemma outpointsBytes_total:
  "outpointsBytes ins =
     Inr (map (\<lambda>i. CloneBytes (Hash (PreviousOutPoint i)) @
                    BigEndian_uint32 (Index (PreviousOutPoint i))) ins)"
  by (induction ins) (simp_all add: outpointBytes_def)

lemma newStore_eq:
  "(newStore :: 'm backend) =
     \<lparr>transactionBucket = Some [], transactionIndex = Some [], inputsDataBucket = Some []\<rparr>"
  by (simp add: newStore_def NewTrackedTransactionStore_def initBuckets_def Batch_def
      emptyBackend_def CreateTopLevelBucket_def)

lemma CloneBytes_exampleHash: "CloneBytes (exampleHash b) = b # replicate 31 0"
  by (simp add: CloneBytes_def exampleHash_def Abs_chainhash_inverse)

lemmas example_simps =
  insertTx_def exampleArgs_def AddTransactionSentToBabylon_def exampleCodec_def exampleTx_def
  newInitialUnbondingTxData_def getInputData_def outpointBytes_def addTransactionInternal_def
  Batch_def View_def Get_def saveTrackedTransaction_def nextTxKey_def numTxKey_def
  uint64KeyToBytes_def BigEndian_Uint64_def Let_def CloneBytes_exampleHash

lemmas decode_simps =
  protoTxToStoredTransaction_def protoUnbondingDataToUnbondingStoreData_def
  protoBtcConfirmationInfoToBtcConfirmationInfo_def MaxUint16_def

lemma exampleStore1_eq:
  "exampleStore1 =
     \<lparr>transactionBucket = Some [([0, 0, 0, 0, 0, 0, 0, 1], exampleMessage 7 1)],
      transactionIndex =
        Some [(7 # replicate 31 0, [0, 0, 0, 0, 0, 0, 0, 1]),
              ([110, 116, 107], [0, 0, 0, 0, 0, 0, 0, 2])],
      inputsDataBucket = Some []\<rparr>"
  by (simp add: exampleStore1_def newStore_eq example_simps exampleMessage_def)

lemma signed_take_bit_63_self:
  "- 9223372036854775808 \<le> k \<Longrightarrow> k < 9223372036854775808 \<Longrightarrow> signed_take_bit 63 k = (k :: int)"
  by (simp add: signed_take_bit_int_eq_self_iff)

lemma sint_ucast_32_64: "sint (ucast (x :: 32 word) :: 64 word) = uint x"
proof -
  have "uint x < 4294967296" using uint_lt2p [of x] by simp
  moreover have "0 \<le> uint x" by simp
  ultimately have "signed_take_bit 63 (uint x) = uint x"
    by (intro signed_take_bit_63_self) linarith+
  then show ?thesis
    by (simp add: sint_uint uint_up_ucast is_up)
qed

lemma sint_ucast_16_64: "sint (ucast (x :: 16 word) :: 64 word) = uint x"
proof -
  have "uint x < 65536" using uint_lt2p [of x] by simp
  moreover have "0 \<le> uint x" by simp
  ultimately have "signed_take_bit 63 (uint x) = uint x"
    by (intro signed_take_bit_63_self) linarith+
  then show ?thesis
    by (simp add: sint_uint uint_up_ucast is_up)
qed

lemma isTimeLockExpired_int:
  "isTimeLockExpired c l b = (uint b + 1 - uint c - uint l \<ge> 0)"
proof -
  have b: "0 \<le> uint b" "uint b < 4294967296" using uint_lt2p [of b] by simp_all
  have c: "0 \<le> uint c" "uint c < 4294967296" using uint_lt2p [of c] by simp_all
  have l: "0 \<le> uint l" "uint l < 65536" using uint_lt2p [of l] by simp_all
  have add: "sint (x + y) = signed_take_bit 63 (sint x + sint y)"
    and sub: "sint (x - y) = signed_take_bit 63 (sint x - sint y)" for x y :: "64 word"
    by (simp_all add: sint_word_ariths)
  have t1: "signed_take_bit 63 (uint b + 1) = uint b + 1"
    by (intro signed_take_bit_63_self) (use b in linarith)+
  have s1: "sint ((ucast b :: 64 word) + 1) = uint b + 1"
    by (subst add) (simp add: sint_ucast_32_64 t1)
  have t2: "signed_take_bit 63 (uint b + 1 - uint c) = uint b + 1 - uint c"
    by (intro signed_take_bit_63_self) (use b c in linarith)+
  have s2: "sint ((ucast b :: 64 word) + 1 - ucast c) = uint b + 1 - uint c"
    by (subst sub) (simp only: s1 sint_ucast_32_64 t2)
  have t3: "signed_take_bit 63 (uint b + 1 - uint c - uint l) = uint b + 1 - uint c - uint l"
    by (intro signed_take_bit_63_self) (use b c l in linarith)+
  have s3: "sint ((ucast b :: 64 word) + 1 - ucast c - ucast l) = uint b + 1 - uint c - uint l"
    by (subst sub) (simp only: s2 sint_ucast_16_64 t3)
  show ?thesis
    unfolding isTimeLockExpired_def Let_def s3 by simp
qed

lemma exampleStore4_eq:
  "exampleStore4 =
     \<lparr>transactionBucket =
        Some [([0, 0, 0, 0, 0, 0, 0, 1], exampleMessage 1 1),
              ([0, 0, 0, 0, 0, 0, 0, 2], exampleMessage 2 2),
              ([0, 0, 0, 0, 0, 0, 0, 3], exampleMessage 3 3),
              ([0, 0, 0, 0, 0, 0, 0, 4], exampleMessage 4 4)],
      transactionIndex =
        Some [(1 # replicate 31 0, [0, 0, 0, 0, 0, 0, 0, 1]),
              (2 # replicate 31 0, [0, 0, 0, 0, 0, 0, 0, 2]),
              (3 # replicate 31 0, [0, 0, 0, 0, 0, 0, 0, 3]),
              (4 # replicate 31 0, [0, 0, 0, 0, 0, 0, 0, 4]),
              ([110, 116, 107], [0, 0, 0, 0, 0, 0, 0, 5])],
      inputsDataBucket = Some []\<rparr>
   \<and> snd (insertAll exampleCodec newStore (map exampleArgs [1, 2, 3, 4])) = None"
  by (simp add: exampleStore4_def newStore_eq example_simps exampleMessage_def)

lemma unreadableStore4_eq:
  "insertAll unreadableCodec newStore (map exampleArgs [1, 2, 3, 4]) = (exampleStore4, None)"
  by (simp add: unreadableCodec_def exampleStore4_def newStore_eq example_simps
      exampleMessage_def)

lemma setTxState_frame:
  "unchangedExcept db h (fst (setTxState X db h fn))
   \<and> (snd (setTxState X db h fn) \<noteq> None \<longrightarrow> fst (setTxState X db h fn) = db)"
  by (auto simp: setTxState_def Batch_def Let_def unchangedExcept_def indexedKey_def
      primaryRecord_def getTxByHash_def Get_Put split: option.splits sum.splits prod.splits)


lemmas transition_simps =
  SetTxConfirmed_def SetDelegationActiveOnBabylonAndConfirmedOnBtc_def
  SetTxUnbondingSignaturesReceived_def SetTxUnbondingConfirmedOnBtc_def

subsection \<open>Big-endian keys\<close>

lemma byte_bit:
  "bit (push_bit s (ucast (ucast (drop_bit s k) :: byte)) :: 64 word) n
     \<longleftrightarrow> s \<le> n \<and> n < s + 8 \<and> n < 64 \<and> bit k n" for k :: "64 word"
  by (auto simp: bit_push_bit_iff bit_ucast_iff bit_drop_bit_eq dest: bit_imp_le_length)

lemma byte_bit0:
  "bit (ucast (ucast k :: byte) :: 64 word) n \<longleftrightarrow> n < 8 \<and> bit k n" for k :: "64 word"
  by (auto simp: bit_ucast_iff)

lemma BigEndian_Uint64_eight:
  "BigEndian_Uint64 [b0, b1, b2, b3, b4, b5, b6, b7] =
     Some (ucast b7 OR push_bit 8 (ucast b6) OR push_bit 16 (ucast b5) OR
           push_bit 24 (ucast b4) OR push_bit 32 (ucast b3) OR push_bit 40 (ucast b2) OR
           push_bit 48 (ucast b1) OR push_bit 56 (ucast b0))"
  by (simp add: BigEndian_Uint64_def)

lemma BigEndian_Uint64_uint64KeyToBytes: "BigEndian_Uint64 (uint64KeyToBytes k) = Some k"
proof -
  define w :: "64 word" where
    "w = ucast (ucast k :: byte) OR push_bit 8 (ucast (ucast (drop_bit 8 k) :: byte)) OR
        push_bit 16 (ucast (ucast (drop_bit 16 k) :: byte)) OR
        push_bit 24 (ucast (ucast (drop_bit 24 k) :: byte)) OR
        push_bit 32 (ucast (ucast (drop_bit 32 k) :: byte)) OR
        push_bit 40 (ucast (ucast (drop_bit 40 k) :: byte)) OR
        push_bit 48 (ucast (ucast (drop_bit 48 k) :: byte)) OR
        push_bit 56 (ucast (ucast (drop_bit 56 k) :: byte))"
  have "w = k"
  proof (rule bit_word_eqI)
    fix n assume n: "n < LENGTH(64)"
    have r: "n < 8 \<or> (8 \<le> n \<and> n < 16) \<or> (16 \<le> n \<and> n < 24) \<or> (24 \<le> n \<and> n < 32)
        \<or> (32 \<le> n \<and> n < 40) \<or> (40 \<le> n \<and> n < 48) \<or> (48 \<le> n \<and> n < 56)
        \<or> (56 \<le> n \<and> n < 64)"
      using n by simp linarith
    have "bit w n \<longleftrightarrow>
        (n < 8 \<and> bit k n) \<or> (8 \<le> n \<and> n < 8 + 8 \<and> n < 64 \<and> bit k n)
        \<or> (16 \<le> n \<and> n < 16 + 8 \<and> n < 64 \<and> bit k n)
        \<or> (24 \<le> n \<and> n < 24 + 8 \<and> n < 64 \<and> bit k n)
        \<or> (32 \<le> n \<and> n < 32 + 8 \<and> n < 64 \<and> bit k n)
        \<or> (40 \<le> n \<and> n < 40 + 8 \<and> n < 64 \<and> bit k n)
        \<or> (48 \<le> n \<and> n < 48 + 8 \<and> n < 64 \<and> bit k n)
        \<or> (56 \<le> n \<and> n < 56 + 8 \<and> n < 64 \<and> bit k n)"
      unfolding w_def bit_or_iff byte_bit byte_bit0 by (rule refl)
    also have "\<dots> \<longleftrightarrow> bit k n"
    proof (cases "bit k n")
      case True
      then show ?thesis using r by simp linarith
    next
      case False
      then show ?thesis by simp
    qed
    finally show "bit w n = bit k n" .
  qed
  then show ?thesis
    unfolding uint64KeyToBytes_def BigEndian_Uint64_eight w_def by (rule arg_cong)
qed

lemma uint64KeyToBytes_inj: "uint64KeyToBytes a = uint64KeyToBytes b \<longleftrightarrow> a = b"
proof
  assume "uint64KeyToBytes a = uint64KeyToBytes b"
  then have "BigEndian_Uint64 (uint64KeyToBytes a) = BigEndian_Uint64 (uint64KeyToBytes b)"
    by (rule arg_cong)
  then show "a = b" by (simp only: BigEndian_Uint64_uint64KeyToBytes option.inject)
qed (rule arg_cong)

lemma length_uint64KeyToBytes: "length (uint64KeyToBytes k) = 8"
  by (simp add: uint64KeyToBytes_def)

lemma length_be_digits: "length (be_digits n x) = n"
  by (induction n arbitrary: x) auto

lemma snoc_less_snoc: "xs < ys \<Longrightarrow> length xs = length ys \<Longrightarrow> xs @ [a] < ys @ [b]"
  for xs :: bytes
  unfolding list_less_def by (rule lexord_sufI) auto

lemma same_snoc_less: "a < b \<Longrightarrow> xs @ [a] < xs @ [b]" for xs :: bytes
  unfolding list_less_def by (rule lexord_append_leftI) simp

lemma byte_of_nat_less: "x mod 256 < y mod 256 \<Longrightarrow> (of_nat x :: byte) < of_nat y"
  by (simp add: word_less_nat_alt unat_of_nat)

lemma be_digits_mono:
  "x < 256 ^ n \<Longrightarrow> y < 256 ^ n \<Longrightarrow> x < y \<Longrightarrow> be_digits n x < be_digits n y"
proof (induction n arbitrary: x y)
  case 0
  then show ?case by simp
next
  case (Suc n)
  have dx: "x div 256 < 256 ^ n" and dy: "y div 256 < 256 ^ n"
    using Suc.prems by (simp_all add: less_mult_imp_div_less mult.commute)
  have le: "x div 256 \<le> y div 256"
    using Suc.prems(3) by (simp add: div_le_mono)
  show ?case
  proof (cases "x div 256 < y div 256")
    case True
    then have "be_digits n (x div 256) < be_digits n (y div 256)"
      using Suc.IH dx dy by blast
    then show ?thesis by (simp add: snoc_less_snoc length_be_digits)
  next
    case False
    then have e: "x div 256 = y div 256" using le by simp
    have "x = 256 * (x div 256) + x mod 256" "y = 256 * (y div 256) + y mod 256"
      by simp_all
    then have "x mod 256 < y mod 256" using Suc.prems(3) e by linarith
    then have "(of_nat x :: byte) < of_nat y" by (rule byte_of_nat_less)
    then show ?thesis using e by (simp add: same_snoc_less)
  qed
qed

lemma ucast_drop_bit_byte:
  "(ucast (drop_bit n k) :: byte) = of_nat (unat k div 2 ^ n)" for k :: "'a::len word"
proof -
  have a: "unat (drop_bit n k) = unat k div 2 ^ n"
    unfolding unat_drop_bit_eq by (simp only: drop_bit_eq_div)
  have "(ucast (drop_bit n k) :: byte) = of_nat (unat (drop_bit n k))"
    by (simp only: of_nat_unat)
  then show ?thesis by (simp only: a)
qed

lemma ucast_byte: "(ucast k :: byte) = of_nat (unat k)" for k :: "'a::len word"
  by (simp only: of_nat_unat)

lemma be_digits_8:
  "be_digits 8 x =
     [of_nat (x div 2 ^ 56), of_nat (x div 2 ^ 48), of_nat (x div 2 ^ 40),
      of_nat (x div 2 ^ 32), of_nat (x div 2 ^ 24), of_nat (x div 2 ^ 16),
      of_nat (x div 2 ^ 8), of_nat x]"
proof -
  have e: "(8::nat) = Suc (Suc (Suc (Suc (Suc (Suc (Suc (Suc 0)))))))" by simp
  have "be_digits (Suc (Suc (Suc (Suc (Suc (Suc (Suc (Suc 0)))))))) x =
     [of_nat (x div 2 ^ 56), of_nat (x div 2 ^ 48), of_nat (x div 2 ^ 40),
      of_nat (x div 2 ^ 32), of_nat (x div 2 ^ 24), of_nat (x div 2 ^ 16),
      of_nat (x div 2 ^ 8), of_nat x]"
    by (simp add: div_mult2_eq [symmetric])
  then show ?thesis by (simp only: e [symmetric])
qed

lemma be_digits_4:
  "be_digits 4 x =
     [of_nat (x div 2 ^ 24), of_nat (x div 2 ^ 16), of_nat (x div 2 ^ 8), of_nat x]"
proof -
  have e: "(4::nat) = Suc (Suc (Suc (Suc 0)))" by simp
  have "be_digits (Suc (Suc (Suc (Suc 0)))) x =
     [of_nat (x div 2 ^ 24), of_nat (x div 2 ^ 16), of_nat (x div 2 ^ 8), of_nat x]"
    by (simp add: div_mult2_eq [symmetric])
  then show ?thesis by (simp only: e [symmetric])
qed

lemma uint64KeyToBytes_be_digits: "uint64KeyToBytes k = be_digits 8 (unat k)"
proof -
  have "uint64KeyToBytes k =
     [of_nat (unat k div 2 ^ 56), of_nat (unat k div 2 ^ 48), of_nat (unat k div 2 ^ 40),
      of_nat (unat k div 2 ^ 32), of_nat (unat k div 2 ^ 24), of_nat (unat k div 2 ^ 16),
      of_nat (unat k div 2 ^ 8), ucast k]"
    unfolding uint64KeyToBytes_def ucast_drop_bit_byte by (rule refl)
  then show ?thesis
    unfolding be_digits_8 by (simp only: ucast_byte)
qed

lemma BigEndian_uint32_be_digits: "BigEndian_uint32 v = be_digits 4 (unat v)"
proof -
  have "BigEndian_uint32 v =
     [of_nat (unat v div 2 ^ 24), of_nat (unat v div 2 ^ 16), of_nat (unat v div 2 ^ 8),
      ucast v]"
    unfolding BigEndian_uint32_def ucast_drop_bit_byte by (rule refl)
  then show ?thesis
    unfolding be_digits_4 by (simp only: ucast_byte)
qed

lemma uint64KeyToBytes_mono: "a < b \<Longrightarrow> uint64KeyToBytes a < uint64KeyToBytes b"
proof -
  assume "a < b"
  then have "unat a < unat b" by (simp add: word_less_nat_alt)
  moreover have "unat a < 256 ^ 8" "unat b < 256 ^ 8"
    using unsigned_less [of a] unsigned_less [of b] by simp_all
  ultimately show ?thesis
    unfolding uint64KeyToBytes_be_digits by (rule be_digits_mono [rotated 2])
qed

lemma uint64KeyToBytes_less_iff: "uint64KeyToBytes a < uint64KeyToBytes b \<longleftrightarrow> a < b"
proof
  assume l: "uint64KeyToBytes a < uint64KeyToBytes b"
  show "a < b"
  proof (rule ccontr)
    assume "\<not> a < b"
    then have "b < a \<or> b = a" by auto
    then show False
      using l uint64KeyToBytes_mono [of b a] by (auto simp: less_le_not_le)
  qed
qed (rule uint64KeyToBytes_mono)

lemma BigEndian_uint32_inj: "BigEndian_uint32 a = BigEndian_uint32 b \<longleftrightarrow> a = b"
proof
  assume e: "BigEndian_uint32 a = BigEndian_uint32 b"
  have bnd: "unat a < 256 ^ 4" "unat b < 256 ^ 4"
    using unsigned_less [of a] unsigned_less [of b] by simp_all
  show "a = b"
  proof (rule ccontr)
    assume "a \<noteq> b"
    then have "unat a < unat b \<or> unat b < unat a"
      by (metis linorder_neqE_nat word_unat_eq_iff)
    then have "be_digits 4 (unat a) < be_digits 4 (unat b)
        \<or> be_digits 4 (unat b) < be_digits 4 (unat a)"
      using bnd be_digits_mono by blast
    then show False using e by (auto simp: BigEndian_uint32_be_digits)
  qed
qed (rule arg_cong)

subsection \<open>Hashes and outpoints\<close>

lemma length_CloneBytes: "length (CloneBytes h) = 32"
  using Rep_chainhash [of h] by (simp add: CloneBytes_def)

lemma CloneBytes_inj: "CloneBytes a = CloneBytes b \<longleftrightarrow> a = b"
  by (simp add: CloneBytes_def Rep_chainhash_inject)

lemma CloneBytes_neq_numTxKey: "CloneBytes h \<noteq> numTxKey"
  using length_CloneBytes [of h] by (auto simp: numTxKey_def)

lemma NewHash_CloneBytes: "NewHash (CloneBytes h) = Inr h"
  by (simp add: NewHash_def length_CloneBytes) (simp add: CloneBytes_def Rep_chainhash_inverse)

lemma length_BigEndian_uint32: "length (BigEndian_uint32 v) = 4"
  by (simp add: BigEndian_uint32_def)

lemma outpointBytes_inj:
  "outpointBytes a = outpointBytes b \<longleftrightarrow> a = b"
proof
  assume "outpointBytes a = outpointBytes b"
  then have "CloneBytes (Hash a) @ BigEndian_uint32 (Index a)
      = CloneBytes (Hash b) @ BigEndian_uint32 (Index b)"
    by (simp add: outpointBytes_def)
  then have "CloneBytes (Hash a) = CloneBytes (Hash b)"
    and "BigEndian_uint32 (Index a) = BigEndian_uint32 (Index b)"
    by (simp_all add: length_CloneBytes)
  then have "Hash a = Hash b" "Index a = Index b"
    by (simp_all add: CloneBytes_inj BigEndian_uint32_inj)
  then show "a = b" by simp
qed (rule arg_cong)

subsection \<open>The inputs bucket along a sequence of calls\<close>

lemma outpointKey_inj: "outpointKey a = outpointKey b \<longleftrightarrow> a = b"
  using outpointBytes_inj [of a b] by (simp add: outpointBytes_def outpointKey_def)

lemma Get_fold_Put:
  "Get (fold (\<lambda>input b. Put b input v) ks b) k = (if k \<in> set ks then Some v else Get b k)"
  by (induction ks arbitrary: b) (auto simp: Get_Put)

lemma insertTx_result:
  "(snd (insertTx X db a) \<noteq> None \<and> fst (insertTx X db a) = db)
   \<or> (snd (insertTx X db a) = None
      \<and> (\<exists>ib. inputsDataBucket db = Some ib
            \<and> inputsDataBucket (fst (insertTx X db a))
                = Some (fold (\<lambda>input b. Put b input (CloneBytes (TxHash X (arg_btcTx a))))
                          (map (\<lambda>i. outpointKey (PreviousOutPoint i)) (TxIn (arg_btcTx a))) ib)))"
  by (auto simp: insertTx_def AddTransactionSentToBabylon_def Let_def getInputData_def
      outpointsBytes_total outpointKey_def addTransactionInternal_def Batch_def
      saveTrackedTransaction_def split: sum.splits option.splits)

lemma transition_inputs:
  "inputsDataBucket (fst (setTxState X db h fn)) = inputsDataBucket db"
  using setTxState_frame [of db h X fn] by (simp add: unchangedExcept_def)

lemma applyCalls_inputs:
  "inputsDataBucket db = Some ib \<Longrightarrow>
   \<exists>ib1. inputsDataBucket (applyCalls X db cs) = Some ib1
     \<and> (\<forall>k. Get ib1 k \<noteq> None \<longleftrightarrow>
            Get ib k \<noteq> None \<or> k \<in> outpointKey ` spentOutpoints (insertedTxs X db cs))"
proof (induction cs arbitrary: db ib)
  case Nil
  then show ?case by (simp add: spentOutpoints_def)
next
  case (Cons c cs)
  show ?case
  proof (cases c)
    case (CallInsert a)
    consider (failed) "snd (insertTx X db a) \<noteq> None" "fst (insertTx X db a) = db"
      | (succeeded) "snd (insertTx X db a) = None"
          "inputsDataBucket (fst (insertTx X db a))
             = Some (fold (\<lambda>input b. Put b input (CloneBytes (TxHash X (arg_btcTx a))))
                       (map (\<lambda>i. outpointKey (PreviousOutPoint i)) (TxIn (arg_btcTx a))) ib)"
      using insertTx_result [of X db a] Cons.prems by auto
    then show ?thesis
    proof cases
      case failed
      then obtain e where e: "insertTx X db a = (db, Some e)"
        by (cases "insertTx X db a") auto
      show ?thesis
        using Cons.IH [OF Cons.prems] CallInsert e by simp
    next
      case succeeded
      then obtain db1 where d: "insertTx X db a = (db1, None)"
        by (cases "insertTx X db a") auto
      let ?ib = "fold (\<lambda>input b. Put b input (CloneBytes (TxHash X (arg_btcTx a))))
                       (map (\<lambda>i. outpointKey (PreviousOutPoint i)) (TxIn (arg_btcTx a))) ib"
      have i: "inputsDataBucket db1 = Some ?ib" using succeeded d by simp
      obtain ib1 where r: "inputsDataBucket (applyCalls X db1 cs) = Some ib1"
        and g: "\<forall>k. Get ib1 k \<noteq> None \<longleftrightarrow>
            Get ?ib k \<noteq> None \<or> k \<in> outpointKey ` spentOutpoints (insertedTxs X db1 cs)"
        using Cons.IH [OF i] by blast
      have s: "spentOutpoints (arg_btcTx a # txs)
          = PreviousOutPoint ` set (TxIn (arg_btcTx a)) \<union> spentOutpoints txs" for txs
        by (simp add: spentOutpoints_def)
      show ?thesis
        using r g CallInsert d by (auto simp: Get_fold_Put s)
    qed
  next
    case (CallSetTxConfirmed h bh ht)
    then show ?thesis
      using Cons.IH [of "fst (applyCall X db c)" ib] Cons.prems
      by (simp add: transition_simps transition_inputs)
  next
    case (CallSetDelegationActive h bh ht)
    then show ?thesis
      using Cons.IH [of "fst (applyCall X db c)" ib] Cons.prems
      by (simp add: transition_simps transition_inputs)
  next
    case (CallSetUnbondingSignatures h sigs)
    then show ?thesis
      using Cons.IH [of "fst (applyCall X db c)" ib] Cons.prems
      by (simp add: transition_simps transition_inputs)
  next
    case (CallSetUnbondingConfirmed h bh ht)
    then show ?thesis
      using Cons.IH [of "fst (applyCall X db c)" ib] Cons.prems
      by (simp add: transition_simps transition_inputs)
  qed
qed

lemma newStore_inputs: "inputsDataBucket newStore = Some []"
  by (simp add: newStore_eq)

lemma applyCalls_append: "applyCalls X db (cs @ cs1) = applyCalls X (applyCalls X db cs) cs1"
  by (induction cs arbitrary: db) simp_all

lemma OutpointUsed_Get:
  "inputsDataBucket db = Some ib \<Longrightarrow> OutpointUsed db op = (Get ib (outpointKey op) \<noteq> None, None)"
  by (auto simp: OutpointUsed_def View_def outpointBytes_def outpointKey_def split: option.splits)

subsection \<open>The shape of the store after insertions\<close>

lemma Put_append: "\<forall>k1 \<in> set (map fst b). k1 < k \<Longrightarrow> Put b k v = b @ [(k, v)]"
  by (induction b k v rule: Put.induct) (auto simp: less_le_not_le)

lemma ucast_16_32_le: "\<not> (ucast (x :: 16 word) :: 32 word) > MaxUint16"
proof -
  have "uint x < 65536" using uint_lt2p [of x] by simp
  then have "uint (ucast x :: 32 word) \<le> 65535"
    by (simp add: uint_up_ucast is_up)
  then show ?thesis
    by (simp add: MaxUint16_def word_less_def not_less)
qed

lemma ucast_16_32_16: "(ucast (ucast (x :: 16 word) :: 32 word) :: 16 word) = x"
  by (simp add: ucast_up_ucast_id is_up)

lemma decode_initialMessage:
  assumes "SerializeBtcTransaction X (arg_btcTx a) = Inr sb"
    and "arg_unbondingTx a = Some utx"
    and "SerializeBtcTransaction X utx = Inr ub"
    and "argsReadBack X a"
  shows "protoTxToStoredTransaction X (initialMessage a sb ub n) =
     Inr \<lparr>StoredTransactionIdx = n, StakingTx = arg_btcTx a,
          StakingOutputIndex = arg_stakingOutputIndex a, StakingTxConfirmationInfo = None,
          StakingTime = arg_stakingTime a, StakerAddress = arg_stakerAddress a,
          UnbondingTxData =
            Some \<lparr>UnbondingTx = utx, UnbondingTime = arg_unbondingTime a,
                  CovenantSignatures = [], UnbondingTxConfirmationInfo = None\<rparr>,
          BabylonBTCDelegationTxHash = arg_btcDelTxHash a\<rparr>"
  using assms
  by (simp add: initialMessage_def argsReadBack_def wireReadsBack_def
      protoTxToStoredTransaction_def protoUnbondingDataToUnbondingStoreData_def
      protoBtcConfirmationInfoToBtcConfirmationInfo_def ucast_16_32_le ucast_16_32_16)

lemma insertTx_success:
  assumes "insertTx X db a = (db1, None)"
  shows "\<exists>tb ib inb sb utx ub n m.
      transactionBucket db = Some tb \<and> transactionIndex db = Some ib
      \<and> inputsDataBucket db = Some inb
      \<and> Get ib (CloneBytes (TxHash X (arg_btcTx a))) = None
      \<and> SerializeBtcTransaction X (arg_btcTx a) = Inr sb
      \<and> arg_unbondingTx a = Some utx
      \<and> SerializeBtcTransaction X utx = Inr ub
      \<and> nextTxKey ib = Inr n
      \<and> pm_Marshal X (initialMessage a sb ub n) = Inr m
      \<and> transactionBucket db1 = Some (Put tb (uint64KeyToBytes n) m)
      \<and> transactionIndex db1
          = Some (Put (Put ib (CloneBytes (TxHash X (arg_btcTx a))) (uint64KeyToBytes n))
                    numTxKey (uint64KeyToBytes (n + 1)))
      \<and> inputsDataBucket db1 \<noteq> None"
  using assms
  by (auto simp: insertTx_def AddTransactionSentToBabylon_def Let_def getInputData_def
      outpointsBytes_total addTransactionInternal_def Batch_def newInitialUnbondingTxData_def
      saveTrackedTransaction_def initialMessage_def split: sum.splits option.splits)


lemma of_nat_less_64: "i < j \<Longrightarrow> j < 2 ^ 64 \<Longrightarrow> (of_nat i :: 64 word) < of_nat j"
proof -
  assume l: "i < j" and b: "j < 2 ^ 64"
  then have "i < 2 ^ 64" by simp
  then have "unat (of_nat i :: 64 word) = i" "unat (of_nat j :: 64 word) = j"
    using b by (simp_all add: unat_of_nat)
  then show ?thesis using l by (simp only: word_less_nat_alt)
qed

lemma indexKeys_less:
  assumes "Suc n < 2 ^ 64"
  shows "\<forall>k1 \<in> set (map (\<lambda>i. uint64KeyToBytes (of_nat (Suc i))) [0..<n]).
           k1 < uint64KeyToBytes (of_nat (Suc n))"
proof
  fix k1 assume "k1 \<in> set (map (\<lambda>i. uint64KeyToBytes (of_nat (Suc i))) [0..<n])"
  then obtain i where i: "i < n" and k1: "k1 = uint64KeyToBytes (of_nat (Suc i))"
    by auto
  have "Suc i < Suc n" using i by simp
  then show "k1 < uint64KeyToBytes (of_nat (Suc n))"
    unfolding k1 using assms by (intro uint64KeyToBytes_mono of_nat_less_64)
qed

lemma nextTxKey_after_Put:
  "nextTxKey (Put b numTxKey (uint64KeyToBytes k)) = Inr k"
  by (simp add: nextTxKey_def Get_Put BigEndian_Uint64_uint64KeyToBytes)

lemma insertTx_shape:
  assumes sh: "storeShape X db hs ts"
    and ins: "insertTx X db a = (db1, None)"
    and bound: "Suc (length hs) < 2 ^ 64"
    and mrb: "marshalReadsBack X"
    and arb: "argsReadBack X a"
  shows "\<exists>t. storeShape X db1 (hs @ [arg_btcTx a]) (ts @ [t])"
proof -
  let ?h = "CloneBytes (TxHash X (arg_btcTx a))"
  let ?n = "of_nat (Suc (length hs)) :: 64 word"
  obtain tb ib inb sb utx ub n m where
    tb: "transactionBucket db = Some tb" and ib: "transactionIndex db = Some ib"
    and inb: "inputsDataBucket db = Some inb"
    and fresh: "Get ib ?h = None"
    and sb: "SerializeBtcTransaction X (arg_btcTx a) = Inr sb"
    and utx: "arg_unbondingTx a = Some utx"
    and ub: "SerializeBtcTransaction X utx = Inr ub"
    and n: "nextTxKey ib = Inr n"
    and m: "pm_Marshal X (initialMessage a sb ub n) = Inr m"
    and tb1: "transactionBucket db1 = Some (Put tb (uint64KeyToBytes n) m)"
    and ib1: "transactionIndex db1
          = Some (Put (Put ib ?h (uint64KeyToBytes n)) numTxKey (uint64KeyToBytes (n + 1)))"
    and inb1: "inputsDataBucket db1 \<noteq> None"
    using insertTx_success [OF ins] by blast
  have shape: "nextTxKey ib = Inr (of_nat (length hs) + 1)"
    "map fst tb = map (\<lambda>i. uint64KeyToBytes (of_nat (Suc i))) [0..<length hs]"
    "list_all2 (decodesTo X) tb ts"
    "map StoredTransactionIdx ts = map (\<lambda>i. of_nat (Suc i)) [0..<length hs]"
    "map StakingTx ts = hs"
    "map (\<lambda>h. Get ib (CloneBytes (TxHash X h))) hs
       = map (\<lambda>i. Some (uint64KeyToBytes (of_nat (Suc i)))) [0..<length hs]"
    using sh tb ib inb by (auto simp: storeShape_def)
  have n_eq: "n = ?n" using n shape(1) by (simp add: add.commute)
  define t :: "('a, 'b) StoredTransaction" where
    "t = \<lparr>StoredTransactionIdx = n, StakingTx = arg_btcTx a,
          StakingOutputIndex = arg_stakingOutputIndex a, StakingTxConfirmationInfo = None,
          StakingTime = arg_stakingTime a, StakerAddress = arg_stakerAddress a,
          UnbondingTxData =
            Some \<lparr>UnbondingTx = utx, UnbondingTime = arg_unbondingTime a,
                  CovenantSignatures = [], UnbondingTxConfirmationInfo = None\<rparr>,
          BabylonBTCDelegationTxHash = arg_btcDelTxHash a\<rparr>"
  have dec: "decodesTo X (uint64KeyToBytes n, m) t"
    using mrb m decode_initialMessage [OF sb utx ub arb, of n]
    by (auto simp: decodesTo_def marshalReadsBack_def t_def)
  have put: "Put tb (uint64KeyToBytes n) m = tb @ [(uint64KeyToBytes n, m)]"
    using indexKeys_less [OF bound] shape(2) n_eq by (intro Put_append) simp
  have upt: "[0..<length (hs @ [arg_btcTx a])] = [0..<length hs] @ [length hs]"
    by simp
  have some: "\<forall>h \<in> set hs. Get ib (CloneBytes (TxHash X h)) \<noteq> None"
  proof
    fix h assume "h \<in> set hs"
    then have "Get ib (CloneBytes (TxHash X h))
        \<in> set (map (\<lambda>h. Get ib (CloneBytes (TxHash X h))) hs)"
      by simp
    then show "Get ib (CloneBytes (TxHash X h)) \<noteq> None"
      unfolding shape(6) by auto
  qed
  let ?ib1 = "Put (Put ib ?h (uint64KeyToBytes n)) numTxKey (uint64KeyToBytes (n + 1))"
  have old: "\<forall>h \<in> set hs. Get ?ib1 (CloneBytes (TxHash X h)) = Get ib (CloneBytes (TxHash X h))"
    using some fresh by (auto simp: Get_Put CloneBytes_neq_numTxKey)
  have new: "Get ?ib1 ?h = Some (uint64KeyToBytes ?n)"
    by (simp add: Get_Put CloneBytes_neq_numTxKey n_eq)
  have idx: "map (\<lambda>h. Get ?ib1 (CloneBytes (TxHash X h))) (hs @ [arg_btcTx a])
      = map (\<lambda>i. Some (uint64KeyToBytes (of_nat (Suc i)))) [0..<length (hs @ [arg_btcTx a])]"
  proof -
    have "map (\<lambda>h. Get ?ib1 (CloneBytes (TxHash X h))) hs
        = map (\<lambda>h. Get ib (CloneBytes (TxHash X h))) hs"
      by (rule map_cong [OF refl]) (use old in blast)
    then show ?thesis unfolding upt using new shape(6) by simp
  qed
  have cnt: "nextTxKey ?ib1 = Inr (of_nat (length (hs @ [arg_btcTx a])) + 1)"
    by (simp add: nextTxKey_after_Put n_eq)
  have keys: "map fst (tb @ [(uint64KeyToBytes n, m)])
      = map (\<lambda>i. uint64KeyToBytes (of_nat (Suc i))) [0..<length (hs @ [arg_btcTx a])]"
    unfolding upt using shape(2) n_eq by simp
  have all2: "list_all2 (decodesTo X) (tb @ [(uint64KeyToBytes n, m)]) (ts @ [t])"
    using shape(3) dec by (simp add: list_all2_appendI)
  have idxs: "map StoredTransactionIdx (ts @ [t])
      = map (\<lambda>i. of_nat (Suc i)) [0..<length (hs @ [arg_btcTx a])]"
    unfolding upt using shape(4) n_eq by (simp add: t_def)
  have stx: "map StakingTx (ts @ [t]) = hs @ [arg_btcTx a]"
    using shape(5) by (simp add: t_def)
  have "storeShape X db1 (hs @ [arg_btcTx a]) (ts @ [t])"
    unfolding storeShape_def
    using tb1 ib1 inb1 cnt keys all2 idxs stx idx unfolding put by auto
  then show ?thesis ..
qed


lemma newStore_shape: "storeShape X newStore [] []"
  by (simp add: storeShape_def newStore_eq nextTxKey_def Get_def)

lemma insertAll_shape:
  assumes "storeShape X db hs ts"
    and "insertAll X db args = (db1, None)"
    and "length hs + length args < 2 ^ 64"
    and "marshalReadsBack X"
    and "\<forall>a \<in> set args. argsReadBack X a"
  shows "\<exists>ts1. storeShape X db1 (hs @ map arg_btcTx args) (ts @ ts1)"
  using assms
proof (induction args arbitrary: db hs ts)
  case Nil
  then show ?case by (intro exI [of _ "[]"]) simp
next
  case (Cons a args)
  obtain d where d: "insertTx X db a = (d, None)" and rest: "insertAll X d args = (db1, None)"
    using Cons.prems(2) by (auto split: prod.splits option.splits)
  have b: "Suc (length hs) < 2 ^ 64" using Cons.prems(3) by simp
  obtain t where t: "storeShape X d (hs @ [arg_btcTx a]) (ts @ [t])"
    using insertTx_shape [OF Cons.prems(1) d b Cons.prems(4)] Cons.prems(5) by auto
  have "\<exists>ts1. storeShape X db1 ((hs @ [arg_btcTx a]) @ map arg_btcTx args) ((ts @ [t]) @ ts1)"
    using Cons.prems by (intro Cons.IH [OF t rest]) simp_all
  then show ?case by (metis append.assoc append_Cons append_Nil list.simps(9))
qed

lemma insertTx_indexShape:
  assumes sh: "indexShape X db as"
    and ins: "insertTx X db a = (db1, None)"
    and bound: "Suc (length as) < 2 ^ 64"
  shows "indexShape X db1 (as @ [a])"
proof -
  let ?h = "CloneBytes (TxHash X (arg_btcTx a))"
  let ?n = "of_nat (Suc (length as)) :: 64 word"
  obtain tb ib inb sb utx ub n m where
    tb: "transactionBucket db = Some tb" and ib: "transactionIndex db = Some ib"
    and inb: "inputsDataBucket db = Some inb"
    and fresh: "Get ib ?h = None"
    and sb: "SerializeBtcTransaction X (arg_btcTx a) = Inr sb"
    and utx: "arg_unbondingTx a = Some utx"
    and ub: "SerializeBtcTransaction X utx = Inr ub"
    and n: "nextTxKey ib = Inr n"
    and m: "pm_Marshal X (initialMessage a sb ub n) = Inr m"
    and tb1: "transactionBucket db1 = Some (Put tb (uint64KeyToBytes n) m)"
    and ib1: "transactionIndex db1
          = Some (Put (Put ib ?h (uint64KeyToBytes n)) numTxKey (uint64KeyToBytes (n + 1)))"
    and inb1: "inputsDataBucket db1 \<noteq> None"
    using insertTx_success [OF ins] by blast
  have shape: "nextTxKey ib = Inr (of_nat (length as) + 1)"
    "map fst tb = map (\<lambda>i. uint64KeyToBytes (of_nat (Suc i))) [0..<length as]"
    "map Some tb = map (\<lambda>i. insertedRecord X (as ! i) (of_nat (Suc i))) [0..<length as]"
    "map (\<lambda>a. Get ib (CloneBytes (TxHash X (arg_btcTx a)))) as
       = map (\<lambda>i. Some (uint64KeyToBytes (of_nat (Suc i)))) [0..<length as]"
    using sh tb ib inb by (auto simp: indexShape_def)
  have n_eq: "n = ?n" using n shape(1) by (simp add: add.commute)
  have rec: "insertedRecord X a ?n = Some (uint64KeyToBytes ?n, m)"
    using sb utx ub m by (simp add: insertedRecord_def n_eq)
  have put: "Put tb (uint64KeyToBytes n) m = tb @ [(uint64KeyToBytes n, m)]"
    using indexKeys_less [OF bound] shape(2) n_eq by (intro Put_append) simp
  have upt: "[0..<length (as @ [a])] = [0..<length as] @ [length as]"
    by simp
  have some: "\<forall>b \<in> set as. Get ib (CloneBytes (TxHash X (arg_btcTx b))) \<noteq> None"
  proof
    fix b assume "b \<in> set as"
    then have "Get ib (CloneBytes (TxHash X (arg_btcTx b)))
        \<in> set (map (\<lambda>a. Get ib (CloneBytes (TxHash X (arg_btcTx a)))) as)"
      by simp
    then show "Get ib (CloneBytes (TxHash X (arg_btcTx b))) \<noteq> None"
      unfolding shape(4) by auto
  qed
  let ?ib1 = "Put (Put ib ?h (uint64KeyToBytes n)) numTxKey (uint64KeyToBytes (n + 1))"
  have old: "\<forall>b \<in> set as. Get ?ib1 (CloneBytes (TxHash X (arg_btcTx b)))
      = Get ib (CloneBytes (TxHash X (arg_btcTx b)))"
    using some fresh by (auto simp: Get_Put CloneBytes_neq_numTxKey)
  have new: "Get ?ib1 ?h = Some (uint64KeyToBytes ?n)"
    by (simp add: Get_Put CloneBytes_neq_numTxKey n_eq)
  have idx: "map (\<lambda>a. Get ?ib1 (CloneBytes (TxHash X (arg_btcTx a)))) (as @ [a])
      = map (\<lambda>i. Some (uint64KeyToBytes (of_nat (Suc i)))) [0..<length (as @ [a])]"
  proof -
    have "map (\<lambda>a. Get ?ib1 (CloneBytes (TxHash X (arg_btcTx a)))) as
        = map (\<lambda>a. Get ib (CloneBytes (TxHash X (arg_btcTx a)))) as"
      by (rule map_cong [OF refl]) (use old in blast)
    then show ?thesis unfolding upt using new shape(4) by simp
  qed
  have cnt: "nextTxKey ?ib1 = Inr (of_nat (length (as @ [a])) + 1)"
    by (simp add: nextTxKey_after_Put n_eq)
  have keys: "map fst (tb @ [(uint64KeyToBytes n, m)])
      = map (\<lambda>i. uint64KeyToBytes (of_nat (Suc i))) [0..<length (as @ [a])]"
    unfolding upt using shape(2) n_eq by simp
  have recs: "map Some (tb @ [(uint64KeyToBytes n, m)])
      = map (\<lambda>i. insertedRecord X ((as @ [a]) ! i) (of_nat (Suc i))) [0..<length (as @ [a])]"
  proof -
    have "map (\<lambda>i. insertedRecord X ((as @ [a]) ! i) (of_nat (Suc i))) [0..<length as]
        = map (\<lambda>i. insertedRecord X (as ! i) (of_nat (Suc i))) [0..<length as]"
      by (rule map_cong [OF refl]) (simp add: nth_append)
    then show ?thesis unfolding upt using shape(3) rec n_eq by simp
  qed
  show ?thesis
    unfolding indexShape_def
    using tb1 ib1 inb1 cnt keys recs idx unfolding put by auto
qed

lemma newStore_indexShape: "indexShape X newStore []"
  by (simp add: indexShape_def newStore_eq nextTxKey_def Get_def)

lemma insertAll_indexShape:
  assumes "indexShape X db as"
    and "insertAll X db args = (db1, None)"
    and "length as + length args < 2 ^ 64"
  shows "indexShape X db1 (as @ args)"
  using assms
proof (induction args arbitrary: db as)
  case Nil
  then show ?case by simp
next
  case (Cons a args)
  obtain d where d: "insertTx X db a = (d, None)" and rest: "insertAll X d args = (db1, None)"
    using Cons.prems(2) by (auto split: prod.splits option.splits)
  have b: "Suc (length as) < 2 ^ 64" using Cons.prems(3) by simp
  have t: "indexShape X d (as @ [a])"
    by (rule insertTx_indexShape [OF Cons.prems(1) d b])
  have "indexShape X db1 ((as @ [a]) @ args)"
    using Cons.prems by (intro Cons.IH [OF t rest]) simp_all
  then show ?case by simp
qed

lemma ForEach_collect:
  "list_all2 (decodesTo X) tb ts \<Longrightarrow>
   ForEach tb
     (\<lambda>s k v. case pm_Unmarshal X v of
                 Inl err \<Rightarrow> (s, Some ErrCorruptedTransactionsDB)
               | Inr storedTxProto \<Rightarrow>
                   (case protoTxToStoredTransaction X storedTxProto of
                      Inl err \<Rightarrow> (s, Some err)
                    | Inr txFromDB \<Rightarrow> collectVisitor s txFromDB)) acc
     = (acc @ ts, None)"
proof (induction tb ts arbitrary: acc rule: list_all2_induct)
  case Nil
  then show ?case by simp
next
  case (Cons kv t tb ts)
  then show ?case
    by (cases kv) (auto simp: decodesTo_def collectVisitor_def)
qed

lemma ForEach_count:
  "list_all2 (decodesTo X) tb ts \<Longrightarrow>
   ForEach tb
     (\<lambda>s k v. case pm_Unmarshal X v of
                 Inl err \<Rightarrow> (s, Some ErrCorruptedTransactionsDB)
               | Inr storedTxProto \<Rightarrow>
                   (case protoTxToStoredTransaction X storedTxProto of
                      Inl err \<Rightarrow> (s, Some err)
                    | Inr txFromDB \<Rightarrow> countVisitor s txFromDB)) n
     = (n + length tb, None)"
proof (induction tb ts arbitrary: n rule: list_all2_induct)
  case Nil
  then show ?case by simp
next
  case (Cons kv t tb ts)
  then show ?case
    by (cases kv) (auto simp: decodesTo_def countVisitor_def)
qed

lemma unat_index_list:
  assumes "Suc n < 2 ^ 64"
  shows "map (\<lambda>i. unat (of_nat (Suc i) :: 64 word)) [0..<n] = [1..<Suc n]"
proof -
  have "map (\<lambda>i. unat (of_nat (Suc i) :: 64 word)) [0..<n] = map Suc [0..<n]"
  proof (rule map_cong [OF refl])
    fix i assume "i \<in> set [0..<n]"
    then have "Suc i < 2 ^ 64" using assms by simp
    then show "unat (of_nat (Suc i) :: 64 word) = Suc i"
      by (simp only: unat_of_nat len_of_numeral_defs) simp
  qed
  then show ?thesis by (simp add: map_Suc_upt)
qed

subsection \<open>The reversal loop\<close>

lemma reverse_loop_nth:
  "i \<le> n div 2 \<Longrightarrow> length xs = n \<Longrightarrow>
   length (reverse_loop i n xs) = n
   \<and> (\<forall>j<n. reverse_loop i n xs ! j
          = (if i \<le> j \<and> j < n - i then xs ! (n - 1 - j) else xs ! j))"
proof (induction i n xs rule: reverse_loop.induct)
  case (1 i numTx txs)
  show ?case
  proof (cases "i < numTx div 2")
    case True
    let ?txs = "txs[i := txs ! (numTx - i - 1), numTx - i - 1 := txs ! i]"
    have ih: "length (reverse_loop (i + 1) numTx ?txs) = numTx
        \<and> (\<forall>j<numTx. reverse_loop (i + 1) numTx ?txs ! j
              = (if i + 1 \<le> j \<and> j < numTx - (i + 1) then ?txs ! (numTx - 1 - j) else ?txs ! j))"
      using "1.IH" [OF True] True "1.prems" by simp
    have step: "reverse_loop i numTx txs = reverse_loop (i + 1) numTx ?txs"
      using True by (subst reverse_loop.simps) simp
    show ?thesis
      unfolding step using ih True "1.prems"
      by (auto simp: nth_list_update)
  next
    case False
    then have e: "i = numTx div 2" using "1.prems" by simp
    have stop: "reverse_loop i numTx txs = txs"
      using False by (subst reverse_loop.simps) simp
    have "\<forall>j<numTx. i \<le> j \<and> j < numTx - i \<longrightarrow> numTx - 1 - j = j"
      using e by auto
    then show ?thesis
      unfolding stop using "1.prems" by auto
  qed
qed

lemma reverse_loop_rev: "reverse_loop 0 (length xs) xs = rev xs"
proof (rule nth_equalityI)
  show "length (reverse_loop 0 (length xs) xs) = length (rev xs)"
    using reverse_loop_nth [of 0 "length xs" xs] by simp
next
  fix j assume "j < length (reverse_loop 0 (length xs) xs)"
  then have j: "j < length xs"
    using reverse_loop_nth [of 0 "length xs" xs] by simp
  then show "reverse_loop 0 (length xs) xs ! j = rev xs ! j"
    using reverse_loop_nth [of 0 "length xs" xs] by (simp add: rev_nth)
qed

subsection \<open>The order of the records along a sequence of calls\<close>

lemma set_Put: "set (Put b k v) \<subseteq> insert (k, v) (set b)"
  by (induction b k v rule: Put.induct) auto

lemma fst_set_Put: "fst ` set (Put b k v) = insert k (fst ` set b)"
  by (induction b k v rule: Put.induct) auto

lemma sorted_Put:
  "sorted_wrt (<) (map fst b) \<Longrightarrow> sorted_wrt (<) (map fst (Put b k v))"
proof (induction b k v rule: Put.induct)
  case (1 key v)
  then show ?case by simp
next
  case (2 k w kvs key v)
  show ?case
  proof (cases "key < k")
    case True
    then show ?thesis using 2 by auto
  next
    case False
    show ?thesis
    proof (cases "key = k")
      case True
      then show ?thesis using 2 by auto
    next
      case ne: False
      then have lt: "k < key" using False by simp
      have "sorted_wrt (<) (map fst (Put kvs key v))"
        using 2 False ne by simp
      moreover have "\<forall>x \<in> fst ` set (Put kvs key v). k < x"
        using 2(2) lt by (auto simp: fst_set_Put)
      ultimately show ?thesis using False ne by simp
    qed
  qed
qed

lemma recordsKeyed_Put:
  assumes "recordsKeyed X tb"
    and "\<forall>p. pm_Unmarshal X m = Inr p \<longrightarrow> k = uint64KeyToBytes (pb_TrackedTransactionIdx p)"
  shows "recordsKeyed X (Put tb k m)"
  using assms set_Put [of tb k m] unfolding recordsKeyed_def by fastforce

lemma storeOrdered_insertTx:
  assumes "storeOrdered X db" and "marshalReadsBack X"
  shows "storeOrdered X (fst (insertTx X db a))"
proof (cases "snd (insertTx X db a)")
  case (Some e)
  then show ?thesis using insertTx_result [of X db a] assms(1) by auto
next
  case None
  then obtain db1 where d: "insertTx X db a = (db1, None)"
    by (cases "insertTx X db a") auto
  obtain tb sb ub n m where tb: "transactionBucket db = Some tb"
    and m: "pm_Marshal X (initialMessage a sb ub n) = Inr m"
    and tb1: "transactionBucket db1 = Some (Put tb (uint64KeyToBytes n) m)"
    using insertTx_success [OF d] by blast
  have u: "pm_Unmarshal X m = Inr (initialMessage a sb ub n)"
    using m assms(2) by (auto simp: marshalReadsBack_def)
  have "recordsKeyed X (Put tb (uint64KeyToBytes n) m)"
    using assms(1) tb u
    by (intro recordsKeyed_Put) (auto simp: storeOrdered_def initialMessage_def)
  then show ?thesis
    using assms(1) tb tb1 d by (simp add: storeOrdered_def sorted_Put)
qed

lemma storeOrdered_setTxState:
  assumes "storeOrdered X db" and "marshalReadsBack X"
    and "\<And>p p1. fn p = Inr p1 \<Longrightarrow> pb_TrackedTransactionIdx p1 = pb_TrackedTransactionIdx p"
  shows "storeOrdered X (fst (setTxState X db h fn))"
proof (cases "snd (setTxState X db h fn)")
  case (Some e)
  then show ?thesis using setTxState_frame [of db h X fn] assms(1) by auto
next
  case None
  then obtain tb ib k m0 p0 p1 m1 where tb: "transactionBucket db = Some tb"
    and g: "Get tb k = Some m0" and u0: "pm_Unmarshal X m0 = Inr p0"
    and f: "fn p0 = Inr p1" and m1: "pm_Marshal X p1 = Inr m1"
    and r: "fst (setTxState X db h fn) = db\<lparr>transactionBucket := Some (Put tb k m1)\<rparr>"
    by (auto simp: setTxState_def Batch_def Let_def getTxByHash_def
        split: option.splits sum.splits prod.splits)
  have "(k, m0) \<in> set tb" using g by (simp add: Get_def map_of_SomeD)
  then have k: "k = uint64KeyToBytes (pb_TrackedTransactionIdx p0)"
    using assms(1) tb u0 by (auto simp: storeOrdered_def recordsKeyed_def)
  have u1: "pm_Unmarshal X m1 = Inr p1"
    using m1 assms(2) by (auto simp: marshalReadsBack_def)
  have "recordsKeyed X (Put tb k m1)"
    using assms(1) tb u1 k assms(3) [OF f]
    by (intro recordsKeyed_Put) (auto simp: storeOrdered_def)
  then show ?thesis
    using assms(1) tb r by (simp add: storeOrdered_def sorted_Put)
qed

lemma transitions_keep_index:
  "setTxConfirmed bh ht p = Inr p1 \<Longrightarrow> pb_TrackedTransactionIdx p1 = pb_TrackedTransactionIdx p"
  "setDelegationActiveOnBabylon bh ht p = Inr p1
     \<Longrightarrow> pb_TrackedTransactionIdx p1 = pb_TrackedTransactionIdx p"
  "setUnbondingSignaturesReceived X sigs p = Inr p1
     \<Longrightarrow> pb_TrackedTransactionIdx p1 = pb_TrackedTransactionIdx p"
  "setUnbondingConfirmedOnBtc bh ht p = Inr p1
     \<Longrightarrow> pb_TrackedTransactionIdx p1 = pb_TrackedTransactionIdx p"
  by (auto simp: setTxConfirmed_def setDelegationActiveOnBabylon_def
      setUnbondingSignaturesReceived_def setUnbondingConfirmedOnBtc_def
      split: option.splits if_splits)

lemma storeOrdered_applyCall:
  assumes "storeOrdered X db" and "marshalReadsBack X"
  shows "storeOrdered X (fst (applyCall X db c))"
proof (cases c)
  case (CallInsert a)
  then show ?thesis using storeOrdered_insertTx [OF assms] by simp
next
  case (CallSetTxConfirmed h bh ht)
  then show ?thesis
    using storeOrdered_setTxState [OF assms transitions_keep_index(1)]
    by (simp add: SetTxConfirmed_def)
next
  case (CallSetDelegationActive h bh ht)
  then show ?thesis
    using storeOrdered_setTxState [OF assms transitions_keep_index(2)]
    by (simp add: SetDelegationActiveOnBabylonAndConfirmedOnBtc_def)
next
  case (CallSetUnbondingSignatures h sigs)
  then show ?thesis
    using storeOrdered_setTxState [OF assms transitions_keep_index(3)]
    by (simp add: SetTxUnbondingSignaturesReceived_def)
next
  case (CallSetUnbondingConfirmed h bh ht)
  then show ?thesis
    using storeOrdered_setTxState [OF assms transitions_keep_index(4)]
    by (simp add: SetTxUnbondingConfirmedOnBtc_def)
qed

lemma storeOrdered_applyCalls:
  "storeOrdered X db \<Longrightarrow> marshalReadsBack X \<Longrightarrow> storeOrdered X (applyCalls X db cs)"
  by (induction cs arbitrary: db) (simp_all add: storeOrdered_applyCall)

lemma storeOrdered_newStore: "storeOrdered X newStore"
  by (simp add: storeOrdered_def newStore_eq recordsKeyed_def)


subsection \<open>The page of a query\<close>

lemma decoded_index:
  "protoTxToStoredTransaction X p = Inr t \<Longrightarrow> StoredTransactionIdx t = pb_TrackedTransactionIdx p"
  by (auto simp: protoTxToStoredTransaction_def split: sum.splits option.splits if_splits)

lemma accumulate_result:
  assumes "accumulateTransactions X q resp v = Inr (added, resp1)"
  shows "Transactions resp1 = Transactions resp
     \<or> (\<exists>p t. pm_Unmarshal X v = Inr p \<and> protoTxToStoredTransaction X p = Inr t
            \<and> Transactions resp1 = Transactions resp @ [t])"
  using assms
  by (auto simp: accumulateTransactions_def split: sum.splits option.splits if_splits)

lemma query_loop_sorted:
  assumes K: "\<And>a b. K (uint64KeyToBytes a) (uint64KeyToBytes b) \<Longrightarrow> R a b"
  shows "query_loop budget es (\<lambda>resp k v. accumulateTransactions X q resp v) resp = (resp1, err)
    \<Longrightarrow> recordsKeyed X es \<Longrightarrow> sorted_wrt K (map fst es)
    \<Longrightarrow> sorted_wrt R (map StoredTransactionIdx (Transactions resp))
    \<Longrightarrow> \<forall>t \<in> set (Transactions resp). \<forall>k \<in> set (map fst es).
          K (uint64KeyToBytes (StoredTransactionIdx t)) k
    \<Longrightarrow> sorted_wrt R (map StoredTransactionIdx (Transactions resp1))"
proof (induction es arbitrary: budget resp)
  case Nil
  then show ?case by simp
next
  case (Cons kv es)
  obtain k v where kv: "kv = (k, v)" by (cases kv)
  show ?case
  proof (cases "budget = 0")
    case True
    then show ?thesis using Cons.prems kv by simp
  next
    case False
    show ?thesis
    proof (cases "accumulateTransactions X q resp v")
      case (Inl e)
      then show ?thesis using Cons.prems False kv by simp
    next
      case (Inr r)
      obtain added resp2 where r: "r = (added, resp2)" by (cases r)
      have loop: "query_loop (if added then budget - 1 else budget) es
          (\<lambda>resp k v. accumulateTransactions X q resp v) resp2 = (resp1, err)"
        using Cons.prems(1) False kv Inr r by simp
      have keyed: "recordsKeyed X es"
        using Cons.prems(2) by (simp add: recordsKeyed_def)
      have sorted: "sorted_wrt K (map fst es)"
        and below: "\<forall>k1 \<in> set (map fst es). K k k1"
        using Cons.prems(3) kv by auto
      have "sorted_wrt R (map StoredTransactionIdx (Transactions resp2))
          \<and> (\<forall>t \<in> set (Transactions resp2). \<forall>k \<in> set (map fst es).
                K (uint64KeyToBytes (StoredTransactionIdx t)) k)"
        using accumulate_result [OF Inr [unfolded r]]
      proof
        assume "Transactions resp2 = Transactions resp"
        then show ?thesis using Cons.prems(4) Cons.prems(5) by simp
      next
        assume "\<exists>p t. pm_Unmarshal X v = Inr p \<and> protoTxToStoredTransaction X p = Inr t
            \<and> Transactions resp2 = Transactions resp @ [t]"
        then obtain p t where u: "pm_Unmarshal X v = Inr p"
          and d: "protoTxToStoredTransaction X p = Inr t"
          and a: "Transactions resp2 = Transactions resp @ [t]"
          by blast
        have k: "k = uint64KeyToBytes (StoredTransactionIdx t)"
          using Cons.prems(2) u kv decoded_index [OF d] by (simp add: recordsKeyed_def)
        have "\<forall>x \<in> set (Transactions resp). R (StoredTransactionIdx x) (StoredTransactionIdx t)"
          using Cons.prems(5) kv k K by simp
        then show ?thesis
          using Cons.prems(4) Cons.prems(5) below a k by (auto simp: sorted_wrt_append)
      qed
      then show ?thesis
        using Cons.IH [OF loop keyed sorted] by blast
    qed
  qed
qed

lemma query_loop_all:
  "list_all2 (decodesTo X) es ts \<Longrightarrow> withdrawableTransactionsFilter q = None \<Longrightarrow>
   query_loop budget es (\<lambda>resp k v. accumulateTransactions X q resp v) resp
     = (resp\<lparr>Transactions := Transactions resp @ take budget ts\<rparr>, None)"
proof (induction es ts arbitrary: budget resp rule: list_all2_induct)
  case Nil
  then show ?case by simp
next
  case (Cons kv es t ts)
  obtain k v where kv: "kv = (k, v)" by (cases kv)
  show ?case
  proof (cases budget)
    case 0
    then show ?thesis using kv by simp
  next
    case (Suc b)
    have a: "accumulateTransactions X q resp v
        = Inr (True, resp\<lparr>Transactions := Transactions resp @ [t]\<rparr>)"
      using Cons.hyps(1) Cons.prems kv
      by (auto simp: decodesTo_def accumulateTransactions_def)
    show ?thesis
      using Cons.IH [OF Cons.prems, of b "resp\<lparr>Transactions := Transactions resp @ [t]\<rparr>"]
        a kv Suc
      by simp
  qed
qed

lemma getNumTx_shape:
  assumes "nextTxKey ib = Inr (of_nat n + 1)"
  shows "getNumTx ib = Inr (of_nat n)"
  using assms by (simp add: getNumTx_def)

lemma of_nat_64_nonzero: "0 < n \<Longrightarrow> n < 2 ^ 64 \<Longrightarrow> (of_nat n :: 64 word) \<noteq> 0"
  using of_nat_less_64 [of 0 n] by auto

lemma query_shape:
  assumes sh: "storeShape X db hs ts"
    and ne: "hs \<noteq> []" and bound: "length hs < 2 ^ 64"
    and nf: "withdrawableTransactionsFilter q = None"
  shows "QueryStoredTransactions X db q =
     (\<lparr>Transactions =
         (if Reversed q
          then rev (take (unat (NumMaxTransactions q)) (drop (unat (IndexOffset q)) (rev ts)))
          else take (unat (NumMaxTransactions q)) (drop (unat (IndexOffset q)) ts)),
       Total = of_nat (length hs)\<rparr>, None)"
proof -
  obtain tb ib where tb: "transactionBucket db = Some tb" and ib: "transactionIndex db = Some ib"
    and cnt: "nextTxKey ib = Inr (of_nat (length hs) + 1)"
    and dec: "list_all2 (decodesTo X) tb ts"
    using sh by (auto simp: storeShape_def)
  have num: "getNumTx ib = Inr (of_nat (length hs))"
    using cnt by (rule getNumTx_shape)
  have nz: "(of_nat (length hs) :: 64 word) \<noteq> 0"
    using ne bound by (intro of_nat_64_nonzero) simp_all
  let ?O = "unat (IndexOffset q)"
  let ?L = "unat (NumMaxTransactions q)"
  let ?r = "\<lparr>Transactions = [], Total = of_nat (length hs)\<rparr>
              :: ('a, 'b) StoredTransactionQueryResult"
  have fwd: "query_loop ?L (drop ?O tb) (\<lambda>resp k v. accumulateTransactions X q resp v) ?r
      = (?r\<lparr>Transactions := Transactions ?r @ take ?L (drop ?O ts)\<rparr>, None)"
    using dec nf by (intro query_loop_all list_all2_dropI)
  have bwd: "query_loop ?L (drop ?O (rev tb)) (\<lambda>resp k v. accumulateTransactions X q resp v) ?r
      = (?r\<lparr>Transactions := Transactions ?r @ take ?L (drop ?O (rev ts))\<rparr>, None)"
    using dec nf by (intro query_loop_all list_all2_dropI) (simp add: list_all2_rev)
  show ?thesis
  proof (cases "Reversed q")
    case True
    then show ?thesis
      using tb ib num nz bwd
      by (simp add: QueryStoredTransactions_def View_def paginator_query_def newPaginator_def
          cursorStart_def reverse_loop_rev)
  next
    case False
    then show ?thesis
      using tb ib num nz fwd
      by (simp add: QueryStoredTransactions_def View_def paginator_query_def newPaginator_def
          cursorStart_def)
  qed
qed

lemma query_reversed_ascending:
  assumes so: "storeOrdered X db" and rv: "Reversed q"
    and ok: "snd (QueryStoredTransactions X db q) = None"
  shows "sorted_wrt (<)
           (map StoredTransactionIdx (Transactions (fst (QueryStoredTransactions X db q))))"
proof -
  let ?r0 = "\<lparr>Transactions = [], Total = 0\<rparr> :: ('a, 'b) StoredTransactionQueryResult"
  consider (empty) "QueryStoredTransactions X db q = (?r0, None)"
    | (page) tb n r where "transactionBucket db = Some tb"
        "query_loop (unat (NumMaxTransactions q)) (drop (unat (IndexOffset q)) (rev tb))
           (\<lambda>resp k v. accumulateTransactions X q resp v) (?r0\<lparr>Total := n\<rparr>) = (r, None)"
        "QueryStoredTransactions X db q = (r\<lparr>Transactions := rev (Transactions r)\<rparr>, None)"
    using ok rv
    by (auto simp: QueryStoredTransactions_def View_def paginator_query_def newPaginator_def
        cursorStart_def reverse_loop_rev Let_def
        split: option.splits sum.splits if_splits prod.splits)
  then show ?thesis
  proof cases
    case empty
    then show ?thesis by simp
  next
    case page
    let ?es = "drop (unat (IndexOffset q)) (rev tb)"
    have s: "sorted_wrt (<) (map fst tb)" and k: "recordsKeyed X tb"
      using so page(1) by (simp_all add: storeOrdered_def)
    have ks: "recordsKeyed X ?es"
      using k set_drop_subset [of "unat (IndexOffset q)" "rev tb"]
      unfolding recordsKeyed_def by auto
    have "sorted_wrt (\<lambda>a b. b < a) (rev (map fst tb))"
      using s by (simp add: sorted_wrt_rev)
    then have "sorted_wrt (\<lambda>a b. b < a) (drop (unat (IndexOffset q)) (rev (map fst tb)))"
      by (rule sorted_wrt_drop)
    then have ss: "sorted_wrt (\<lambda>a b. b < a) (map fst ?es)"
      by (simp add: rev_map drop_map)
    have "sorted_wrt (\<lambda>a b. b < a) (map StoredTransactionIdx (Transactions r))"
      using query_loop_sorted [where K = "\<lambda>a b. b < a" and R = "\<lambda>a b. b < a", OF _ page(2) ks ss]
      by (simp add: uint64KeyToBytes_less_iff)
    then have "sorted_wrt (<) (rev (map StoredTransactionIdx (Transactions r)))"
      by (simp add: sorted_wrt_rev)
    then show ?thesis using page(3) by (simp add: rev_map)
  qed
qed

subsection \<open>Decoding what was encoded\<close>

lemma covenantSigs_roundtrip:
  "list_all (pairReadsBack X) sigs \<Longrightarrow>
   covenantSigsFromProto X (covenantSigsToProto X sigs) = Inr sigs"
  by (induction sigs)
    (simp_all add: covenantSigsToProto_def covenantSigToProto_def covenantSigFromProto_def
      pairReadsBack_def)

lemma confirmation_roundtrip:
  "protoBtcConfirmationInfoToBtcConfirmationInfo (map_option btcConfirmationInfoToProto ci)
     = Inr ci"
  by (cases ci)
    (simp_all add: protoBtcConfirmationInfoToBtcConfirmationInfo_def
      btcConfirmationInfoToProto_def NewHash_CloneBytes)

lemma unbonding_roundtrip:
  assumes "unbondingStoreDataToProto X ud = Inr u"
    and "wireReadsBack X (UnbondingTx ud)"
    and "list_all (pairReadsBack X) (CovenantSignatures ud)"
  shows "protoUnbondingDataToUnbondingStoreData X u = Inr ud"
  using assms
  by (auto simp: unbondingStoreDataToProto_def protoUnbondingDataToUnbondingStoreData_def
      wireReadsBack_def covenantSigs_roundtrip confirmation_roundtrip ucast_16_32_le
      ucast_16_32_16 split: sum.splits)

lemma stored_roundtrip:
  assumes "storedTransactionToProto X t = Inr p" and "validRecord X t"
  shows "protoTxToStoredTransaction X p = Inr t"
proof (cases "UnbondingTxData t")
  case None
  then show ?thesis
    using assms
    by (auto simp: storedTransactionToProto_def protoTxToStoredTransaction_def validRecord_def
        wireReadsBack_def confirmation_roundtrip ucast_16_32_le ucast_16_32_16
        split: sum.splits)
next
  case (Some ud)
  then obtain u where u: "unbondingStoreDataToProto X ud = Inr u"
    using assms(1) by (auto simp: storedTransactionToProto_def split: sum.splits)
  have d: "protoUnbondingDataToUnbondingStoreData X u = Inr ud"
    using unbonding_roundtrip [OF u] assms(2) Some by (simp add: validRecord_def)
  show ?thesis
    using assms Some u d
    by (auto simp: storedTransactionToProto_def protoTxToStoredTransaction_def validRecord_def
        wireReadsBack_def confirmation_roundtrip ucast_16_32_le ucast_16_32_16
        split: sum.splits)
qed

section \<open>Duplicate insertion\<close>

text \<open>
  C1. When the hash of the staking transaction is already a key of the hash index,
  \<open>addTransactionInternal\<close> returns \<open>ErrDuplicateTransaction\<close> and the database it leaves
  is the one it found: the counter, the primary records, the hash index and the outpoint
  index. \<open>AddTransactionSentToBabylon\<close> then fails and leaves the database as it was too,
  and its error is \<open>ErrDuplicateTransaction\<close> whenever the staking transaction serializes
  and the unbonding data can be built, the two steps it takes before it looks at the index.
\<close>

theorem insert_duplicate_rejected:
  assumes "transactionIndex db = Some idx"
    and "Get idx (CloneBytes (TxHash X btcTx)) = Some k"
  shows "addTransactionInternal X db (CloneBytes (TxHash X btcTx)) tt inpData
           = (db, Some ErrDuplicateTransaction)
       \<and> fst (AddTransactionSentToBabylon X db btcTx outIdx stakingTm addr unbondingTx
                unbondingTm ref) = db
       \<and> snd (AddTransactionSentToBabylon X db btcTx outIdx stakingTm addr unbondingTx
                unbondingTm ref) \<noteq> None
       \<and> ((\<exists>b. SerializeBtcTransaction X btcTx = Inr b)
            \<and> (\<exists>u. newInitialUnbondingTxData X unbondingTx unbondingTm = Inr u)
          \<longrightarrow> AddTransactionSentToBabylon X db btcTx outIdx stakingTm addr unbondingTx
                unbondingTm ref
                = (db, Some ErrDuplicateTransaction))"
proof -
  have dup: "addTransactionInternal X db (CloneBytes (TxHash X btcTx)) tt' inpData'
           = (db, Some ErrDuplicateTransaction)" for tt' inpData'
    using assms by (simp add: addTransactionInternal_def Batch_def)
  show ?thesis
    using dup
    by (auto simp: AddTransactionSentToBabylon_def Let_def getInputData_def outpointsBytes_total
             split: sum.splits)
qed

theorem insert_duplicate_rejected_witness:
  "(\<exists>idx k. transactionIndex exampleStore1 = Some idx
       \<and> Get idx (CloneBytes (TxHash exampleCodec (exampleTx 7 []))) = Some k)
   \<and> addTransactionInternal exampleCodec exampleStore1
        (CloneBytes (TxHash exampleCodec (exampleTx 7 []))) None None
        = (exampleStore1, Some ErrDuplicateTransaction)
   \<and> AddTransactionSentToBabylon exampleCodec exampleStore1 (exampleTx 7 []) 0 100 ''addr''
        (Some (exampleTx 107 [])) 10 ''ref''
        = (exampleStore1, Some ErrDuplicateTransaction)"
proof -
  have h: "\<exists>idx k. transactionIndex exampleStore1 = Some idx
       \<and> Get idx (CloneBytes (TxHash exampleCodec (exampleTx 7 []))) = Some k"
    by (simp add: exampleStore1_eq example_simps)
  then obtain idx k where a: "transactionIndex exampleStore1 = Some idx"
    and b: "Get idx (CloneBytes (TxHash exampleCodec (exampleTx 7 []))) = Some k"
    by blast
  have s: "\<exists>b. SerializeBtcTransaction exampleCodec (exampleTx 7 []) = Inr b"
    by (simp add: exampleCodec_def)
  have u: "\<exists>u. newInitialUnbondingTxData exampleCodec (Some (exampleTx 107 [])) 10 = Inr u"
    by (simp add: exampleCodec_def newInitialUnbondingTxData_def)
  show ?thesis
    using h s u
      insert_duplicate_rejected [OF a b, of None None 0 100 "''addr''" "Some (exampleTx 107 [])"
        10 "''ref''"]
    by simp
qed

section \<open>Sequential indices\<close>

text \<open>
  C2 fails on the code when a stored transaction does not read back. The insertion
  serializes its two transactions and never deserializes them: four insertions succeed
  with a wire codec that rejects what it wrote, and the scan then stops at the first
  record with the error of \<open>Deserialize\<close>, having visited no record.
\<close>

theorem sequential_inserts_scan_fails:
  "snd (insertAll unreadableCodec newStore (map exampleArgs [1, 2, 3, 4])) = None
   \<and> marshalReadsBack unreadableCodec
   \<and> ScanTrackedTransactions unreadableCodec
        (fst (insertAll unreadableCodec newStore (map exampleArgs [1, 2, 3, 4]))) countVisitor 0
       = (0, Some (LibError ''malformed transaction''))"
  unfolding unreadableStore4_eq fst_conv snd_conv
  by (simp add: exampleStore4_eq ScanTrackedTransactions_def View_def marshalReadsBack_def
      unreadableCodec_def exampleCodec_def exampleMessage_def decode_simps)

text \<open>
  C2 as amended. After \<open>N\<close> insertions that all succeed on a new store, with \<open>N + 1\<close> below
  \<open>2^64\<close>, and whatever the codecs read back: the keys of the records are the encodings of
  \<open>1, ..., N\<close> in this order, no duplicate and no gap; the record under \<open>i\<close> is the
  marshalled message of the \<open>i\<close>-th insertion, numbered \<open>i\<close>; the hash index maps the hash of
  the \<open>i\<close>-th transaction to the key of \<open>i\<close>; and the counter in the hash index is \<open>N + 1\<close>.
  When moreover the protobuf codec unmarshals what it marshalled and the wire codec reads
  back each inserted staking and unbonding transaction, a full scan visits exactly \<open>N\<close>
  records, their indices are \<open>1, ..., N\<close> in this order, and the \<open>i\<close>-th holds the \<open>i\<close>-th
  inserted transaction.
\<close>

theorem sequential_inserts_indices:
  assumes "snd (insertAll X newStore args) = None"
    and "Suc (length args) < 2 ^ 64"
  shows "\<exists>tb ib k.
      transactionBucket (fst (insertAll X newStore args)) = Some tb
      \<and> transactionIndex (fst (insertAll X newStore args)) = Some ib
      \<and> nextTxKey ib = Inr k \<and> unat k = length args + 1
      \<and> map fst tb = map (\<lambda>i. uint64KeyToBytes (of_nat i)) [1..<length args + 1]
      \<and> map Some tb = map (\<lambda>i. insertedRecord X (args ! i) (of_nat (Suc i))) [0..<length args]
      \<and> map (\<lambda>a. indexedKey (fst (insertAll X newStore args)) (TxHash X (arg_btcTx a))) args
          = map (\<lambda>i. Some (uint64KeyToBytes (of_nat i))) [1..<length args + 1]
      \<and> (marshalReadsBack X \<and> (\<forall>a \<in> set args. argsReadBack X a)
          \<longrightarrow> (\<exists>ts.
                ScanTrackedTransactions X (fst (insertAll X newStore args)) collectVisitor []
                  = (ts, None)
                \<and> ScanTrackedTransactions X (fst (insertAll X newStore args)) countVisitor 0
                  = (length args, None)
                \<and> map (\<lambda>t. unat (StoredTransactionIdx t)) ts = [1..<length args + 1]
                \<and> map StakingTx ts = map arg_btcTx args))"
proof -
  let ?db = "fst (insertAll X newStore args)"
  let ?N = "length args"
  have r: "insertAll X newStore args = (?db, None)"
    using assms(1) by (cases "insertAll X newStore args") simp
  have b0: "length ([] :: insertArgs list) + length args < 2 ^ 64" using assms(2) by simp
  have "indexShape X ?db ([] @ args)"
    by (rule insertAll_indexShape [OF newStore_indexShape r b0])
  then obtain tb ib where
    tb: "transactionBucket ?db = Some tb" and ib: "transactionIndex ?db = Some ib"
    and cnt: "nextTxKey ib = Inr (of_nat ?N + 1)"
    and keys: "map fst tb = map (\<lambda>i. uint64KeyToBytes (of_nat (Suc i))) [0..<?N]"
    and recs: "map Some tb = map (\<lambda>i. insertedRecord X (args ! i) (of_nat (Suc i))) [0..<?N]"
    and hidx: "map (\<lambda>a. Get ib (CloneBytes (TxHash X (arg_btcTx a)))) args
       = map (\<lambda>i. Some (uint64KeyToBytes (of_nat (Suc i)))) [0..<?N]"
    by (auto simp: indexShape_def)
  have len: "length tb = ?N"
    using arg_cong [OF keys, of length] by simp
  have k: "unat (of_nat ?N + 1 :: 64 word) = ?N + 1"
  proof -
    have "(of_nat ?N + 1 :: 64 word) = of_nat (Suc ?N)" by simp
    then show ?thesis using assms(2) by (simp only: unat_of_nat len_of_numeral_defs) simp
  qed
  have shift: "map (\<lambda>i. f (Suc i)) [0..<?N] = map f [1..<?N + 1]" for f :: "nat \<Rightarrow> 'z"
  proof -
    have "map (\<lambda>i. f (Suc i)) [0..<?N] = map f (map Suc [0..<?N])" by (simp add: comp_def)
    then show ?thesis by (simp add: map_Suc_upt)
  qed
  have keys1: "map fst tb = map (\<lambda>i. uint64KeyToBytes (of_nat i)) [1..<?N + 1]"
    using keys shift [of "\<lambda>i. uint64KeyToBytes (of_nat i)"] by simp
  have "map (\<lambda>a. indexedKey ?db (TxHash X (arg_btcTx a))) args
      = map (\<lambda>i. Some (uint64KeyToBytes (of_nat (Suc i)))) [0..<?N]"
    using hidx ib by (simp add: indexedKey_def comp_def)
  then have hk: "map (\<lambda>a. indexedKey ?db (TxHash X (arg_btcTx a))) args
      = map (\<lambda>i. Some (uint64KeyToBytes (of_nat i))) [1..<?N + 1]"
    using shift [of "\<lambda>i. Some (uint64KeyToBytes (of_nat i))"] by simp
  have scan: "\<exists>ts.
        ScanTrackedTransactions X ?db collectVisitor [] = (ts, None)
        \<and> ScanTrackedTransactions X ?db countVisitor 0 = (?N, None)
        \<and> map (\<lambda>t. unat (StoredTransactionIdx t)) ts = [1..<?N + 1]
        \<and> map StakingTx ts = map arg_btcTx args"
    if mrb: "marshalReadsBack X" and arb: "\<forall>a \<in> set args. argsReadBack X a"
  proof -
    have b: "length ([] :: MsgTx list) + length args < 2 ^ 64" using assms(2) by simp
    obtain ts where sh: "storeShape X ?db (map arg_btcTx args) ts"
      using insertAll_shape [OF newStore_shape r b mrb arb] by auto
    then have dec: "list_all2 (decodesTo X) tb ts"
      and idx: "map StoredTransactionIdx ts = map (\<lambda>i. of_nat (Suc i)) [0..<?N]"
      and stx: "map StakingTx ts = map arg_btcTx args"
      using tb by (auto simp: storeShape_def)
    have collect: "ScanTrackedTransactions X ?db collectVisitor [] = (ts, None)"
      using ForEach_collect [OF dec, of "[]"] tb by (simp add: ScanTrackedTransactions_def View_def)
    have count: "ScanTrackedTransactions X ?db countVisitor 0 = (?N, None)"
      using ForEach_count [OF dec, of 0] tb len
      by (simp add: ScanTrackedTransactions_def View_def)
    have "map (\<lambda>t. unat (StoredTransactionIdx t)) ts = map unat (map StoredTransactionIdx ts)"
      by simp
    also have "\<dots> = [1..<Suc ?N]"
      unfolding idx using unat_index_list [OF assms(2)] by (simp add: comp_def)
    finally have idxs: "map (\<lambda>t. unat (StoredTransactionIdx t)) ts = [1..<?N + 1]" by simp
    show ?thesis using collect count idxs stx by blast
  qed
  show ?thesis
    using tb ib cnt k keys1 recs hk scan by blast
qed


theorem sequential_inserts_indices_witness:
  "snd (insertAll exampleCodec newStore (map exampleArgs [1, 2, 3, 4])) = None
   \<and> marshalReadsBack exampleCodec
   \<and> argsReadBack exampleCodec (exampleArgs 1) \<and> argsReadBack exampleCodec (exampleArgs 2)
   \<and> argsReadBack exampleCodec (exampleArgs 3) \<and> argsReadBack exampleCodec (exampleArgs 4)
   \<and> (\<exists>tb ib k ts.
        transactionBucket exampleStore4 = Some tb
        \<and> transactionIndex exampleStore4 = Some ib
        \<and> nextTxKey ib = Inr k \<and> unat k = 5
        \<and> map fst tb = map (\<lambda>i. uint64KeyToBytes (of_nat i)) [1, 2, 3, 4]
        \<and> map (\<lambda>a. indexedKey exampleStore4 (TxHash exampleCodec (arg_btcTx a)))
             (map exampleArgs [1, 2, 3, 4])
            = map (\<lambda>i. Some (uint64KeyToBytes (of_nat i))) [1, 2, 3, 4]
        \<and> ScanTrackedTransactions exampleCodec exampleStore4 collectVisitor [] = (ts, None)
        \<and> ScanTrackedTransactions exampleCodec exampleStore4 countVisitor 0 = (4, None)
        \<and> map (\<lambda>t. unat (StoredTransactionIdx t)) ts = [1, 2, 3, 4]
        \<and> map StakingTx ts = [exampleTx 1 [], exampleTx 2 [], exampleTx 3 [], exampleTx 4 []])"
proof -
  let ?args = "map exampleArgs [1, 2, 3, 4]"
  have ok: "snd (insertAll exampleCodec newStore ?args) = None"
    by (rule conjunct2 [OF exampleStore4_eq])
  have b: "Suc (length ?args) < 2 ^ 64" by simp
  have m: "marshalReadsBack exampleCodec"
    by (simp add: marshalReadsBack_def exampleCodec_def)
  have a: "argsReadBack exampleCodec (exampleArgs 1)" "argsReadBack exampleCodec (exampleArgs 2)"
    "argsReadBack exampleCodec (exampleArgs 3)" "argsReadBack exampleCodec (exampleArgs 4)"
    by (simp_all add: argsReadBack_def wireReadsBack_def exampleArgs_def exampleCodec_def
        exampleTx_def)
  then have all: "\<forall>a \<in> set ?args. argsReadBack exampleCodec a"
    by simp
  have l1: "length ?args = 4" by simp
  have l2: "[1..<5] = [1, 2, 3, 4 :: nat]" by (simp add: upt_rec)
  have l3: "map arg_btcTx ?args
      = [exampleTx 1 [], exampleTx 2 [], exampleTx 3 [], exampleTx 4 []]"
    by (simp add: exampleArgs_def)
  have l4: "(4 :: nat) + 1 = 5" by simp
  obtain tb ib k where
    tb: "transactionBucket exampleStore4 = Some tb"
    and ib: "transactionIndex exampleStore4 = Some ib"
    and k: "nextTxKey ib = Inr k" "unat k = 5"
    and keys: "map fst tb = map (\<lambda>i. uint64KeyToBytes (of_nat i)) [1, 2, 3, 4]"
    and hk: "map (\<lambda>a. indexedKey exampleStore4 (TxHash exampleCodec (arg_btcTx a))) ?args
            = map (\<lambda>i. Some (uint64KeyToBytes (of_nat i))) [1, 2, 3, 4]"
    and scan: "marshalReadsBack exampleCodec \<and> (\<forall>a \<in> set ?args. argsReadBack exampleCodec a)
      \<longrightarrow> (\<exists>ts.
            ScanTrackedTransactions exampleCodec exampleStore4 collectVisitor [] = (ts, None)
            \<and> ScanTrackedTransactions exampleCodec exampleStore4 countVisitor 0 = (4, None)
            \<and> map (\<lambda>t. unat (StoredTransactionIdx t)) ts = [1, 2, 3, 4]
            \<and> map StakingTx ts
                = [exampleTx 1 [], exampleTx 2 [], exampleTx 3 [], exampleTx 4 []])"
    using sequential_inserts_indices [OF ok b]
    unfolding exampleStore4_def [symmetric] l1 l2 l3 l4 by (elim exE conjE) (rule that)
  have "\<exists>ts.
      ScanTrackedTransactions exampleCodec exampleStore4 collectVisitor [] = (ts, None)
      \<and> ScanTrackedTransactions exampleCodec exampleStore4 countVisitor 0 = (4, None)
      \<and> map (\<lambda>t. unat (StoredTransactionIdx t)) ts = [1, 2, 3, 4]
      \<and> map StakingTx ts = [exampleTx 1 [], exampleTx 2 [], exampleTx 3 [], exampleTx 4 []]"
    by (rule mp [OF scan conjI [OF m all]])
  then obtain ts where
    s: "ScanTrackedTransactions exampleCodec exampleStore4 collectVisitor [] = (ts, None)"
    "ScanTrackedTransactions exampleCodec exampleStore4 countVisitor 0 = (4, None)"
    "map (\<lambda>t. unat (StoredTransactionIdx t)) ts = [1, 2, 3, 4]"
    "map StakingTx ts = [exampleTx 1 [], exampleTx 2 [], exampleTx 3 [], exampleTx 4 []]"
    by (elim exE conjE)
  show ?thesis
    by (intro conjI exI) (rule ok m a tb ib k keys hk s)+
qed

section \<open>Decoding the encoded record\<close>

text \<open>
  C3, with the encoder as the specification describes it. For every valid record that
  encodes, decoding the encoded form gives the record back, field by field, whichever
  of the staking confirmation, the unbonding data, the covenant signatures and the
  unbonding confirmation are present: an absent sub-record stays absent and a present
  one comes back with its fields.
\<close>

theorem decode_encode_record:
  assumes "validRecord X x" and "marshalReadsBack X" and "encodeRecord X x = Inr m"
  shows "decodeRecord X m = Inr x"
proof -
  obtain p where p: "storedTransactionToProto X x = Inr p" and m: "pm_Marshal X p = Inr m"
    using assms(3) by (auto simp: encodeRecord_def split: sum.splits)
  have "pm_Unmarshal X m = Inr p"
    using m assms(2) by (auto simp: marshalReadsBack_def)
  then show ?thesis
    using stored_roundtrip [OF p assms(1)] by (simp add: decodeRecord_def)
qed


theorem decode_encode_record_witness:
  "validRecord exampleCodec exampleFull \<and> validRecord exampleCodec exampleBare
   \<and> marshalReadsBack exampleCodec
   \<and> (\<exists>m. encodeRecord exampleCodec exampleFull = Inr m
          \<and> decodeRecord exampleCodec m = Inr exampleFull)
   \<and> (\<exists>m. encodeRecord exampleCodec exampleBare = Inr m
          \<and> decodeRecord exampleCodec m = Inr exampleBare)"
proof -
  have v: "validRecord exampleCodec exampleFull" "validRecord exampleCodec exampleBare"
    by (simp_all add: validRecord_def wireReadsBack_def pairReadsBack_def exampleFull_def
        exampleBare_def examplePair_def exampleCodec_def exampleTx_def)
  have m: "marshalReadsBack exampleCodec"
    by (simp add: marshalReadsBack_def exampleCodec_def)
  obtain m1 m2 where e: "encodeRecord exampleCodec exampleFull = Inr m1"
    "encodeRecord exampleCodec exampleBare = Inr m2"
    by (simp add: encodeRecord_def storedTransactionToProto_def unbondingStoreDataToProto_def
        exampleFull_def exampleBare_def exampleCodec_def)
  show ?thesis
    using v m e decode_encode_record [OF v(1) m e(1)] decode_encode_record [OF v(2) m e(2)]
    by simp
qed

section \<open>Covenant signatures are set once\<close>

text \<open>
  C4 fails on the code for an empty first list: the transition tells that the
  signatures are set by their number being positive, so after a call with no signature a
  second call succeeds too.
\<close>

theorem unbonding_signatures_empty_then_set:
  "(\<exists>ud. pb_UnbondingTxData (exampleMessage 7 1) = Some ud \<and> pb_CovenantSignatures ud = [])
   \<and> primaryRecord exampleStore1 (uint64KeyToBytes 1) = Some (exampleMessage 7 1)
   \<and> snd (SetTxUnbondingSignaturesReceived exampleCodec exampleStore1 (exampleHash 7) []) = None
   \<and> snd (SetTxUnbondingSignaturesReceived exampleCodec
            (fst (SetTxUnbondingSignaturesReceived exampleCodec exampleStore1 (exampleHash 7) []))
            (exampleHash 7) [examplePair]) = None"
  by (simp add: SetTxUnbondingSignaturesReceived_def setTxState_def
      setUnbondingSignaturesReceived_def getTxByHash_def primaryRecord_def exampleStore1_eq
      example_simps exampleMessage_def covenantSigsToProto_def)

text \<open>
  C4 as amended. On a stored record with no unbonding data the call fails with
  \<open>ErrUnbondingDataNotFound\<close> and changes nothing. On a stored record that has unbonding
  data with no covenant signature, a call with a list \<open>s1\<close> that is not empty succeeds
  (when the changed message marshals and unmarshals back), and a second call, with any
  list \<open>s2\<close>, fails with \<open>ErrInvalidUnbondingDataUpdate\<close> and changes nothing.
\<close>

theorem unbonding_signatures_set_once:
  "(indexedKey db h = Some k \<and> primaryRecord db k = Some m \<and> pm_Unmarshal X m = Inr p
      \<and> pb_UnbondingTxData p = None
    \<longrightarrow> (\<exists>e. SetTxUnbondingSignaturesReceived X db h s1 = (db, Some e)
            \<and> errors_Is e ErrUnbondingDataNotFound))
   \<and> (indexedKey db h = Some k \<and> primaryRecord db k = Some m \<and> pm_Unmarshal X m = Inr p
      \<and> pb_UnbondingTxData p = Some ud \<and> pb_CovenantSignatures ud = [] \<and> s1 \<noteq> []
      \<and> pm_Marshal X
           (p\<lparr>pb_UnbondingTxData :=
                Some (ud\<lparr>pb_CovenantSignatures := covenantSigsToProto X s1\<rparr>)\<rparr>) = Inr r
      \<and> pm_Unmarshal X r =
           Inr (p\<lparr>pb_UnbondingTxData :=
                     Some (ud\<lparr>pb_CovenantSignatures := covenantSigsToProto X s1\<rparr>)\<rparr>)
    \<longrightarrow> snd (SetTxUnbondingSignaturesReceived X db h s1) = None
        \<and> (\<exists>e. SetTxUnbondingSignaturesReceived X
                   (fst (SetTxUnbondingSignaturesReceived X db h s1)) h s2
                 = (fst (SetTxUnbondingSignaturesReceived X db h s1), Some e)
              \<and> errors_Is e ErrInvalidUnbondingDataUpdate))"
proof -
  have a: "\<exists>e. SetTxUnbondingSignaturesReceived X db h s1 = (db, Some e)
            \<and> errors_Is e ErrUnbondingDataNotFound"
    if "indexedKey db h = Some k" "primaryRecord db k = Some m" "pm_Unmarshal X m = Inr p"
      "pb_UnbondingTxData p = None"
    using that
    by (auto simp: SetTxUnbondingSignaturesReceived_def setTxState_def Batch_def Let_def
        setUnbondingSignaturesReceived_def getTxByHash_def indexedKey_def primaryRecord_def
        split: option.splits)
  have b: "snd (SetTxUnbondingSignaturesReceived X db h s1) = None
        \<and> (\<exists>e. SetTxUnbondingSignaturesReceived X
                   (fst (SetTxUnbondingSignaturesReceived X db h s1)) h s2
                 = (fst (SetTxUnbondingSignaturesReceived X db h s1), Some e)
              \<and> errors_Is e ErrInvalidUnbondingDataUpdate)"
    if "indexedKey db h = Some k" "primaryRecord db k = Some m" "pm_Unmarshal X m = Inr p"
      "pb_UnbondingTxData p = Some ud" "pb_CovenantSignatures ud = []" "s1 \<noteq> []"
      "pm_Marshal X
           (p\<lparr>pb_UnbondingTxData :=
                Some (ud\<lparr>pb_CovenantSignatures := covenantSigsToProto X s1\<rparr>)\<rparr>) = Inr r"
      "pm_Unmarshal X r =
           Inr (p\<lparr>pb_UnbondingTxData :=
                     Some (ud\<lparr>pb_CovenantSignatures := covenantSigsToProto X s1\<rparr>)\<rparr>)"
    using that
    by (auto simp: SetTxUnbondingSignaturesReceived_def setTxState_def Batch_def Let_def
        setUnbondingSignaturesReceived_def getTxByHash_def indexedKey_def primaryRecord_def
        Get_Put covenantSigsToProto_def split: option.splits)
  show ?thesis using a b by blast
qed

theorem unbonding_signatures_set_once_witness:
  "indexedKey exampleStoreNoUnbonding (exampleHash 7) = Some (uint64KeyToBytes 1)
   \<and> primaryRecord exampleStoreNoUnbonding (uint64KeyToBytes 1)
       = Some ((exampleMessage 7 1)\<lparr>pb_UnbondingTxData := None\<rparr>)
   \<and> (\<exists>e. SetTxUnbondingSignaturesReceived exampleCodec exampleStoreNoUnbonding (exampleHash 7)
             [examplePair] = (exampleStoreNoUnbonding, Some e)
          \<and> errors_Is e ErrUnbondingDataNotFound)
   \<and> indexedKey exampleStore1 (exampleHash 7) = Some (uint64KeyToBytes 1)
   \<and> primaryRecord exampleStore1 (uint64KeyToBytes 1) = Some (exampleMessage 7 1)
   \<and> [examplePair] \<noteq> []
   \<and> snd (SetTxUnbondingSignaturesReceived exampleCodec exampleStore1 (exampleHash 7)
            [examplePair]) = None
   \<and> (\<exists>e. SetTxUnbondingSignaturesReceived exampleCodec
             (fst (SetTxUnbondingSignaturesReceived exampleCodec exampleStore1 (exampleHash 7)
                     [examplePair]))
             (exampleHash 7) []
           = (fst (SetTxUnbondingSignaturesReceived exampleCodec exampleStore1 (exampleHash 7)
                     [examplePair]), Some e)
          \<and> errors_Is e ErrInvalidUnbondingDataUpdate)"
proof -
  let ?ud = "\<lparr>pb_UnbondingTransaction = [107], pb_UnbondingTime = 10,
              pb_CovenantSignatures = [], pb_UnbondingTxBtcConfirmationInfo = None\<rparr>"
  have n: "indexedKey exampleStoreNoUnbonding (exampleHash 7) = Some (uint64KeyToBytes 1)"
    "primaryRecord exampleStoreNoUnbonding (uint64KeyToBytes 1)
       = Some ((exampleMessage 7 1)\<lparr>pb_UnbondingTxData := None\<rparr>)"
    "pm_Unmarshal exampleCodec ((exampleMessage 7 1)\<lparr>pb_UnbondingTxData := None\<rparr>)
       = Inr ((exampleMessage 7 1)\<lparr>pb_UnbondingTxData := None\<rparr>)"
    "pb_UnbondingTxData ((exampleMessage 7 1)\<lparr>pb_UnbondingTxData := None\<rparr>) = None"
    by (simp_all add: exampleStoreNoUnbonding_def exampleStore1_eq indexedKey_def
        primaryRecord_def Get_def CloneBytes_exampleHash uint64KeyToBytes_def exampleCodec_def)
  have s: "indexedKey exampleStore1 (exampleHash 7) = Some (uint64KeyToBytes 1)"
    "primaryRecord exampleStore1 (uint64KeyToBytes 1) = Some (exampleMessage 7 1)"
    "pm_Unmarshal exampleCodec (exampleMessage 7 1) = Inr (exampleMessage 7 1)"
    "pb_UnbondingTxData (exampleMessage 7 1) = Some ?ud"
    "pb_CovenantSignatures ?ud = []"
    "[examplePair] \<noteq> []"
    by (simp_all add: exampleStore1_eq indexedKey_def primaryRecord_def Get_def
        CloneBytes_exampleHash uint64KeyToBytes_def exampleCodec_def exampleMessage_def)
  have m: "pm_Marshal exampleCodec q = Inr q" "pm_Unmarshal exampleCodec q = Inr q" for q
    by (simp_all add: exampleCodec_def)
  show ?thesis
    using n s
      unbonding_signatures_set_once [of exampleStoreNoUnbonding "exampleHash 7"
        "uint64KeyToBytes 1" "(exampleMessage 7 1)\<lparr>pb_UnbondingTxData := None\<rparr>"
        exampleCodec "(exampleMessage 7 1)\<lparr>pb_UnbondingTxData := None\<rparr>" "[examplePair]"]
      unbonding_signatures_set_once [of exampleStore1 "exampleHash 7"
        "uint64KeyToBytes 1" "exampleMessage 7 1" exampleCodec "exampleMessage 7 1"
        "[examplePair]" ?ud
        "(exampleMessage 7 1)\<lparr>pb_UnbondingTxData :=
            Some (?ud\<lparr>pb_CovenantSignatures := covenantSigsToProto exampleCodec [examplePair]\<rparr>)\<rparr>"
        "[]"]
    by (simp add: m)
qed

section \<open>The withdrawable filter\<close>

text \<open>
  C5. The withdrawable filter is the function \<open>withdrawable\<close> of the record and the best
  height. Its reference pair is absent when the staking transaction is not confirmed,
  is the staking confirmation height with the staking time when the unbonding
  transaction is absent or not confirmed, and is the unbonding confirmation height with
  the unbonding time when it is confirmed. The record is eligible exactly when
  \<open>(bestHeight + 1) - confirmationHeight - lockLength \<ge> 0\<close> over the integers: the \<open>int64\<close>
  arithmetic of \<open>isTimeLockExpired\<close> never wraps. Height 100 with lock 10 is not
  eligible at best height 108 and is at 109. The query callback with a filter adds a
  record exactly when \<open>withdrawable\<close> holds of it.
\<close>

theorem withdrawable_filter:
  "withdrawableReference t =
     (case StakingTxConfirmationInfo t of
        None \<Rightarrow> None
      | Some sci \<Rightarrow>
          (case UnbondingTxData t of
             None \<Rightarrow> Some (Height sci, StakingTime t)
           | Some ud \<Rightarrow>
               (case UnbondingTxConfirmationInfo ud of
                  None \<Rightarrow> Some (Height sci, StakingTime t)
                | Some uci \<Rightarrow> Some (Height uci, UnbondingTime ud))))
   \<and> withdrawable t bestHeight =
       (case withdrawableReference t of
          None \<Rightarrow> False
        | Some (confirmationHeight, lockLength) \<Rightarrow>
            (uint bestHeight + 1) - uint confirmationHeight - uint lockLength \<ge> 0)
   \<and> isTimeLockExpired c l b = ((uint b + 1) - uint c - uint l \<ge> 0)
   \<and> \<not> isTimeLockExpired 100 10 108 \<and> isTimeLockExpired 100 10 109
   \<and> (pm_Unmarshal X m = Inr p \<and> protoTxToStoredTransaction X p = Inr t
        \<and> withdrawableTransactionsFilter q = Some flt
      \<longrightarrow> accumulateTransactions X q resp m =
            Inr (withdrawable t (currentBestBlockHeight flt),
                 if withdrawable t (currentBestBlockHeight flt)
                 then resp\<lparr>Transactions := Transactions resp @ [t]\<rparr> else resp))"
proof -
  have r: "withdrawableReference t =
     (case StakingTxConfirmationInfo t of
        None \<Rightarrow> None
      | Some sci \<Rightarrow>
          (case UnbondingTxData t of
             None \<Rightarrow> Some (Height sci, StakingTime t)
           | Some ud \<Rightarrow>
               (case UnbondingTxConfirmationInfo ud of
                  None \<Rightarrow> Some (Height sci, StakingTime t)
                | Some uci \<Rightarrow> Some (Height uci, UnbondingTime ud))))"
    by (simp add: withdrawableReference_def StakingTxConfirmedOnBtc_def
        UnbondingTxConfirmedOnBtc_def split: option.splits)
  have w: "withdrawable t bestHeight =
       (case withdrawableReference t of
          None \<Rightarrow> False
        | Some (confirmationHeight, lockLength) \<Rightarrow>
            (uint bestHeight + 1) - uint confirmationHeight - uint lockLength \<ge> 0)"
    by (simp add: withdrawable_def isTimeLockExpired_int split: option.splits)
  have e: "\<not> isTimeLockExpired 100 10 108 \<and> isTimeLockExpired 100 10 109"
    by (simp add: isTimeLockExpired_int)
  have a: "pm_Unmarshal X m = Inr p \<and> protoTxToStoredTransaction X p = Inr t
        \<and> withdrawableTransactionsFilter q = Some flt
      \<longrightarrow> accumulateTransactions X q resp m =
            Inr (withdrawable t (currentBestBlockHeight flt),
                 if withdrawable t (currentBestBlockHeight flt)
                 then resp\<lparr>Transactions := Transactions resp @ [t]\<rparr> else resp)"
    by (simp add: accumulateTransactions_def)
  show ?thesis
    using r w e a isTimeLockExpired_int [of c l b] by blast
qed

theorem withdrawable_filter_witness:
  "\<exists>t. pm_Unmarshal exampleCodec exampleConfirmed = Inr exampleConfirmed
     \<and> protoTxToStoredTransaction exampleCodec exampleConfirmed = Inr t
     \<and> withdrawableTransactionsFilter (withdrawableQuery 108)
         = Some \<lparr>currentBestBlockHeight = 108\<rparr>
     \<and> withdrawableReference t = Some (100, 10)
     \<and> \<not> withdrawable t 108 \<and> withdrawable t 109
     \<and> accumulateTransactions exampleCodec (withdrawableQuery 108)
          \<lparr>Transactions = [], Total = 1\<rparr> exampleConfirmed
         = Inr (False, \<lparr>Transactions = [], Total = 1\<rparr>)
     \<and> accumulateTransactions exampleCodec (withdrawableQuery 109)
          \<lparr>Transactions = [], Total = 1\<rparr> exampleConfirmed
         = Inr (True, \<lparr>Transactions = [t], Total = 1\<rparr>)"
proof -
  obtain t where d: "protoTxToStoredTransaction exampleCodec exampleConfirmed = Inr t"
    and sci: "StakingTxConfirmationInfo t = Some \<lparr>Height = 100, BlockHash = Abs_chainhash (replicate 32 0)\<rparr>"
    and st: "StakingTime t = 10"
    and ud: "\<exists>ud. UnbondingTxData t = Some ud \<and> UnbondingTxConfirmationInfo ud = None"
    by (simp add: exampleConfirmed_def exampleMessage_def decode_simps exampleCodec_def NewHash_def)
  have u: "pm_Unmarshal exampleCodec exampleConfirmed = Inr exampleConfirmed"
    by (simp add: exampleCodec_def)
  have f: "withdrawableTransactionsFilter (withdrawableQuery b) = Some \<lparr>currentBestBlockHeight = b\<rparr>" for b
    by (simp add: withdrawableQuery_def)
  have r: "withdrawableReference t = Some (100, 10)"
    using withdrawable_filter [of t 0 0 0 0 exampleCodec exampleConfirmed exampleConfirmed "withdrawableQuery 108"
        "\<lparr>currentBestBlockHeight = 108\<rparr>" "\<lparr>Transactions = [], Total = 1\<rparr>"] sci st ud
    by auto
  have w8: "\<not> withdrawable t 108"
    using withdrawable_filter [of t 108 0 0 0 exampleCodec exampleConfirmed exampleConfirmed "withdrawableQuery 108"
        "\<lparr>currentBestBlockHeight = 108\<rparr>" "\<lparr>Transactions = [], Total = 1\<rparr>"] r
    by simp
  have w9: "withdrawable t 109"
    using withdrawable_filter [of t 109 0 0 0 exampleCodec exampleConfirmed exampleConfirmed "withdrawableQuery 109"
        "\<lparr>currentBestBlockHeight = 109\<rparr>" "\<lparr>Transactions = [], Total = 1\<rparr>"] r
    by simp
  show ?thesis
    using d u f r w8 w9
      withdrawable_filter [of t 108 0 0 0 exampleCodec exampleConfirmed exampleConfirmed "withdrawableQuery 108"
        "\<lparr>currentBestBlockHeight = 108\<rparr>" "\<lparr>Transactions = [], Total = 1\<rparr>"]
      withdrawable_filter [of t 109 0 0 0 exampleCodec exampleConfirmed exampleConfirmed "withdrawableQuery 109"
        "\<lparr>currentBestBlockHeight = 109\<rparr>" "\<lparr>Transactions = [], Total = 1\<rparr>"]
    by (intro exI [of _ t]) simp
qed

section \<open>Pages of a query\<close>

text \<open>
  C6 fails on the code when a stored transaction does not read back: in the store that
  four successful insertions leave, with a wire codec that rejects what it wrote, the
  query with offset 0 and limit 2 returns the error of \<open>Deserialize\<close> and no record.
\<close>

theorem query_page_fails_unreadable:
  "snd (insertAll unreadableCodec newStore (map exampleArgs [1, 2, 3, 4])) = None
   \<and> marshalReadsBack unreadableCodec
   \<and> pageIndices unreadableCodec
        (fst (insertAll unreadableCodec newStore (map exampleArgs [1, 2, 3, 4])))
        (pageQuery 0 2 False)
       = ([], Some (LibError ''malformed transaction''))"
  unfolding unreadableStore4_eq fst_conv snd_conv
  by (simp add: pageIndices_def pageQuery_def exampleStore4_eq QueryStoredTransactions_def
      marshalReadsBack_def View_def getNumTx_def nextTxKey_def numTxKey_def Get_def
      BigEndian_Uint64_def paginator_query_def newPaginator_def cursorStart_def
      accumulateTransactions_def unreadableCodec_def exampleCodec_def exampleMessage_def
      exampleTx_def decode_simps)

text \<open>
  C6 as amended, with the paginator as the specification describes it and a protobuf
  codec that unmarshals what it marshalled. In the store that four successful insertions
  leave, when the wire codec reads back each inserted staking and unbonding transaction,
  the query with offset 0 and limit 2 returns the records with the indices 1 and 2, the
  query with offset 2 and limit 2 those with the indices 3 and 4, and the reversed
  default query all four, each page in ascending order. And in every store that a
  sequence of calls on a new store leaves, the page that a reversed query returns
  without error is in strictly ascending order of the indices.
\<close>

theorem query_pages_ascending:
  assumes "marshalReadsBack X"
  shows "(snd (insertAll X newStore args) = None \<and> length args = 4
          \<and> (\<forall>a \<in> set args. argsReadBack X a)
        \<longrightarrow> pageIndices X (fst (insertAll X newStore args)) (pageQuery 0 2 False)
              = ([1, 2], None)
            \<and> pageIndices X (fst (insertAll X newStore args)) (pageQuery 2 2 False)
              = ([3, 4], None)
            \<and> pageIndices X (fst (insertAll X newStore args))
                (DefaultStoredTransactionQuery\<lparr>Reversed := True\<rparr>)
              = ([1, 2, 3, 4], None))
       \<and> (Reversed q \<and> snd (QueryStoredTransactions X (applyCalls X newStore cs) q) = None
        \<longrightarrow> sorted_wrt (<)
              (map StoredTransactionIdx
                 (Transactions (fst (QueryStoredTransactions X (applyCalls X newStore cs) q)))))"
proof -
  have pages: "pageIndices X (fst (insertAll X newStore args)) (pageQuery 0 2 False)
              = ([1, 2], None)
            \<and> pageIndices X (fst (insertAll X newStore args)) (pageQuery 2 2 False)
              = ([3, 4], None)
            \<and> pageIndices X (fst (insertAll X newStore args))
                (DefaultStoredTransactionQuery\<lparr>Reversed := True\<rparr>)
              = ([1, 2, 3, 4], None)"
    if ok: "snd (insertAll X newStore args) = None" and four: "length args = 4"
      and rb: "\<forall>a \<in> set args. argsReadBack X a"
  proof -
    let ?db = "fst (insertAll X newStore args)"
    have r: "insertAll X newStore args = (?db, None)"
      using ok by (cases "insertAll X newStore args") simp
    have b: "length ([] :: MsgTx list) + length args < 2 ^ 64" using four by simp
    obtain ts where sh: "storeShape X ?db (map arg_btcTx args) ts"
      using insertAll_shape [OF newStore_shape r b assms rb] by auto
    then have idx: "map StoredTransactionIdx ts = map (\<lambda>i. of_nat (Suc i)) [0..<4]"
      using four by (auto simp: storeShape_def)
    have "map (\<lambda>t. unat (StoredTransactionIdx t)) ts = map unat (map StoredTransactionIdx ts)"
      by simp
    also have "\<dots> = [1..<Suc 4]"
      unfolding idx using unat_index_list [of 4] by (simp add: comp_def)
    finally have i: "map (\<lambda>t. unat (StoredTransactionIdx t)) ts = [1, 2, 3, 4]"
      by (simp add: upt_rec)
    have "length (map (\<lambda>t. unat (StoredTransactionIdx t)) ts) = length [1, 2, 3, 4 :: nat]"
      by (simp only: i)
    then have len: "length ts = 4" by simp
    have ne: "map arg_btcTx args \<noteq> []" and bd: "length (map arg_btcTx args) < 2 ^ 64"
      using four by auto
    have q1: "QueryStoredTransactions X ?db (pageQuery 0 2 False)
        = (\<lparr>Transactions = take 2 ts, Total = of_nat (length (map arg_btcTx args))\<rparr>, None)"
      using query_shape [OF sh ne bd, of "pageQuery 0 2 False"] by (simp add: pageQuery_def)
    have q2: "QueryStoredTransactions X ?db (pageQuery 2 2 False)
        = (\<lparr>Transactions = take 2 (drop 2 ts),
            Total = of_nat (length (map arg_btcTx args))\<rparr>, None)"
      using query_shape [OF sh ne bd, of "pageQuery 2 2 False"] by (simp add: pageQuery_def)
    have q3: "QueryStoredTransactions X ?db (DefaultStoredTransactionQuery\<lparr>Reversed := True\<rparr>)
        = (\<lparr>Transactions = ts, Total = of_nat (length (map arg_btcTx args))\<rparr>, None)"
      using query_shape [OF sh ne bd, of "DefaultStoredTransactionQuery\<lparr>Reversed := True\<rparr>"] len
      by (simp add: DefaultStoredTransactionQuery_def)
    have "map (\<lambda>t. unat (StoredTransactionIdx t)) (take 2 ts)
        = take 2 (map (\<lambda>t. unat (StoredTransactionIdx t)) ts)"
      by (simp only: take_map)
    then have t1: "map (\<lambda>t. unat (StoredTransactionIdx t)) (take 2 ts) = [1, 2]"
      by (simp only: i) simp
    have "map (\<lambda>t. unat (StoredTransactionIdx t)) (take 2 (drop 2 ts))
        = take 2 (drop 2 (map (\<lambda>t. unat (StoredTransactionIdx t)) ts))"
      by (simp only: take_map drop_map)
    then have t2: "map (\<lambda>t. unat (StoredTransactionIdx t)) (take 2 (drop 2 ts)) = [3, 4]"
      by (simp only: i) simp
    show ?thesis
      by (simp add: pageIndices_def q1 q2 q3 t1 t2 i)
  qed
  have asc: "sorted_wrt (<)
              (map StoredTransactionIdx
                 (Transactions (fst (QueryStoredTransactions X (applyCalls X newStore cs) q))))"
    if "Reversed q" "snd (QueryStoredTransactions X (applyCalls X newStore cs) q) = None"
    using that storeOrdered_applyCalls [OF storeOrdered_newStore assms, of cs]
    by (intro query_reversed_ascending)
  show ?thesis using pages asc by blast
qed


theorem query_pages_ascending_witness:
  "marshalReadsBack exampleCodec
   \<and> snd (insertAll exampleCodec newStore (map exampleArgs [1, 2, 3, 4])) = None
   \<and> length (map exampleArgs [1, 2, 3, 4]) = 4
   \<and> argsReadBack exampleCodec (exampleArgs 1) \<and> argsReadBack exampleCodec (exampleArgs 2)
   \<and> argsReadBack exampleCodec (exampleArgs 3) \<and> argsReadBack exampleCodec (exampleArgs 4)
   \<and> pageIndices exampleCodec exampleStore4 (pageQuery 0 2 False) = ([1, 2], None)
   \<and> pageIndices exampleCodec exampleStore4 (pageQuery 2 2 False) = ([3, 4], None)
   \<and> pageIndices exampleCodec exampleStore4 (DefaultStoredTransactionQuery\<lparr>Reversed := True\<rparr>)
       = ([1, 2, 3, 4], None)
   \<and> Reversed (pageQuery 1 2 True)
   \<and> applyCalls exampleCodec newStore (map CallInsert (map exampleArgs [1, 2, 3, 4]))
       = exampleStore4
   \<and> pageIndices exampleCodec
        (applyCalls exampleCodec newStore (map CallInsert (map exampleArgs [1, 2, 3, 4])))
        (pageQuery 1 2 True) = ([2, 3], None)
   \<and> sorted_wrt (<)
        (map StoredTransactionIdx
           (Transactions
              (fst (QueryStoredTransactions exampleCodec
                      (applyCalls exampleCodec newStore
                         (map CallInsert (map exampleArgs [1, 2, 3, 4])))
                      (pageQuery 1 2 True)))))"
proof -
  let ?cs = "map CallInsert (map exampleArgs [1, 2, 3, 4]) :: (bytes, bytes) storeCall list"
  have ok: "snd (insertAll exampleCodec newStore (map exampleArgs [1, 2, 3, 4])) = None"
    by (rule conjunct2 [OF exampleStore4_eq])
  have m: "marshalReadsBack exampleCodec"
    by (simp add: marshalReadsBack_def exampleCodec_def)
  have a: "argsReadBack exampleCodec (exampleArgs 1)" "argsReadBack exampleCodec (exampleArgs 2)"
    "argsReadBack exampleCodec (exampleArgs 3)" "argsReadBack exampleCodec (exampleArgs 4)"
    by (simp_all add: argsReadBack_def wireReadsBack_def exampleArgs_def exampleCodec_def
        exampleTx_def)
  then have all: "\<forall>a \<in> set (map exampleArgs [1, 2, 3, 4]). argsReadBack exampleCodec a"
    by simp
  have four: "length (map exampleArgs [1, 2, 3, 4]) = 4" by simp
  have calls: "applyCalls exampleCodec newStore ?cs = exampleStore4"
    by (simp add: exampleStore4_eq newStore_eq example_simps exampleMessage_def)
  have page: "pageIndices exampleCodec exampleStore4 (pageQuery 1 2 True) = ([2, 3], None)"
    by (simp add: pageIndices_def pageQuery_def exampleStore4_eq QueryStoredTransactions_def
        View_def getNumTx_def nextTxKey_def numTxKey_def Get_def BigEndian_Uint64_def
        paginator_query_def newPaginator_def cursorStart_def accumulateTransactions_def
        exampleCodec_def exampleMessage_def exampleTx_def decode_simps reverse_loop_rev)
  have rv: "Reversed (pageQuery 1 2 True)" by (simp add: pageQuery_def)
  have noerr: "snd (QueryStoredTransactions exampleCodec (applyCalls exampleCodec newStore ?cs)
      (pageQuery 1 2 True)) = None"
    using page unfolding calls by (simp add: pageIndices_def)
  have t: "(snd (insertAll exampleCodec newStore (map exampleArgs [1, 2, 3, 4])) = None
          \<and> length (map exampleArgs [1, 2, 3, 4]) = 4
          \<and> (\<forall>a \<in> set (map exampleArgs [1, 2, 3, 4]). argsReadBack exampleCodec a)
        \<longrightarrow> pageIndices exampleCodec exampleStore4 (pageQuery 0 2 False) = ([1, 2], None)
            \<and> pageIndices exampleCodec exampleStore4 (pageQuery 2 2 False) = ([3, 4], None)
            \<and> pageIndices exampleCodec exampleStore4
                (DefaultStoredTransactionQuery\<lparr>Reversed := True\<rparr>) = ([1, 2, 3, 4], None))
       \<and> (Reversed (pageQuery 1 2 True)
            \<and> snd (QueryStoredTransactions exampleCodec (applyCalls exampleCodec newStore ?cs)
                 (pageQuery 1 2 True)) = None
        \<longrightarrow> sorted_wrt (<)
              (map StoredTransactionIdx
                 (Transactions (fst (QueryStoredTransactions exampleCodec
                    (applyCalls exampleCodec newStore ?cs) (pageQuery 1 2 True))))))"
    using query_pages_ascending [OF m, of "map exampleArgs [1, 2, 3, 4]" "pageQuery 1 2 True" ?cs]
    unfolding exampleStore4_def [symmetric] .
  show ?thesis
    using t ok m a all four calls page rv noerr by (simp only: simp_thms)
qed

section \<open>The outpoint index\<close>

text \<open>
  C7. After any sequence of calls on a new store, \<open>OutpointUsed\<close> is true of an outpoint
  exactly when a transaction whose insertion succeeded has an input with that previous
  outpoint; and once true it stays true after every further call.
\<close>

theorem outpoint_used_iff:
  "OutpointUsed (applyCalls X newStore cs) op
     = (op \<in> spentOutpoints (insertedTxs X newStore cs), None)
   \<and> (fst (OutpointUsed (applyCalls X newStore cs) op)
      \<longrightarrow> fst (OutpointUsed (applyCalls X newStore (cs @ cs1)) op))"
proof -
  obtain ib1 where r: "inputsDataBucket (applyCalls X newStore cs) = Some ib1"
    and g: "\<forall>k. Get ib1 k \<noteq> None \<longleftrightarrow>
        Get ([] :: bytes bucket) k \<noteq> None
        \<or> k \<in> outpointKey ` spentOutpoints (insertedTxs X newStore cs)"
    using applyCalls_inputs [OF newStore_inputs, of X cs] by blast
  have u: "OutpointUsed (applyCalls X newStore cs) op
     = (op \<in> spentOutpoints (insertedTxs X newStore cs), None)"
    using g by (auto simp: OutpointUsed_Get [OF r] Get_def outpointKey_inj)
  obtain ib2 where r2: "inputsDataBucket (applyCalls X (applyCalls X newStore cs) cs1) = Some ib2"
    and g2: "\<forall>k. Get ib2 k \<noteq> None \<longleftrightarrow>
        Get ib1 k \<noteq> None
        \<or> k \<in> outpointKey ` spentOutpoints (insertedTxs X (applyCalls X newStore cs) cs1)"
    using applyCalls_inputs [OF r, of X cs1] by blast
  have "fst (OutpointUsed (applyCalls X newStore cs) op)
      \<longrightarrow> fst (OutpointUsed (applyCalls X newStore (cs @ cs1)) op)"
    using g2 by (simp add: applyCalls_append OutpointUsed_Get [OF r] OutpointUsed_Get [OF r2])
  then show ?thesis using u by simp
qed


theorem outpoint_used_iff_witness:
  "insertedTxs exampleCodec newStore [CallInsert exampleSpend :: (bytes, bytes) storeCall]
     = [exampleTx 5 [exampleOutPoint 0]]
   \<and> OutpointUsed
        (applyCalls exampleCodec newStore [CallInsert exampleSpend :: (bytes, bytes) storeCall])
        (exampleOutPoint 0) = (True, None)
   \<and> OutpointUsed
        (applyCalls exampleCodec newStore [CallInsert exampleSpend :: (bytes, bytes) storeCall])
        (exampleOutPoint 1) = (False, None)
   \<and> fst (OutpointUsed
        (applyCalls exampleCodec newStore
           ([CallInsert exampleSpend] @
            [CallInsert (exampleArgs 2), CallSetTxConfirmed (exampleHash 5) (exampleHash 50) 100
               :: (bytes, bytes) storeCall]))
        (exampleOutPoint 0))"
proof -
  let ?cs = "[CallInsert exampleSpend :: (bytes, bytes) storeCall]"
  have i: "insertedTxs exampleCodec newStore ?cs = [exampleTx 5 [exampleOutPoint 0]]"
    by (simp add: exampleSpend_def exampleOutPoint_def newStore_eq example_simps
        BigEndian_uint32_def)
  have s: "exampleOutPoint 0 \<in> spentOutpoints [exampleTx 5 [exampleOutPoint 0]]"
    "exampleOutPoint 1 \<notin> spentOutpoints [exampleTx 5 [exampleOutPoint 0]]"
    by (simp_all add: spentOutpoints_def exampleTx_def exampleOutPoint_def)
  show ?thesis
    using i s
      outpoint_used_iff [of exampleCodec ?cs "exampleOutPoint 0"
        "[CallInsert (exampleArgs 2), CallSetTxConfirmed (exampleHash 5) (exampleHash 50) 100]"]
      outpoint_used_iff [of exampleCodec ?cs "exampleOutPoint 1" "[]"]
    by simp
qed

section \<open>Reading a transaction\<close>

text \<open>
  C8. With the two buckets in place, \<open>GetTransaction\<close> returns \<open>ErrTransactionNotFound\<close>
  when the hash is not a key of the hash index, \<open>ErrCorruptedTransactionsDB\<close> when the
  index gives a key under which the transactions bucket has nothing, and otherwise, when
  the stored bytes unmarshal, the decoding of the message (the decoded record, or the
  error of the decoding).
\<close>

theorem get_transaction_results:
  assumes "transactionIndex db = Some ib" and "transactionBucket db = Some tb"
  shows "(Get ib (CloneBytes h) = None \<longrightarrow> GetTransaction X db h = Inl ErrTransactionNotFound)
       \<and> (\<forall>k. Get ib (CloneBytes h) = Some k \<and> Get tb k = None
              \<longrightarrow> GetTransaction X db h = Inl ErrCorruptedTransactionsDB)
       \<and> (\<forall>k m p. Get ib (CloneBytes h) = Some k \<and> Get tb k = Some m
                \<and> pm_Unmarshal X m = Inr p
              \<longrightarrow> GetTransaction X db h = protoTxToStoredTransaction X p)"
  using assms
  by (auto simp: GetTransaction_def View_def getTxByHash_def Let_def split: sum.splits)

theorem get_transaction_results_witness:
  "(\<exists>ib tb. transactionIndex exampleStore1 = Some ib \<and> transactionBucket exampleStore1 = Some tb
      \<and> Get ib (CloneBytes (exampleHash 9)) = None
      \<and> (\<exists>k m. Get ib (CloneBytes (exampleHash 7)) = Some k \<and> Get tb k = Some m
            \<and> pm_Unmarshal exampleCodec m = Inr m))
   \<and> GetTransaction exampleCodec exampleStore1 (exampleHash 9) = Inl ErrTransactionNotFound
   \<and> GetTransaction exampleCodec (exampleStore1\<lparr>transactionBucket := Some []\<rparr>) (exampleHash 7)
        = Inl ErrCorruptedTransactionsDB
   \<and> (\<exists>t. GetTransaction exampleCodec exampleStore1 (exampleHash 7) = Inr t
          \<and> StoredTransactionIdx t = 1 \<and> StakingTx t = exampleTx 7 [])"
proof -
  define ib :: "bytes bucket" where
    "ib = [(7 # replicate 31 0, [0, 0, 0, 0, 0, 0, 0, 1]),
           ([110, 116, 107], [0, 0, 0, 0, 0, 0, 0, 2])]"
  define tb :: "TrackedTransaction bucket" where
    "tb = [([0, 0, 0, 0, 0, 0, 0, 1], exampleMessage 7 1)]"
  have tb: "transactionBucket exampleStore1 = Some tb"
    and ib: "transactionIndex exampleStore1 = Some ib"
    by (simp_all add: exampleStore1_eq ib_def tb_def)
  have g9: "Get ib (CloneBytes (exampleHash 9)) = None"
    and g7: "Get ib (CloneBytes (exampleHash 7)) = Some [0, 0, 0, 0, 0, 0, 0, 1]"
    by (simp_all add: ib_def Get_def CloneBytes_exampleHash)
  have gm: "Get tb [0, 0, 0, 0, 0, 0, 0, 1] = Some (exampleMessage 7 1)"
    and ge: "Get [] [0, 0, 0, 0, 0, 0, 0, 1] = (None :: TrackedTransaction option)"
    by (simp_all add: tb_def Get_def)
  have um: "pm_Unmarshal exampleCodec (exampleMessage 7 1) = Inr (exampleMessage 7 1)"
    by (simp add: exampleCodec_def)
  have dec: "\<exists>t. protoTxToStoredTransaction exampleCodec (exampleMessage 7 1) = Inr t
          \<and> StoredTransactionIdx t = 1 \<and> StakingTx t = exampleTx 7 []"
    by (simp add: exampleMessage_def decode_simps exampleCodec_def exampleTx_def)
  have ib': "transactionIndex (exampleStore1\<lparr>transactionBucket := Some []\<rparr>) = Some ib"
    and tb': "transactionBucket (exampleStore1\<lparr>transactionBucket := Some []\<rparr>) = Some []"
    using ib by simp_all
  show ?thesis
    using get_transaction_results [OF ib tb, of "exampleHash 9" exampleCodec]
      get_transaction_results [OF ib tb, of "exampleHash 7" exampleCodec]
      get_transaction_results [OF ib' tb', of "exampleHash 7" exampleCodec]
      ib tb g9 g7 gm ge um dec
    by auto
qed

section \<open>Insertion needs the unbonding transaction\<close>

text \<open>
  C9 fails on the code: \<open>newInitialUnbondingTxData\<close> rejects a nil unbonding
  transaction, so an insertion that omits it returns an error and stores nothing.
\<close>

theorem insert_without_unbonding_tx_fails:
  "AddTransactionSentToBabylon exampleCodec newStore (exampleTx 7 []) 0 100 ''addr'' None 0
     ''ref''
     = (newStore,
        Some (Errorf_w ''failed to create unbonding transaction data''
                (Errorf ''cannot create unbonding tx data without unbonding tx'')))
   \<and> primaryRecord
        (fst (AddTransactionSentToBabylon exampleCodec newStore (exampleTx 7 []) 0 100
                ''addr'' None 0 ''ref''))
        (uint64KeyToBytes 1) = (None :: TrackedTransaction option)"
  by (simp add: AddTransactionSentToBabylon_def newInitialUnbondingTxData_def exampleCodec_def
      primaryRecord_def newStore_eq Get_def)

text \<open>
  C9 as amended. An insertion without the unbonding transaction fails and leaves the
  database as it was; when the staking transaction serializes, the error is the one of
  \<open>newInitialUnbondingTxData\<close>. An insertion with an unbonding transaction, into a store
  with its three buckets whose hash index does not hold the hash, succeeds when both
  transactions serialize and the message marshals: it stores the message under the next
  index \<open>n\<close>, with unbonding data that hold the serialized unbonding transaction, the
  unbonding time, no covenant signature and no confirmation; it maps the hash to that
  index and advances the counter to \<open>n + 1\<close>.
\<close>

theorem insert_requires_unbonding_tx:
  "fst (AddTransactionSentToBabylon X db btcTx outIdx stakingTm addr None unbondingTm ref) = db
   \<and> snd (AddTransactionSentToBabylon X db btcTx outIdx stakingTm addr None unbondingTm ref)
       \<noteq> None
   \<and> (SerializeBtcTransaction X btcTx = Inr sb
      \<longrightarrow> snd (AddTransactionSentToBabylon X db btcTx outIdx stakingTm addr None unbondingTm ref)
          = Some (Errorf_w ''failed to create unbonding transaction data''
                    (Errorf ''cannot create unbonding tx data without unbonding tx'')))
   \<and> (transactionIndex db = Some ib \<and> transactionBucket db = Some tb
        \<and> inputsDataBucket db = Some inb
        \<and> Get ib (CloneBytes (TxHash X btcTx)) = None
        \<and> SerializeBtcTransaction X btcTx = Inr sb
        \<and> SerializeBtcTransaction X utx = Inr ub
        \<and> nextTxKey ib = Inr n
        \<and> pm_Marshal X
             \<lparr>pb_TrackedTransactionIdx = n, pb_StakingTransaction = sb,
              pb_StakingOutputIdx = outIdx, pb_StakerAddress = addr,
              pb_StakingTime = ucast stakingTm, pb_StakingTxBtcConfirmationInfo = None,
              pb_UnbondingTxData =
                Some \<lparr>pb_UnbondingTransaction = ub, pb_UnbondingTime = ucast unbondingTm,
                      pb_CovenantSignatures = [], pb_UnbondingTxBtcConfirmationInfo = None\<rparr>,
              pb_BabylonBTCDelegationTxHash = ref\<rparr> = Inr m
      \<longrightarrow> snd (AddTransactionSentToBabylon X db btcTx outIdx stakingTm addr (Some utx)
                 unbondingTm ref) = None
          \<and> primaryRecord
               (fst (AddTransactionSentToBabylon X db btcTx outIdx stakingTm addr (Some utx)
                       unbondingTm ref)) (uint64KeyToBytes n) = Some m
          \<and> indexedKey
               (fst (AddTransactionSentToBabylon X db btcTx outIdx stakingTm addr (Some utx)
                       unbondingTm ref)) (TxHash X btcTx) = Some (uint64KeyToBytes n)
          \<and> (\<exists>ib1. transactionIndex
                      (fst (AddTransactionSentToBabylon X db btcTx outIdx stakingTm addr
                              (Some utx) unbondingTm ref)) = Some ib1
                  \<and> nextTxKey ib1 = Inr (n + 1)))"
proof -
  have nil: "fst (AddTransactionSentToBabylon X db btcTx outIdx stakingTm addr None unbondingTm ref) = db
   \<and> snd (AddTransactionSentToBabylon X db btcTx outIdx stakingTm addr None unbondingTm ref)
       \<noteq> None
   \<and> (SerializeBtcTransaction X btcTx = Inr sb
      \<longrightarrow> snd (AddTransactionSentToBabylon X db btcTx outIdx stakingTm addr None unbondingTm ref)
          = Some (Errorf_w ''failed to create unbonding transaction data''
                    (Errorf ''cannot create unbonding tx data without unbonding tx'')))"
    by (simp add: AddTransactionSentToBabylon_def newInitialUnbondingTxData_def split: sum.splits)
  have ok: "snd (AddTransactionSentToBabylon X db btcTx outIdx stakingTm addr (Some utx)
                 unbondingTm ref) = None
          \<and> primaryRecord
               (fst (AddTransactionSentToBabylon X db btcTx outIdx stakingTm addr (Some utx)
                       unbondingTm ref)) (uint64KeyToBytes n) = Some m
          \<and> indexedKey
               (fst (AddTransactionSentToBabylon X db btcTx outIdx stakingTm addr (Some utx)
                       unbondingTm ref)) (TxHash X btcTx) = Some (uint64KeyToBytes n)
          \<and> (\<exists>ib1. transactionIndex
                      (fst (AddTransactionSentToBabylon X db btcTx outIdx stakingTm addr
                              (Some utx) unbondingTm ref)) = Some ib1
                  \<and> nextTxKey ib1 = Inr (n + 1))"
    if h: "transactionIndex db = Some ib" "transactionBucket db = Some tb"
        "inputsDataBucket db = Some inb"
        "Get ib (CloneBytes (TxHash X btcTx)) = None"
        "SerializeBtcTransaction X btcTx = Inr sb"
        "SerializeBtcTransaction X utx = Inr ub"
        "nextTxKey ib = Inr n"
        "pm_Marshal X
             \<lparr>pb_TrackedTransactionIdx = n, pb_StakingTransaction = sb,
              pb_StakingOutputIdx = outIdx, pb_StakerAddress = addr,
              pb_StakingTime = ucast stakingTm, pb_StakingTxBtcConfirmationInfo = None,
              pb_UnbondingTxData =
                Some \<lparr>pb_UnbondingTransaction = ub, pb_UnbondingTime = ucast unbondingTm,
                      pb_CovenantSignatures = [], pb_UnbondingTxBtcConfirmationInfo = None\<rparr>,
              pb_BabylonBTCDelegationTxHash = ref\<rparr> = Inr m"
    using h
    by (simp add: AddTransactionSentToBabylon_def newInitialUnbondingTxData_def Let_def
        getInputData_def outpointsBytes_total addTransactionInternal_def Batch_def
        saveTrackedTransaction_def primaryRecord_def indexedKey_def Get_Put
        CloneBytes_neq_numTxKey nextTxKey_def BigEndian_Uint64_uint64KeyToBytes)
  show ?thesis using nil ok by blast
qed


theorem insert_requires_unbonding_tx_witness:
  "transactionIndex (newStore :: TrackedTransaction backend) = Some []
   \<and> transactionBucket (newStore :: TrackedTransaction backend) = Some []
   \<and> inputsDataBucket (newStore :: TrackedTransaction backend) = Some []
   \<and> Get ([] :: bytes bucket) (CloneBytes (TxHash exampleCodec (exampleTx 7 []))) = None
   \<and> SerializeBtcTransaction exampleCodec (exampleTx 7 []) = Inr [7]
   \<and> SerializeBtcTransaction exampleCodec (exampleTx 107 []) = Inr [107]
   \<and> nextTxKey [] = Inr 1
   \<and> pm_Marshal exampleCodec (exampleMessage 7 1) = Inr (exampleMessage 7 1)
   \<and> snd (AddTransactionSentToBabylon exampleCodec newStore (exampleTx 7 []) 0 100 ''addr''
            (Some (exampleTx 107 [])) 10 ''ref'') = None
   \<and> primaryRecord
        (fst (AddTransactionSentToBabylon exampleCodec newStore (exampleTx 7 []) 0 100 ''addr''
                (Some (exampleTx 107 [])) 10 ''ref'')) (uint64KeyToBytes 1)
       = Some (exampleMessage 7 1)
   \<and> indexedKey
        (fst (AddTransactionSentToBabylon exampleCodec newStore (exampleTx 7 []) 0 100 ''addr''
                (Some (exampleTx 107 [])) 10 ''ref'')) (TxHash exampleCodec (exampleTx 7 []))
       = Some (uint64KeyToBytes 1)
   \<and> fst (AddTransactionSentToBabylon exampleCodec newStore (exampleTx 7 []) 0 100 ''addr''
            None 10 ''ref'') = newStore
   \<and> snd (AddTransactionSentToBabylon exampleCodec newStore (exampleTx 7 []) 0 100 ''addr''
            None 10 ''ref'') \<noteq> None"
proof -
  have h: "transactionIndex (newStore :: TrackedTransaction backend) = Some []"
    "transactionBucket (newStore :: TrackedTransaction backend) = Some []"
    "inputsDataBucket (newStore :: TrackedTransaction backend) = Some []"
    "Get ([] :: bytes bucket) (CloneBytes (TxHash exampleCodec (exampleTx 7 []))) = None"
    "SerializeBtcTransaction exampleCodec (exampleTx 7 []) = Inr [7]"
    "SerializeBtcTransaction exampleCodec (exampleTx 107 []) = Inr [107]"
    "nextTxKey [] = Inr 1"
    "pm_Marshal exampleCodec (exampleMessage 7 1) = Inr (exampleMessage 7 1)"
    by (simp_all add: newStore_eq Get_def exampleCodec_def exampleTx_def nextTxKey_def)
  show ?thesis
    using h
      insert_requires_unbonding_tx [of exampleCodec newStore "exampleTx 7 []" 0 100 "''addr''"
        10 "''ref''" "[7]" "[]" "[]" "[]" "exampleTx 107 []" "[107]" 1 "exampleMessage 7 1"]
    by (simp add: exampleMessage_def)
qed

section \<open>The frame of the state transitions\<close>

text \<open>
  C10. Each of the four state transitions, applied to the transaction hash \<open>h\<close>, leaves
  the hash index (with the counter in it) and the outpoint index as they were, and
  leaves the primary record under every key other than the one the index gives \<open>h\<close> as
  it was, whether the call succeeds or fails.
\<close>

theorem state_transitions_frame:
  "unchangedExcept db h (fst (SetTxConfirmed X db h blockHash blockHeight))
   \<and> unchangedExcept db h
       (fst (SetDelegationActiveOnBabylonAndConfirmedOnBtc X db h blockHash blockHeight))
   \<and> unchangedExcept db h (fst (SetTxUnbondingSignaturesReceived X db h sigs))
   \<and> unchangedExcept db h (fst (SetTxUnbondingConfirmedOnBtc X db h blockHash blockHeight))"
  by (simp add: transition_simps setTxState_frame)

theorem state_transitions_frame_witness:
  "indexedKey exampleStore4 (exampleHash 2) = Some [0, 0, 0, 0, 0, 0, 0, 2]
   \<and> snd (SetTxConfirmed exampleCodec exampleStore4 (exampleHash 2) (exampleHash 50) 100) = None
   \<and> primaryRecord (fst (SetTxConfirmed exampleCodec exampleStore4 (exampleHash 2)
                           (exampleHash 50) 100)) [0, 0, 0, 0, 0, 0, 0, 2]
       \<noteq> primaryRecord exampleStore4 [0, 0, 0, 0, 0, 0, 0, 2]
   \<and> primaryRecord (fst (SetTxConfirmed exampleCodec exampleStore4 (exampleHash 2)
                           (exampleHash 50) 100)) [0, 0, 0, 0, 0, 0, 0, 3]
       = Some (exampleMessage 3 3)
   \<and> unchangedExcept exampleStore4 (exampleHash 2)
       (fst (SetTxConfirmed exampleCodec exampleStore4 (exampleHash 2) (exampleHash 50) 100))"
proof -
  let ?db1 = "fst (SetTxConfirmed exampleCodec exampleStore4 (exampleHash 2) (exampleHash 50) 100)"
  have k: "indexedKey exampleStore4 (exampleHash 2) = Some [0, 0, 0, 0, 0, 0, 0, 2]"
    by (simp add: indexedKey_def exampleStore4_eq Get_def CloneBytes_exampleHash)
  have r3: "primaryRecord exampleStore4 [0, 0, 0, 0, 0, 0, 0, 3] = Some (exampleMessage 3 3)"
    by (simp add: primaryRecord_def exampleStore4_eq Get_def)
  have ev: "snd (SetTxConfirmed exampleCodec exampleStore4 (exampleHash 2) (exampleHash 50) 100) = None
     \<and> primaryRecord ?db1 [0, 0, 0, 0, 0, 0, 0, 2] \<noteq> primaryRecord exampleStore4 [0, 0, 0, 0, 0, 0, 0, 2]"
    by (simp add: SetTxConfirmed_def setTxState_def setTxConfirmed_def getTxByHash_def
        primaryRecord_def exampleStore4_eq example_simps exampleMessage_def)
  have f: "unchangedExcept exampleStore4 (exampleHash 2) ?db1"
    using state_transitions_frame [of exampleStore4 "exampleHash 2" exampleCodec "exampleHash 50" 100 "[]"]
    by simp
  then have "primaryRecord ?db1 [0, 0, 0, 0, 0, 0, 0, 3] = primaryRecord exampleStore4 [0, 0, 0, 0, 0, 0, 0, 3]"
    using k by (simp add: unchangedExcept_def)
  then show ?thesis using k r3 ev f by simp
qed

end
